(* ===== verification/Prelude.thy ===== *)
theory Prelude
  imports Main "HOL-Library.AList" "HOL-Library.State_Monad" "HOL-Library.Monad_Syntax"
begin

text \<open>
  What every component shares: the collections of rules the proofs rest on, Go's maps as
  association lists, errors as values, and the programs over a state with Go's
  \<open>if err != nil { return ... }\<close> and its loops with early return.
\<close>

named_theorems hoare "what a program does to its state, whatever it returns"
named_theorems gosimps "unfolding rules of the model's small operations"

section \<open>Go maps\<close>

text \<open>
  A Go \<open>map[string]string\<close> is the list of its entries in the order in which one
  \<open>range\<close> over it would visit them. Go leaves that order unspecified, so a claim about
  code that ranges over a map is stated for every order of the entries. Reading a nil map is
  reading the empty map; a field where the code tells nil from empty is an \<open>option\<close>.
\<close>

type_synonym gomap = "(string \<times> string) list"

definition wf_map :: "('k \<times> 'v) list \<Rightarrow> bool" where
  "wf_map m \<longleftrightarrow> distinct (map fst m)"

definition map_get :: "gomap \<Rightarrow> string \<Rightarrow> string" where
  "map_get m k = (case map_of m k of None \<Rightarrow> '''' | Some v \<Rightarrow> v)"

abbreviation map_put :: "'k \<Rightarrow> 'v \<Rightarrow> ('k \<times> 'v) list \<Rightarrow> ('k \<times> 'v) list" where
  "map_put \<equiv> AList.update"

text \<open>\<open>for k, v := range src { dst[k] = v }\<close>\<close>

fun map_merge :: "('k \<times> 'v) list \<Rightarrow> ('k \<times> 'v) list \<Rightarrow> ('k \<times> 'v) list" where
  "map_merge dst [] = dst"
| "map_merge dst ((k, v) # src) = map_merge (map_put k v dst) src"

lemma map_of_map_put [simp]: "map_of (map_put k v m) = (map_of m)(k \<mapsto> v)"
  by (rule update_conv')

lemma map_of_map_merge: "map_of (map_merge dst src) = map_of dst ++ map_of (rev src)"
  by (induction dst src rule: map_merge.induct) (auto simp: map_add_def fun_eq_iff split: option.splits)

lemma wf_map_Cons [simp]: "wf_map ((k, v) # m) \<longleftrightarrow> k \<notin> fst ` set m \<and> wf_map m"
  by (simp add: wf_map_def)

lemma wf_map_Nil [simp]: "wf_map []"
  by (simp add: wf_map_def)

lemma wf_map_put [simp]: "wf_map m \<Longrightarrow> wf_map (map_put k v m)"
  by (simp add: wf_map_def distinct_update)

lemma wf_map_merge: "wf_map dst \<Longrightarrow> wf_map (map_merge dst src)"
  by (induction dst src rule: map_merge.induct) auto

lemma map_of_rev: "wf_map m \<Longrightarrow> map_of (rev m) = map_of m"
  by (metis map_of_eqI map_of_inject_set rev_rev_ident set_rev wf_map_def distinct_rev rev_map)

lemma map_of_map_merge_wf: "wf_map src \<Longrightarrow> map_of (map_merge dst src) = map_of dst ++ map_of src"
  by (simp add: map_of_map_merge map_of_rev)

text \<open>Two orders of the same entries are the same map.\<close>

lemma map_of_perm:
  assumes "wf_map m" and "set m = set m'" and "wf_map m'"
  shows "map_of m = map_of m'"
  using assms by (auto simp: wf_map_def map_of_inject_set)

section \<open>Lists\<close>

lemma filter_eq_self: "(\<And>x. x \<in> set xs \<Longrightarrow> P x) \<Longrightarrow> filter P xs = xs"
  by (induction xs) auto

lemma concat_map_single [simp]: "concat (map (\<lambda>x. [f x]) xs) = map f xs"
  by (induction xs) auto

text \<open>\<open>seen := map[string]bool{}; for _, x := range xs { if !seen[x] { append; seen[x] = true } }\<close>\<close>

fun dedup :: "'a list \<Rightarrow> 'a list \<Rightarrow> 'a list" where
  "dedup seen [] = []"
| "dedup seen (x # xs) = (if x \<in> set seen then dedup seen xs else x # dedup (x # seen) xs)"

lemma set_dedup: "set (dedup seen xs) = set xs - set seen"
  by (induction seen xs rule: dedup.induct) auto

lemma distinct_dedup: "distinct (dedup seen xs)"
  by (induction seen xs rule: dedup.induct) (auto simp: set_dedup)

lemma dedup_distinct: "distinct xs \<Longrightarrow> set xs \<inter> set seen = {} \<Longrightarrow> dedup seen xs = xs"
  by (induction seen xs rule: dedup.induct) auto

lemma dedup_distinct_filter: "distinct xs \<Longrightarrow> dedup seen xs = filter (\<lambda>x. x \<notin> set seen) xs"
proof (induction seen xs rule: dedup.induct)
  case (2 seen x xs)
  then show ?case by (auto intro!: filter_cong)
qed simp

lemma dedup_append: "dedup seen (xs @ ys) = dedup seen xs @ dedup (rev (dedup seen xs) @ seen) ys"
  by (induction seen xs rule: dedup.induct) auto

lemma dedup_cong: "set seen = set seen' \<Longrightarrow> dedup seen xs = dedup seen' xs"
  by (induction seen xs arbitrary: seen' rule: dedup.induct) auto

end
