(* ===== verification/Programs.thy ===== *)
theory Programs
  imports Prelude
begin

text \<open>
  Programs over a state, in the state monad: a call that can fail returns \<open>'e + 'a\<close>, and the
  caller decides, as Go code does after every call. The locale \<open>effect_relation\<close> is the
  contract of the frame proofs: any reflexive and transitive relation between the state before
  and after that the primitive operations respect is respected by every program built of them.
\<close>

abbreviation ret :: "'a \<Rightarrow> ('s, 'e + 'a) state" where
  "ret a \<equiv> State_Monad.return (Inr a)"

abbreviation fail :: "'e \<Rightarrow> ('s, 'e + 'a) state" where
  "fail e \<equiv> State_Monad.return (Inl e)"

text \<open>\<open>a, err := m; if err != nil { return wrap(err) }; k(a)\<close>\<close>

definition tryM :: "('s, 'e + 'a) state \<Rightarrow> ('e \<Rightarrow> 'e) \<Rightarrow> ('a \<Rightarrow> ('s, 'e + 'b) state) \<Rightarrow> ('s, 'e + 'b) state" where
  "tryM m wrap k = do { r \<leftarrow> m; case r of Inl e \<Rightarrow> fail (wrap e) | Inr a \<Rightarrow> k a }"

text \<open>\<open>for _, x := range xs { if err := f(x); err != nil { return err } }\<close>\<close>

fun each :: "('a \<Rightarrow> ('s, 'e + unit) state) \<Rightarrow> 'a list \<Rightarrow> ('s, 'e + unit) state" where
  "each f [] = ret ()"
| "each f (x # xs) = tryM (f x) id (\<lambda>_. each f xs)"

text \<open>The same with a body that may also \<open>continue\<close> or \<open>return nil\<close> from the function.\<close>

datatype flow = Continue | ReturnNil

fun each_flow :: "('a \<Rightarrow> ('s, 'e + flow) state) \<Rightarrow> 'a list \<Rightarrow> ('s, 'e + flow) state" where
  "each_flow f [] = ret Continue"
| "each_flow f (x # xs) =
     tryM (f x) id (\<lambda>c. case c of Continue \<Rightarrow> each_flow f xs | ReturnNil \<Rightarrow> ret ReturnNil)"

text \<open>Up to \<open>n + 1\<close> runs of a program, the next one only after a retryable error.\<close>

fun attempts :: "('e \<Rightarrow> bool) \<Rightarrow> nat \<Rightarrow> ('s, 'e + 'a) state \<Rightarrow> ('s, 'e + 'a) state" where
  "attempts retryable 0 m = m"
| "attempts retryable (Suc n) m =
     do { r \<leftarrow> m;
          case r of
            Inl e \<Rightarrow> if retryable e then attempts retryable n m else fail e
          | Inr a \<Rightarrow> ret a }"

section \<open>Running\<close>

lemma run_tryM:
  "run_state (tryM m wrap k) s =
     (case run_state m s of (Inl e, s') \<Rightarrow> (Inl (wrap e), s') | (Inr a, s') \<Rightarrow> run_state (k a) s')"
  by (auto simp: tryM_def split: prod.splits sum.splits)

lemma run_tryM_ok [simp]: "run_state m s = (Inr a, s') \<Longrightarrow> run_state (tryM m wrap k) s = run_state (k a) s'"
  by (simp add: run_tryM)

lemma run_tryM_err [simp]: "run_state m s = (Inl e, s') \<Longrightarrow> run_state (tryM m wrap k) s = (Inl (wrap e), s')"
  by (simp add: run_tryM)

lemma run_tryM_Inr:
  assumes "run_state (tryM m wrap k) s = (Inr b, s')"
  obtains a s1 where "run_state m s = (Inr a, s1)" and "run_state (k a) s1 = (Inr b, s')"
  using assms by (cases "run_state m s"; cases "fst (run_state m s)") (auto simp: run_tryM)

lemma tryM_ret [simp]: "tryM (ret a) wrap k = k a"
  by (simp add: tryM_def)

lemma tryM_fail [simp]: "tryM (fail e) wrap k = fail (wrap e)"
  by (simp add: tryM_def)

lemma each_append: "run_state (each f (xs @ ys)) s = run_state (tryM (each f xs) id (\<lambda>_. each f ys)) s"
  by (induction xs arbitrary: s) (auto simp: run_tryM split: prod.splits sum.splits)

lemma attempts_first:
  "run_state m s = (Inr a, s') \<Longrightarrow> run_state (attempts p n m) s = (Inr a, s')"
  by (cases n) auto

lemma attempts_fatal:
  "run_state m s = (Inl e, s') \<Longrightarrow> \<not> p e \<Longrightarrow> run_state (attempts p n m) s = (Inl e, s')"
  by (cases n) auto

section \<open>Effects\<close>

locale effect_relation =
  fixes R :: "'s \<Rightarrow> 's \<Rightarrow> bool"
  assumes R_refl: "R s s"
    and R_trans: "R s t \<Longrightarrow> R t u \<Longrightarrow> R s u"
begin

lemma eff_return: "state_io_rel R (State_Monad.return a)"
  by (auto simp: R_refl state_io_rel_def)

lemma eff_bind:
  fixes m :: "('s, 'a) state" and f :: "'a \<Rightarrow> ('s, 'b) state"
  assumes "state_io_rel R m" and "\<And>a. state_io_rel R (f a)"
  shows "state_io_rel R (m \<bind> f)"
  using assms by (auto simp: state_io_rel_def split: prod.splits) (metis R_trans snd_conv)

text \<open>The same when the rest is only fit for results the first part can have.\<close>

lemma eff_bind_result:
  fixes m :: "('s, 'a) state" and f :: "'a \<Rightarrow> ('s, 'b) state"
  assumes "state_io_rel R m" and "\<And>a s s'. run_state m s = (a, s') \<Longrightarrow> state_io_rel R (f a)"
  shows "state_io_rel R (m \<bind> f)"
  unfolding state_io_rel_def
proof
  fix s
  obtain a s' where m: "run_state m s = (a, s')" by (cases "run_state m s")
  then have "R s s'" and "R s' (snd (run_state (f a) s'))"
    using assms(1) assms(2) [OF m] by (auto simp: state_io_rel_def dest: spec [where x = s])
  then show "R s (snd (run_state (m \<bind> f) s))" using R_trans by (simp add: m)
qed

lemma eff_tryM:
  fixes m :: "('s, 'e + 'a) state" and k :: "'a \<Rightarrow> ('s, 'e + 'b) state"
  assumes "state_io_rel R m" and "\<And>a. state_io_rel R (k a)"
  shows "state_io_rel R (tryM m wrap k)"
  unfolding tryM_def by (rule eff_bind [OF assms(1)]) (auto split: sum.split intro: eff_return assms(2))

lemma eff_tryM_result:
  fixes m :: "('s, 'e + 'a) state" and k :: "'a \<Rightarrow> ('s, 'e + 'b) state"
  assumes "state_io_rel R m" and "\<And>a s s'. run_state m s = (Inr a, s') \<Longrightarrow> state_io_rel R (k a)"
  shows "state_io_rel R (tryM m wrap k)"
  unfolding tryM_def
  by (rule eff_bind_result [OF assms(1)]) (auto split: sum.split intro: eff_return assms(2))

lemma eff_each:
  fixes f :: "'a \<Rightarrow> ('s, 'e + unit) state"
  assumes "\<And>x. x \<in> set xs \<Longrightarrow> state_io_rel R (f x)"
  shows "state_io_rel R (each f xs)"
  using assms by (induction xs) (auto intro!: eff_return eff_tryM)

lemma eff_each_flow:
  fixes f :: "'a \<Rightarrow> ('s, 'e + flow) state"
  assumes "\<And>x. x \<in> set xs \<Longrightarrow> state_io_rel R (f x)"
  shows "state_io_rel R (each_flow f xs)"
  using assms by (induction xs) (auto intro!: eff_return eff_tryM split: flow.split)

lemma eff_attempts:
  fixes m :: "('s, 'e + 'a) state"
  assumes "state_io_rel R m"
  shows "state_io_rel R (attempts p n m)"
  by (induction n) (auto intro!: assms eff_bind eff_return split: sum.split)

lemmas effects = eff_return eff_bind eff_tryM eff_each eff_each_flow

end

end
