(* ===== verification/GoStrings.thy ===== *)
theory GoStrings
  imports Prelude "HOL-Library.List_Lexorder" "HOL-Library.Multiset" "HOL-Library.Char_ord"
begin

text \<open>
  The part of Go's \<open>strings\<close>, \<open>strconv\<close>, \<open>sort\<close> and \<open>fmt\<close> that the operator uses. A Go
  string is a sequence of bytes, here a \<open>char list\<close>; a loop that ranges over a string decodes
  UTF-8 and sees runes, an invalid byte being the rune U+FFFD of width one.
\<close>

section \<open>Runes\<close>

abbreviation byte :: "char \<Rightarrow> nat" where
  "byte c \<equiv> of_char c"

abbreviation rune_error :: nat where
  "rune_error \<equiv> 65533"

definition seq_len :: "nat \<Rightarrow> nat" where
  "seq_len b =
     (if b < 128 then 1
      else if 194 \<le> b \<and> b \<le> 223 then 2
      else if 224 \<le> b \<and> b \<le> 239 then 3
      else if 240 \<le> b \<and> b \<le> 244 then 4
      else 0)"

definition second_ok :: "nat \<Rightarrow> nat \<Rightarrow> bool" where
  "second_ok b b1 =
     ((if b = 224 then 160 else if b = 240 then 144 else 128) \<le> b1 \<and>
      b1 \<le> (if b = 237 then 159 else if b = 244 then 143 else 191))"

definition cont_ok :: "nat \<Rightarrow> bool" where
  "cont_ok b \<longleftrightarrow> 128 \<le> b \<and> b \<le> 191"

text \<open>The rune at the head of the bytes, and how many bytes follow its first one.\<close>

definition decode_rune :: "nat \<Rightarrow> nat list \<Rightarrow> nat \<times> nat" where
  "decode_rune b bs =
     (if seq_len b = 1 then (b, 0)
      else if seq_len b = 2 then
        (case bs of b1 # _ \<Rightarrow> if second_ok b b1 then ((b - 192) * 64 + (b1 - 128), 1) else (rune_error, 0)
         | _ \<Rightarrow> (rune_error, 0))
      else if seq_len b = 3 then
        (case bs of b1 # b2 # _ \<Rightarrow>
            if second_ok b b1 \<and> cont_ok b2
            then ((b - 224) * 4096 + (b1 - 128) * 64 + (b2 - 128), 2) else (rune_error, 0)
         | _ \<Rightarrow> (rune_error, 0))
      else if seq_len b = 4 then
        (case bs of b1 # b2 # b3 # _ \<Rightarrow>
            if second_ok b b1 \<and> cont_ok b2 \<and> cont_ok b3
            then ((b - 240) * 262144 + (b1 - 128) * 4096 + (b2 - 128) * 64 + (b3 - 128), 3)
            else (rune_error, 0)
         | _ \<Rightarrow> (rune_error, 0))
      else (rune_error, 0))"

text \<open>The runes of a string, each with the bytes it was read from.\<close>

fun chunks :: "string \<Rightarrow> (nat \<times> string) list" where
  "chunks [] = []"
| "chunks (c # cs) =
     (let (r, n) = decode_rune (byte c) (map byte cs)
      in (r, c # take n cs) # chunks (drop n cs))"

definition runes :: "string \<Rightarrow> nat list" where
  "runes s = map fst (chunks s)"

lemma chunks_concat: "concat (map snd (chunks s)) = s"
  by (induction s rule: chunks.induct) (auto split: prod.splits)

lemma decode_rune_ascii [simp]: "b < 128 \<Longrightarrow> decode_rune b bs = (b, 0)"
  by (simp add: decode_rune_def seq_len_def)

lemma runes_Nil [simp]: "runes [] = []"
  by (simp add: runes_def)

lemma runes_ascii_Cons [simp]: "byte c < 128 \<Longrightarrow> runes (c # cs) = byte c # runes cs"
  by (simp add: runes_def)

lemma runes_ascii: "(\<And>c. c \<in> set s \<Longrightarrow> byte c < 128) \<Longrightarrow> runes s = map byte s"
  by (induction s) auto

lemma length_runes: "length (runes s) \<le> length s"
proof (induction s rule: chunks.induct)
  case (2 c cs)
  obtain r n where rn: "decode_rune (byte c) (map byte cs) = (r, n)" by fastforce
  have "length (runes (drop n cs)) \<le> length (drop n cs)"
    using "2.IH"[OF rn[symmetric]] by simp
  then show ?case by (simp add: runes_def rn)
qed simp

section \<open>Trimming, prefixes, splitting and joining\<close>

definition trim :: "('a \<Rightarrow> bool) \<Rightarrow> 'a list \<Rightarrow> 'a list" where
  "trim P xs = rev (dropWhile P (rev (dropWhile P xs)))"

lemma trim_Nil [simp]: "trim P [] = []"
  by (simp add: trim_def)

lemma hd_dropWhile_rev: "rev (dropWhile P (rev ys)) \<noteq> [] \<Longrightarrow> hd (rev (dropWhile P (rev ys))) = hd ys"
proof -
  assume ne: "rev (dropWhile P (rev ys)) \<noteq> []"
  have "ys = rev (dropWhile P (rev ys)) @ rev (takeWhile P (rev ys))"
    by (metis rev_append rev_rev_ident takeWhile_dropWhile_id)
  with ne show ?thesis by (metis hd_append)
qed

lemma trim_hd: "trim P xs \<noteq> [] \<Longrightarrow> \<not> P (hd (trim P xs))"
  unfolding trim_def
  by (metis dropWhile_eq_Nil_conv hd_dropWhile hd_dropWhile_rev rev.simps(1) dropWhile.simps(1))

lemma trim_last: "trim P xs \<noteq> [] \<Longrightarrow> \<not> P (last (trim P xs))"
  by (metis hd_dropWhile last_rev rev_is_Nil_conv trim_def)

lemma set_trim: "set (trim P xs) \<subseteq> set xs"
  unfolding trim_def by (auto dest!: set_dropWhileD)

lemma length_trim: "length (trim P xs) \<le> length xs"
  unfolding trim_def by (metis length_dropWhile_le length_rev order_trans)

lemma trim_id: "xs = [] \<or> (\<not> P (hd xs) \<and> \<not> P (last xs)) \<Longrightarrow> trim P xs = xs"
proof (cases "xs = []")
  case False
  assume "xs = [] \<or> (\<not> P (hd xs) \<and> \<not> P (last xs))"
  with False have a: "\<not> P (hd xs)" and b: "\<not> P (last xs)" by auto
  from a False have "dropWhile P xs = xs" by (cases xs) auto
  moreover from b False have "dropWhile P (rev xs) = rev xs"
    by (metis dropWhile_eq_self_iff hd_rev)
  ultimately show ?thesis by (simp add: trim_def)
qed simp

lemma trim_trim [simp]: "trim P (trim P xs) = trim P xs"
  by (rule trim_id) (use trim_hd[of P xs] trim_last[of P xs] in blast)

lemma filter_dropWhile: "filter (\<lambda>x. \<not> P x) (dropWhile P xs) = filter (\<lambda>x. \<not> P x) xs"
  by (induction xs) auto

lemma filter_trim: "filter (\<lambda>x. \<not> P x) (trim P xs) = filter (\<lambda>x. \<not> P x) xs"
  by (simp add: trim_def filter_dropWhile flip: rev_filter)

lemma trim_all: "(\<And>x. x \<in> set xs \<Longrightarrow> P x) \<Longrightarrow> trim P xs = []"
  by (simp add: trim_def dropWhile_eq_Nil_conv[THEN iffD2])

text \<open>\<open>unicode.IsSpace\<close>\<close>

definition is_space :: "nat \<Rightarrow> bool" where
  "is_space r \<longleftrightarrow>
     r \<in> {9, 10, 11, 12, 13, 32, 133, 160, 5760, 8232, 8233, 8239, 8287, 12288}
     \<or> (8192 \<le> r \<and> r \<le> 8202)"

text \<open>\<open>strings.TrimSpace\<close>\<close>

definition trim_space :: "string \<Rightarrow> string" where
  "trim_space s = concat (map snd (trim (\<lambda>(r, _). is_space r) (chunks s)))"

definition has_prefix :: "string \<Rightarrow> string \<Rightarrow> bool" where
  "has_prefix s p \<longleftrightarrow> take (length p) s = p"

definition trim_prefix :: "string \<Rightarrow> string \<Rightarrow> string" where
  "trim_prefix s p = (if has_prefix s p then drop (length p) s else s)"

lemma has_prefix_conv: "has_prefix s p \<longleftrightarrow> (\<exists>t. s = p @ t)"
  unfolding has_prefix_def by (metis append_take_drop_id append_eq_conv_conj)

lemma has_prefix_append [simp]: "has_prefix (p @ s) p"
  by (simp add: has_prefix_def)

lemma trim_prefix_append [simp]: "trim_prefix (p @ s) p = s"
  by (simp add: trim_prefix_def)

text \<open>\<open>strings.Split(s, sep)\<close> for a separator of one byte; the empty string splits to one empty string.\<close>

fun split_on :: "char \<Rightarrow> string \<Rightarrow> string list" where
  "split_on sep [] = [[]]"
| "split_on sep (c # cs) =
     (if c = sep then [] # split_on sep cs
      else (case split_on sep cs of [] \<Rightarrow> [[c]] | w # ws \<Rightarrow> (c # w) # ws))"

text \<open>\<open>strings.Join(xs, sep)\<close>\<close>

fun join :: "string \<Rightarrow> string list \<Rightarrow> string" where
  "join sep [] = []"
| "join sep [x] = x"
| "join sep (x # xs) = x @ sep @ join sep xs"

lemma split_on_nonempty [simp]: "split_on sep s \<noteq> []"
  by (induction s) (auto split: list.splits)

lemma split_on_no_sep: "sep \<notin> set s \<Longrightarrow> split_on sep s = [s]"
  by (induction s) auto

lemma split_on_append:
  "sep \<notin> set x \<Longrightarrow> split_on sep (x @ sep # s) = x # split_on sep s"
  by (induction x) auto

lemma split_on_join:
  "xs \<noteq> [] \<Longrightarrow> (\<And>x. x \<in> set xs \<Longrightarrow> sep \<notin> set x) \<Longrightarrow> split_on sep (join [sep] xs) = xs"
proof (induction "[sep]" xs rule: join.induct)
  case (3 x y zs)
  then show ?case by (simp add: split_on_append)
qed (auto simp: split_on_no_sep)

lemma split_on_elems: "x \<in> set (split_on sep s) \<Longrightarrow> sep \<notin> set x"
proof (induction s arbitrary: x)
  case (Cons c cs)
  then show ?case by (fastforce split: if_splits list.splits)
qed simp

section \<open>Decimal numbers\<close>

definition digit_char :: "nat \<Rightarrow> char" where
  "digit_char d = char_of (48 + d)"

fun show_nat :: "nat \<Rightarrow> string" where
  "show_nat n = (if n < 10 then [digit_char n] else show_nat (n div 10) @ [digit_char (n mod 10)])"

declare show_nat.simps [simp del]

text \<open>\<open>fmt.Sprintf("%d", n)\<close>\<close>

definition show_int :: "int \<Rightarrow> string" where
  "show_int i = (if i < 0 then CHR ''-'' # show_nat (nat (- i)) else show_nat (nat i))"

definition is_digit :: "char \<Rightarrow> bool" where
  "is_digit c \<longleftrightarrow> 48 \<le> byte c \<and> byte c \<le> 57"

fun read_digits :: "nat \<Rightarrow> string \<Rightarrow> nat option" where
  "read_digits acc [] = Some acc"
| "read_digits acc (c # cs) =
     (if is_digit c then read_digits (acc * 10 + (byte c - 48)) cs else None)"

text \<open>
  \<open>strconv.ParseInt(s, 10, 64)\<close>: an optional sign and at least one digit; \<open>None\<close> stands for
  both of its errors, the syntax error and the value out of the range of an \<open>int64\<close>.
\<close>

definition parse_int64 :: "string \<Rightarrow> int option" where
  "parse_int64 s =
     (let (neg, ds) = (case s of
          c # cs \<Rightarrow> if c = CHR ''-'' then (True, cs) else if c = CHR ''+'' then (False, cs) else (False, s)
        | [] \<Rightarrow> (False, []))
      in if ds = [] then None
         else (case read_digits 0 ds of
             None \<Rightarrow> None
           | Some n \<Rightarrow>
               if neg then (if n > 2 ^ 63 then None else Some (- int n))
               else (if n \<ge> 2 ^ 63 then None else Some (int n))))"

lemma byte_digit_char: "d < 10 \<Longrightarrow> byte (digit_char d) = 48 + d"
  by (simp add: digit_char_def)

lemma read_digits_append:
  "read_digits acc (xs @ ys) = Option.bind (read_digits acc xs) (\<lambda>a. read_digits a ys)"
  by (induction acc xs rule: read_digits.induct) auto

lemma read_show_nat: "read_digits 0 (show_nat n) = Some n"
proof (induction n rule: show_nat.induct)
  case (1 n)
  show ?case
  proof (cases "n < 10")
    case True
    then show ?thesis by (simp add: show_nat.simps is_digit_def byte_digit_char)
  next
    case False
    have "read_digits (n div 10) [digit_char (n mod 10)] = Some n"
      by (simp add: is_digit_def byte_digit_char)
    with False "1.IH" show ?thesis
      by (simp add: show_nat.simps[of n] read_digits_append)
  qed
qed

lemma show_nat_nonempty [simp]: "show_nat n \<noteq> []"
  by (subst show_nat.simps) simp

lemma show_nat_digits: "c \<in> set (show_nat n) \<Longrightarrow> is_digit c"
proof (induction n rule: show_nat.induct)
  case (1 n)
  then show ?case
    by (cases "n < 10") (auto simp: show_nat.simps[of n] is_digit_def byte_digit_char)
qed

lemma show_nat_hd: "show_nat n = c # cs \<Longrightarrow> c \<noteq> CHR ''-'' \<and> c \<noteq> CHR ''+''"
  using show_nat_digits[of c n] by (auto simp: is_digit_def)

lemma parse_show_int:
  assumes "- (2 ^ 63) \<le> i" and "i < 2 ^ 63"
  shows "parse_int64 (show_int i) = Some i"
proof (cases "i < 0")
  case True
  then have "show_int i = CHR ''-'' # show_nat (nat (- i))" by (simp add: show_int_def)
  moreover have "\<not> nat (- i) > 2 ^ 63" using assms True by simp
  ultimately show ?thesis using True by (simp add: parse_int64_def read_show_nat)
next
  case False
  obtain c cs where cs: "show_nat (nat i) = c # cs"
    by (meson neq_Nil_conv show_nat_nonempty)
  have "\<not> nat i \<ge> 2 ^ 63" using assms False by simp
  moreover have "read_digits 0 (c # cs) = Some (nat i)" using read_show_nat[of "nat i"] cs by simp
  ultimately show ?thesis using False cs show_nat_hd[OF cs]
    by (simp add: parse_int64_def show_int_def del: read_digits.simps)
qed

lemma parse_int64_range:
  assumes "parse_int64 s = Some i"
  shows "- (2 ^ 63) \<le> i \<and> i < 2 ^ 63"
  using assms by (auto simp: parse_int64_def Let_def split: prod.splits option.splits if_splits list.splits)

section \<open>Hexadecimal\<close>

definition hex_digit :: "nat \<Rightarrow> char" where
  "hex_digit d = char_of (if d < 10 then 48 + d else 87 + d)"

text \<open>\<open>fmt.Sprintf("%x", bytes)\<close>\<close>

definition hex :: "string \<Rightarrow> string" where
  "hex bs = concat (map (\<lambda>c. [hex_digit (byte c div 16), hex_digit (byte c mod 16)]) bs)"

lemma length_hex [simp]: "length (hex bs) = 2 * length bs"
  by (induction bs) (auto simp: hex_def)

section \<open>Sorting\<close>

text \<open>
  \<open>sort.Strings\<close> orders by bytes: the lexicographic order on \<open>char list\<close>. A sorted
  list is determined by its elements, so every order of the same elements sorts to one list.
\<close>

lemma sort_perm: "mset xs = mset ys \<Longrightarrow> sort xs = sort (ys :: 'a :: linorder list)"
  by (metis mset_sort properties_for_sort sorted_sort)

lemma sort_key_perm:
  assumes "mset xs = mset ys" and "distinct (map f xs)"
  shows "sort_key f xs = sort_key f ys"
proof (rule map_sorted_distinct_set_unique)
  show "inj_on f (set (sort_key f xs) \<union> set (sort_key f ys))"
    using assms by (metis distinct_map mset_eq_setD set_sort sup.idem)
  show "sorted (map f (sort_key f xs))" and "sorted (map f (sort_key f ys))" by simp_all
  have "distinct (map f ys)" using assms by (metis mset_eq_imp_distinct_iff mset_map)
  then show "distinct (map f (sort_key f ys))"
    by (metis mset_eq_imp_distinct_iff mset_map mset_sort)
  show "distinct (map f (sort_key f xs))"
    using assms(2) by (metis mset_eq_imp_distinct_iff mset_map mset_sort)
  show "set (sort_key f xs) = set (sort_key f ys)" using assms by (metis mset_eq_setD set_sort)
qed


section \<open>Quoting\<close>

text \<open>
  \<open>strconv.Quote\<close>, the \<open>%q\<close> of \<open>fmt\<close>. Which runes outside ASCII are printable is a table of
  Go's \<open>strconv\<close>, a parameter here.
\<close>

fun hex_fixed :: "nat \<Rightarrow> nat \<Rightarrow> string" where
  "hex_fixed 0 n = []"
| "hex_fixed (Suc w) n = hex_fixed w (n div 16) @ [hex_digit (n mod 16)]"

definition rune_printable :: "(nat \<Rightarrow> bool) \<Rightarrow> nat \<Rightarrow> bool" where
  "rune_printable table r = (if r < 128 then 32 \<le> r \<and> r < 127 else table r)"

definition quote_chunk :: "(nat \<Rightarrow> bool) \<Rightarrow> nat \<times> string \<Rightarrow> string" where
  "quote_chunk table chunk =
     (case chunk of (r, bs) \<Rightarrow>
        if r = rune_error \<and> List.length bs = 1 then CHR 0x5C # CHR ''x'' # hex_fixed 2 (byte (hd bs))
        else if r = 34 \<or> r = 92 then CHR 0x5C # bs
        else if rune_printable table r then bs
        else if r = 7 then [CHR 0x5C, CHR ''a'']
        else if r = 8 then [CHR 0x5C, CHR ''b'']
        else if r = 12 then [CHR 0x5C, CHR ''f'']
        else if r = 10 then [CHR 0x5C, CHR ''n'']
        else if r = 13 then [CHR 0x5C, CHR ''r'']
        else if r = 9 then [CHR 0x5C, CHR ''t'']
        else if r = 11 then [CHR 0x5C, CHR ''v'']
        else if r < 128 then CHR 0x5C # CHR ''x'' # hex_fixed 2 r
        else if r < 65536 then CHR 0x5C # CHR ''u'' # hex_fixed 4 r
        else CHR 0x5C # CHR ''U'' # hex_fixed 8 r)"

definition quote :: "(nat \<Rightarrow> bool) \<Rightarrow> string \<Rightarrow> string" where
  "quote table s = CHR 0x22 # concat (map (quote_chunk table) (chunks s)) @ [CHR 0x22]"

lemma quote_plain:
  assumes "\<And>c. c \<in> set s \<Longrightarrow> 32 \<le> byte c \<and> byte c < 127 \<and> byte c \<noteq> 34 \<and> byte c \<noteq> 92"
  shows "quote table s = CHR 0x22 # s @ [CHR 0x22]"
proof -
  have "concat (map (quote_chunk table) (chunks s)) = s" using assms
  proof (induction s)
    case (Cons c cs)
    have ih: "concat (map (quote_chunk table) (chunks cs)) = cs"
      by (rule Cons.IH) (rule Cons.prems, simp)
    have c: "32 \<le> byte c" "byte c < 127" "byte c \<noteq> 34" "byte c \<noteq> 92" using Cons.prems [of c] by simp_all
    then have "quote_chunk table (byte c, [c]) = [c]" by (simp add: quote_chunk_def rune_printable_def)
    moreover have "decode_rune (byte c) (map byte cs) = (byte c, 0)" using c by simp
    ultimately show ?case using ih by simp
  qed simp
  then show ?thesis by (simp add: quote_def)
qed

end
