(* ===== verification/KubeTypes.thy ===== *)
theory KubeTypes
  imports GoStrings
begin

text \<open>
  The Kubernetes data the operator reads and writes: metadata, errors, and one record per
  child resource. A record holds the fields the source names; what it never looks into is
  carried as JSON, and a field called \<open>rest\<close> stands for whatever else the API server keeps in
  the object (defaults it injects, for example). Integers are \<open>int\<close>: the operator copies and
  compares them and never computes with them.
\<close>

section \<open>JSON\<close>

datatype gojson =
    JNull
  | JBool bool
  | JInt int
  | JStr string
  | JList "gojson list"
  | JObj "(string \<times> gojson) list"

definition str_list :: "string list \<Rightarrow> gojson" where
  "str_list xs = JList (map JStr xs)"

section \<open>Errors\<close>

text \<open>
  The errors of the API machinery are told apart by their reason, which
  \<open>fmt.Errorf("...: %w", err)\<close> keeps (\<open>Wrap\<close>). \<open>GoPanic\<close> is a run-time panic, which
  controller-runtime turns into an error of the reconcile.
\<close>

datatype reason =
    NotFound | AlreadyExists | Conflict | Forbidden | Unauthorized | BadRequest | Invalid
  | RequestEntityTooLarge | OtherReason

datatype error =
    StatusError reason string
  | NoMatch string
  | MaxBytes string
  | Plain string
  | Wrap string error
  | GoPanic string

fun err_msg :: "error \<Rightarrow> string" where
  "err_msg (StatusError _ m) = m"
| "err_msg (NoMatch m) = m"
| "err_msg (MaxBytes m) = m"
| "err_msg (Plain m) = m"
| "err_msg (Wrap p e) = p @ '': '' @ err_msg e"
| "err_msg (GoPanic m) = m"

fun reason_of :: "error \<Rightarrow> reason option" where
  "reason_of (StatusError r _) = Some r"
| "reason_of (Wrap _ e) = reason_of e"
| "reason_of _ = None"

fun is_no_match :: "error \<Rightarrow> bool" where
  "is_no_match (NoMatch _) = True"
| "is_no_match (Wrap _ e) = is_no_match e"
| "is_no_match _ = False"

text \<open>\<open>errors.As(err, *http.MaxBytesError)\<close>\<close>

fun is_max_bytes :: "error \<Rightarrow> bool" where
  "is_max_bytes (MaxBytes _) = True"
| "is_max_bytes (Wrap _ e) = is_max_bytes e"
| "is_max_bytes _ = False"

text \<open>A panic is no Go error: it leaves every function on its way up.\<close>

fun is_panic :: "error \<Rightarrow> bool" where
  "is_panic (GoPanic _) = True"
| "is_panic (Wrap _ e) = is_panic e"
| "is_panic _ = False"

lemma is_panic_reason: "is_panic e \<Longrightarrow> reason_of e = None"
  by (induction e rule: is_panic.induct) auto

abbreviation is_not_found :: "error \<Rightarrow> bool" where
  "is_not_found e \<equiv> reason_of e = Some NotFound"

abbreviation is_already_exists :: "error \<Rightarrow> bool" where
  "is_already_exists e \<equiv> reason_of e = Some AlreadyExists"

abbreviation is_conflict :: "error \<Rightarrow> bool" where
  "is_conflict e \<equiv> reason_of e = Some Conflict"

type_synonym 'a result = "error + 'a"

section \<open>Metadata\<close>

record GVK =
  g_group :: string
  g_version :: string
  g_kind :: string

definition group_version :: "GVK \<Rightarrow> string" where
  "group_version g = (if g_group g = '''' then g_version g else g_group g @ ''/'' @ g_version g)"

record OwnerReference =
  or_apiVersion :: string
  or_kind :: string
  or_name :: string
  or_uid :: string
  or_controller :: bool

record ObjectMeta =
  m_name :: string
  m_namespace :: string
  m_labels :: gomap
  m_annotations :: gomap
  m_ownerRefs :: "OwnerReference list"
  m_resourceVersion :: string
  m_uid :: string
  m_generation :: int
  m_creationTimestamp :: "int option"
  m_deletionTimestamp :: "int option"
  m_deletionGracePeriodSeconds :: "int option"
  m_finalizers :: "string list"
  m_managedFields :: "gojson list"

text \<open>\<open>metav1.ObjectMeta{Name: name, Namespace: ns}\<close>\<close>

definition object_meta :: "string \<Rightarrow> string \<Rightarrow> ObjectMeta" where
  "object_meta name ns =
     \<lparr>m_name = name, m_namespace = ns, m_labels = [], m_annotations = [], m_ownerRefs = [],
      m_resourceVersion = '''', m_uid = '''', m_generation = 0, m_creationTimestamp = None,
      m_deletionTimestamp = None, m_deletionGracePeriodSeconds = None, m_finalizers = [],
      m_managedFields = []\<rparr>"

lemma object_meta_simps [simp]:
  "m_name (object_meta n ns) = n" "m_namespace (object_meta n ns) = ns"
  "m_labels (object_meta n ns) = []" "m_ownerRefs (object_meta n ns) = []"
  "m_resourceVersion (object_meta n ns) = ''''" "m_annotations (object_meta n ns) = []"
  by (simp_all add: object_meta_def)

text \<open>Every entry of the selector is a label of the object.\<close>

definition labels_match :: "gomap \<Rightarrow> gomap \<Rightarrow> bool" where
  "labels_match sel labels \<longleftrightarrow> list_all (\<lambda>(k, v). map_of labels k = Some v) sel"

record Condition =
  cond_type :: string
  cond_status :: string
  cond_reason :: string
  cond_message :: string
  cond_lastTransitionTime :: int
  cond_observedGeneration :: int

datatype kind =
    ConfigMapK | SecretK | DeploymentK | ServiceK | PersistentVolumeClaimK
  | HorizontalPodAutoscalerK | IngressK | ServiceAccountK | AppDefinitionK | UnstructuredK GVK

section \<open>Values passed through the spec\<close>

record HTTPGetAction =
  hg_Scheme :: string
  hg_rest :: gojson

record PodSecurityContext =
  psc_FSGroup :: "int option"
  psc_rest :: gojson

record ResourceRequirements =
  rq_Requests :: "(string \<times> gojson) list"
  rq_Limits :: "(string \<times> gojson) list"
  rq_Claims :: "gojson list"

definition no_resources :: ResourceRequirements where
  "no_resources = \<lparr>rq_Requests = [], rq_Limits = [], rq_Claims = []\<rparr>"

type_synonym exec_action = gojson
type_synonym quantity = gojson

section \<open>Pods\<close>

record KubeProbe =
  kp_HTTPGet :: "HTTPGetAction option"
  kp_TCPSocket :: "gojson option"
  kp_Exec :: "exec_action option"
  kp_InitialDelaySeconds :: int
  kp_PeriodSeconds :: int
  kp_TimeoutSeconds :: int
  kp_FailureThreshold :: int
  kp_SuccessThreshold :: int

record ContainerPort =
  cp_Name :: string
  cp_ContainerPort :: int
  cp_Protocol :: string

record VolumeMount =
  vm_Name :: string
  vm_MountPath :: string
  vm_SubPath :: string

datatype volume_source =
    PVCSource string
  | ConfigMapSource string int
  | SecretSource string int

record Volume =
  vol_Name :: string
  vol_Source :: volume_source

record Lifecycle =
  lcy_PostStart :: "exec_action option"
  lcy_PreStop :: "exec_action option"

text \<open>\<open>EnvFrom\<close> lists the Secrets whose keys become environment variables.\<close>

record Container =
  c_Name :: string
  c_Image :: string
  c_Command :: "string list"
  c_Args :: "string list"
  c_Env :: "gojson list"
  c_Ports :: "ContainerPort list"
  c_ReadinessProbe :: "KubeProbe option"
  c_LivenessProbe :: "KubeProbe option"
  c_Resources :: ResourceRequirements
  c_Lifecycle :: "Lifecycle option"
  c_EnvFrom :: "string list"
  c_VolumeMounts :: "VolumeMount list"
  c_ImagePullPolicy :: string
  c_TerminationMessagePath :: string
  c_TerminationMessagePolicy :: string

record PodSpec =
  pod_SecurityContext :: "PodSecurityContext option"
  pod_ServiceAccountName :: string
  pod_NodeSelector :: gomap
  pod_Tolerations :: "gojson list"
  pod_Affinity :: "gojson option"
  pod_ImagePullSecrets :: "string list"
  pod_Volumes :: "Volume list"
  pod_InitContainers :: "Container list"
  pod_Containers :: "Container list"
  pod_rest :: gojson

section \<open>Child resources\<close>

record ConfigMap =
  cm_meta :: ObjectMeta
  cm_data :: gomap
  cm_rest :: gojson

record Secret =
  sc_meta :: ObjectMeta
  sc_type :: string
  sc_data :: gomap

record DeploymentStrategy =
  ds_Type :: string
  ds_RollingUpdate :: "gojson option"

record Deployment =
  dep_meta :: ObjectMeta
  dep_Replicas :: "int option"
  dep_Strategy :: DeploymentStrategy
  dep_Selector :: "gomap option"
  dep_TemplateLabels :: gomap
  dep_TemplateAnnotations :: gomap
  dep_PodSpec :: PodSpec
  dep_rest :: gojson
  dep_ReadyReplicas :: int

record ServicePort =
  sp_Name :: string
  sp_Port :: int
  sp_TargetPort :: int
  sp_Protocol :: string

record Service =
  svc_meta :: ObjectMeta
  svc_Type :: string
  svc_Selector :: gomap
  svc_Ports :: "ServicePort list"
  svc_rest :: gojson

text \<open>
  \<open>Resources.Requests\<close> and \<open>Status.Capacity\<close> are maps from resource names; an object without
  them has nil maps. The operator uses their \<open>storage\<close> entry only.
\<close>

record PersistentVolumeClaim =
  pvc_meta :: ObjectMeta
  pvc_AccessModes :: "string list"
  pvc_Requests :: "(string \<times> quantity) list option"
  pvc_StorageClassName :: "string option"
  pvc_rest :: gojson
  pvc_Phase :: string
  pvc_Capacity :: "(string \<times> quantity) list"

record ResourceMetric =
  rm_Resource :: string
  rm_AverageUtilization :: int

record HorizontalPodAutoscaler =
  hpa_meta :: ObjectMeta
  hpa_TargetAPIVersion :: string
  hpa_TargetKind :: string
  hpa_TargetName :: string
  hpa_MinReplicas :: "int option"
  hpa_MaxReplicas :: int
  hpa_Metrics :: "ResourceMetric list"
  hpa_CurrentReplicas :: int
  hpa_DesiredReplicas :: int

record IngressTLS =
  it_Hosts :: "string list"
  it_SecretName :: string

record IngressRule =
  ir_Host :: string
  ir_Path :: string
  ir_PathType :: string
  ir_ServiceName :: string
  ir_ServicePort :: string

text \<open>\<open>ing_LoadBalancer\<close>: the \<open>IP\<close> and \<open>Hostname\<close> of each entry of the status.\<close>

record Ingress =
  ing_meta :: ObjectMeta
  ing_ClassName :: "string option"
  ing_TLS :: "IngressTLS list"
  ing_Rules :: "IngressRule list"
  ing_rest :: gojson
  ing_LoadBalancer :: "(string \<times> string) list"

record ServiceAccount =
  sa_meta :: ObjectMeta
  sa_rest :: gojson

record Pod =
  pd_meta :: ObjectMeta
  pd_rest :: gojson

text \<open>
  \<open>unstructured.Unstructured\<close>: \<open>apiVersion\<close>, \<open>kind\<close> and \<open>metadata\<close> have accessors of their own;
  the other members of the top-level object are \<open>u_fields\<close>.
\<close>

record Unstructured =
  u_apiVersion :: string
  u_kind :: string
  u_meta :: ObjectMeta
  u_fields :: "(string \<times> gojson) list"

end
