(* ===== verification/AppDefTypes.thy ===== *)
theory AppDefTypes
  imports KubeTypes
begin

text \<open>
  The AppDefinition resource of \<open>api/v1/appdefinition_types.go\<close>, field by field: a struct is a
  record, a pointer an \<open>option\<close>, a slice a list, a string map a \<^typ>\<open>gomap\<close>. The validation
  markers of the source are rules of the CRD that the API server enforces; the operator's own
  code does not repeat them, and no definition here assumes them.
\<close>

section \<open>Containers\<close>

record MetricsSpec =
  mt_Enabled :: bool
  mt_Path :: string
  mt_Interval :: string
  mt_Labels :: gomap

record PortSpec =
  port_Name :: string
  port_ContainerPort :: int
  port_ServicePort :: int
  port_Protocol :: string
  port_Expose :: bool
  port_Metrics :: "MetricsSpec option"

record Probe =
  pr_Type :: string
  pr_HTTPGet :: "HTTPGetAction option"
  pr_TCPSocket :: "gojson option"
  pr_Exec :: "exec_action option"
  pr_InitialDelaySeconds :: int
  pr_PeriodSeconds :: int
  pr_TimeoutSeconds :: int
  pr_FailureThreshold :: int
  pr_SuccessThreshold :: int

record ContainerSpec =
  cs_Name :: string
  cs_Image :: string
  cs_Command :: "string list"
  cs_Args :: "string list"
  cs_Env :: "gojson list"
  cs_Ports :: "PortSpec list"
  cs_ReadinessProbe :: "Probe option"
  cs_LivenessProbe :: "Probe option"
  cs_Resources :: ResourceRequirements

record InitContainerSpec =
  ic_Name :: string
  ic_Image :: string
  ic_Command :: "string list"
  ic_Args :: "string list"
  ic_Env :: "gojson list"
  ic_Resources :: ResourceRequirements

record LifecycleHook =
  lh_Exec :: "exec_action option"

record LifecycleSpec =
  lc_PostStart :: "LifecycleHook option"
  lc_PreStop :: "LifecycleHook option"

section \<open>Disk, logging and autoscaling\<close>

record DiskPartition =
  dp_SubPath :: string
  dp_MountPath :: string

record DiskConfig =
  disk_SizeInGi :: int
  disk_StorageClassName :: string
  disk_SetFsGroup :: bool
  disk_Partitions :: "DiskPartition list"
  disk_Annotations :: gomap
  disk_Protect :: bool

record LoggingFile =
  lf_Path :: string
  lf_Format :: string
  lf_MultilinePattern :: string

record LoggingStream =
  lgs_Enabled :: bool
  lgs_Format :: string

record LoggingConfig =
  lg_Stdout :: "LoggingStream option"
  lg_Stderr :: "LoggingStream option"
  lg_Files :: "LoggingFile list"

record AutoscalingSpec =
  as_Enabled :: bool
  as_MinReplicas :: "int option"
  as_MaxReplicas :: int
  as_TargetCPUUtilizationPercentage :: "int option"
  as_TargetMemoryUtilizationPercentage :: "int option"

section \<open>Configuration and secrets\<close>

record ConfigMapMount =
  cmm_Name :: string
  cmm_MountPath :: string
  cmm_Data :: gomap

text \<open>\<open>Data\<close> is an option because the API server of the repository tells nil from empty.\<close>

record SecretMount =
  sec_Name :: string
  sec_MountPath :: string
  sec_AsEnvVars :: bool
  sec_Data :: "gomap option"
  sec_SecretRef :: string

record ExternalSecretRemoteRef =
  rr_Key :: string
  rr_Property :: string
  rr_Version :: string

record ExternalSecretData =
  esd_SecretKey :: string
  esd_RemoteRef :: ExternalSecretRemoteRef

record ExternalSecretDataFrom =
  esf_Key :: string
  esf_Version :: string

record ExternalSecretMount =
  es_Name :: string
  es_Store :: string
  es_StoreKind :: string
  es_RefreshInterval :: string
  es_MountPath :: string
  es_AsEnvVars :: bool
  es_Data :: "ExternalSecretData list"
  es_DataFrom :: "ExternalSecretDataFrom list"

record VaultSecretStoreSpec =
  va_Server :: string
  va_Path :: string
  va_Version :: string
  va_AuthMountPath :: string
  va_Role :: string

record SecretStoreSpec =
  ss_Name :: string
  ss_Scope :: string
  ss_Vault :: VaultSecretStoreSpec

section \<open>Domains and middlewares\<close>

record RedirectSchemeSpec =
  rs_Scheme :: string
  rs_Permanent :: bool
  rs_Port :: string

record CompressSpec =
  cps_ExcludedContentTypes :: "string list"
  cps_IncludedContentTypes :: "string list"
  cps_MinResponseBodyBytes :: "int option"

record IPStrategySpec =
  ips_Depth :: int
  ips_ExcludedIPs :: "string list"

record IPWhiteListSpec =
  ipw_SourceRange :: "string list"
  ipw_IPStrategy :: "IPStrategySpec option"

record BasicAuthSpec =
  ba_SecretName :: string
  ba_Realm :: string
  ba_RemoveHeader :: bool
  ba_HeaderField :: string

record ForwardAuthSpec =
  fa_Address :: string
  fa_TrustForwardHeader :: bool
  fa_AuthResponseHeaders :: "string list"
  fa_AuthRequestHeaders :: "string list"
  fa_TLSInsecureSkipVerify :: bool

record HeadersSpec =
  hd_CustomRequestHeaders :: gomap
  hd_CustomResponseHeaders :: gomap
  hd_STSSeconds :: int
  hd_STSIncludeSubdomains :: bool
  hd_STSPreload :: bool
  hd_ForceSTSHeader :: bool
  hd_FrameDeny :: bool
  hd_ContentTypeNosniff :: bool
  hd_AccessControlAllowOriginList :: "string list"
  hd_AccessControlAllowMethods :: "string list"
  hd_AccessControlAllowHeaders :: "string list"
  hd_AccessControlAllowCredentials :: bool

record RateLimitSpec =
  rl_Average :: int
  rl_Burst :: int
  rl_Period :: string

record StripPrefixSpec =
  spx_Prefixes :: "string list"

record ReplacePathRegexSpec =
  rpx_Regex :: string
  rpx_Replacement :: string

record RewriteSpec =
  rw_StripPrefix :: "StripPrefixSpec option"
  rw_AddPrefix :: string
  rw_ReplacePathRegex :: "ReplacePathRegexSpec option"

record MiddlewaresSpec =
  mw_RedirectScheme :: "RedirectSchemeSpec option"
  mw_IPWhiteList :: "IPWhiteListSpec option"
  mw_BasicAuth :: "BasicAuthSpec option"
  mw_ForwardAuth :: "ForwardAuthSpec option"
  mw_Headers :: "HeadersSpec option"
  mw_RateLimit :: "RateLimitSpec option"
  mw_Compress :: "CompressSpec option"
  mw_Rewrite :: "RewriteSpec option"

record DomainSpec =
  dom_Name :: string
  dom_TLS :: bool
  dom_RedirectTLS :: bool
  dom_CertIssuer :: string
  dom_Path :: string
  dom_Annotations :: gomap
  dom_PortName :: string
  dom_SecretName :: string
  dom_Middlewares :: "MiddlewaresSpec option"

section \<open>The resource\<close>

record AppDefinitionSpec =
  spec_Containers :: "ContainerSpec list"
  spec_InitContainers :: "InitContainerSpec list"
  spec_Replicas :: "int option"
  spec_Domains :: "DomainSpec list"
  spec_Disk :: "DiskConfig option"
  spec_LoggingConfig :: "LoggingConfig option"
  spec_Lifecycle :: "LifecycleSpec option"
  spec_SecurityContext :: "PodSecurityContext option"
  spec_ServiceAccountName :: string
  spec_ServiceType :: string
  spec_IngressClass :: string
  spec_IngressAnnotations :: gomap
  spec_NodeSelector :: gomap
  spec_Tolerations :: "gojson list"
  spec_Affinity :: "gojson option"
  spec_Paused :: bool
  spec_Autoscaling :: "AutoscalingSpec option"
  spec_ImagePullSecrets :: "string list"
  spec_ConfigMaps :: "ConfigMapMount list"
  spec_Secrets :: "SecretMount list"
  spec_ExternalSecrets :: "ExternalSecretMount list"
  spec_SecretStore :: "SecretStoreSpec option"

record AppDefinitionStatus =
  st_Phase :: string
  st_ReadyReplicas :: int
  st_Replicas :: int
  st_ObservedGeneration :: int
  st_Conditions :: "Condition list"
  st_LastError :: string

definition empty_status :: AppDefinitionStatus where
  "empty_status = \<lparr>st_Phase = '''', st_ReadyReplicas = 0, st_Replicas = 0,
     st_ObservedGeneration = 0, st_Conditions = [], st_LastError = ''''\<rparr>"

record AppDefinition =
  ad_meta :: ObjectMeta
  ad_spec :: AppDefinitionSpec
  ad_status :: AppDefinitionStatus

abbreviation ad_name :: "AppDefinition \<Rightarrow> string" where
  "ad_name a \<equiv> m_name (ad_meta a)"

abbreviation ad_namespace :: "AppDefinition \<Rightarrow> string" where
  "ad_namespace a \<equiv> m_namespace (ad_meta a)"

definition ConditionTypeReady :: string where "ConditionTypeReady = ''Ready''"
definition ConditionTypeProgressing :: string where "ConditionTypeProgressing = ''Progressing''"
definition ConditionTypeDiskReady :: string where "ConditionTypeDiskReady = ''DiskReady''"
definition ConditionTypeIngressReady :: string where "ConditionTypeIngressReady = ''IngressReady''"
definition ConditionTypeHPAActive :: string where "ConditionTypeHPAActive = ''HPAActive''"
definition ConditionTypeExternalSecretsReady :: string where
  "ConditionTypeExternalSecretsReady = ''ExternalSecretsReady''"
definition ConditionTypeMonitoringReady :: string where
  "ConditionTypeMonitoringReady = ''MonitoringReady''"
definition ConditionTypeMiddlewaresReady :: string where
  "ConditionTypeMiddlewaresReady = ''MiddlewaresReady''"

lemmas condition_types = ConditionTypeReady_def ConditionTypeProgressing_def
  ConditionTypeDiskReady_def ConditionTypeIngressReady_def ConditionTypeHPAActive_def
  ConditionTypeExternalSecretsReady_def ConditionTypeMonitoringReady_def
  ConditionTypeMiddlewaresReady_def

section \<open>A minimal spec\<close>

text \<open>The zero value of the spec struct, from which concrete inputs are built.\<close>

definition zero_spec :: AppDefinitionSpec where
  "zero_spec =
     \<lparr>spec_Containers = [], spec_InitContainers = [], spec_Replicas = None, spec_Domains = [],
      spec_Disk = None, spec_LoggingConfig = None, spec_Lifecycle = None,
      spec_SecurityContext = None, spec_ServiceAccountName = '''', spec_ServiceType = '''',
      spec_IngressClass = '''', spec_IngressAnnotations = [], spec_NodeSelector = [],
      spec_Tolerations = [], spec_Affinity = None, spec_Paused = False, spec_Autoscaling = None,
      spec_ImagePullSecrets = [], spec_ConfigMaps = [], spec_Secrets = [],
      spec_ExternalSecrets = [], spec_SecretStore = None\<rparr>"

definition zero_app :: "string \<Rightarrow> string \<Rightarrow> AppDefinition" where
  "zero_app name ns = \<lparr>ad_meta = object_meta name ns, ad_spec = zero_spec, ad_status = empty_status\<rparr>"

lemma zero_spec_simps [simp]:
  "spec_Containers zero_spec = []" "spec_InitContainers zero_spec = []"
  "spec_Replicas zero_spec = None" "spec_Domains zero_spec = []" "spec_Disk zero_spec = None"
  "spec_Lifecycle zero_spec = None" "spec_SecurityContext zero_spec = None"
  "spec_ServiceType zero_spec = ''''" "spec_IngressClass zero_spec = ''''"
  "spec_IngressAnnotations zero_spec = []" "spec_Paused zero_spec = False"
  "spec_Autoscaling zero_spec = None" "spec_ConfigMaps zero_spec = []"
  "spec_Secrets zero_spec = []" "spec_ExternalSecrets zero_spec = []"
  "spec_SecretStore zero_spec = None"
  by (simp_all add: zero_spec_def)

lemma zero_app_simps [simp]:
  "ad_meta (zero_app n ns) = object_meta n ns" "ad_spec (zero_app n ns) = zero_spec"
  "ad_status (zero_app n ns) = empty_status"
  by (simp_all add: zero_app_def)

end
