(* ===== verification/Client.thy ===== *)
theory Client
  imports Programs AppDefTypes
begin

text \<open>
  What the reconciler is given. The API server, controller-runtime's client and the helper
  functions of the Kubernetes libraries are not part of the repository: they are the record
  \<open>k8s\<close>, a parameter of every definition that uses them, over a world \<open>'w\<close> about which
  nothing is known. The state of a program is that world, the operator's own metrics
  (\<open>internal/controller/metrics.go\<close>), and the list of the writes it has requested, in order,
  which is a history for the proofs and influences nothing.
\<close>

section \<open>State\<close>

datatype api_write =
    WCreate kind ObjectMeta
  | WUpdate kind ObjectMeta
  | WDelete kind ObjectMeta
  | WPatch kind ObjectMeta
  | WCreateOrUpdate kind ObjectMeta
  | WStatus AppDefinition
  | WEvent string string

record metrics =
  mx_stepDuration :: "string \<Rightarrow> nat"
  mx_stepErrors :: "string \<Rightarrow> nat"
  mx_prunes :: "string \<Rightarrow> nat"
  mx_appReady :: "(string \<times> string) \<Rightarrow> int option"
  mx_appObservedGeneration :: "(string \<times> string) \<Rightarrow> int option"

record 'w st =
  world :: 'w
  writes :: "api_write list"
  mx :: metrics

type_synonym ('w, 'a) prog = "('w st, 'a) state"

section \<open>The interface\<close>

datatype operation_result = OpNone | OpCreated | OpUpdated

text \<open>
  The operations on one kind of object: reads by namespace and name through the informer cache
  and directly from the API server (\<open>_live\<close>), lists by namespace and labels, the writes, and
  \<open>controllerutil.CreateOrUpdate\<close> with its mutate function.
\<close>

record ('w, 'o) rclient =
  rget :: "string \<Rightarrow> string \<Rightarrow> ('w, 'o result) state"
  rget_live :: "string \<Rightarrow> string \<Rightarrow> ('w, 'o result) state"
  rlist :: "string \<Rightarrow> gomap \<Rightarrow> ('w, 'o list result) state"
  rlist_live :: "string \<Rightarrow> gomap \<Rightarrow> ('w, 'o list result) state"
  rcreate :: "'o \<Rightarrow> ('w, 'o result) state"
  rupdate :: "'o \<Rightarrow> ('w, 'o result) state"
  rdelete :: "'o \<Rightarrow> ('w, unit result) state"
  rpatch :: "'o \<Rightarrow> 'o \<Rightarrow> ('w, unit result) state"
  rcreate_or_update :: "'o \<Rightarrow> ('o \<Rightarrow> 'o result) \<Rightarrow> ('w, operation_result result) state"

record 'w k8s =
  k_configMaps :: "('w, ConfigMap) rclient"
  k_secrets :: "('w, Secret) rclient"
  k_deployments :: "('w, Deployment) rclient"
  k_services :: "('w, Service) rclient"
  k_pvcs :: "('w, PersistentVolumeClaim) rclient"
  k_hpas :: "('w, HorizontalPodAutoscaler) rclient"
  k_ingresses :: "('w, Ingress) rclient"
  k_serviceAccounts :: "('w, ServiceAccount) rclient"
  k_appDefinitions :: "('w, AppDefinition) rclient"
  k_unstructured :: "GVK \<Rightarrow> ('w, Unstructured) rclient"
  k_statusUpdate :: "AppDefinition \<Rightarrow> ('w, unit result) state"
  k_restMapping :: "string \<Rightarrow> string \<Rightarrow> string \<Rightarrow> ('w, GVK result) state"
  k_retryOnConflict :: "('w, unit result) prog \<Rightarrow> ('w, unit result) prog"
  k_now :: "('w, int) state"
  k_setControllerReference :: "ObjectMeta \<Rightarrow> ObjectMeta \<Rightarrow> OwnerReference list result"
  k_isControlledBy :: "ObjectMeta \<Rightarrow> ObjectMeta \<Rightarrow> bool"
  k_getControllerOf :: "ObjectMeta \<Rightarrow> OwnerReference option"
  k_setStatusCondition :: "Condition \<Rightarrow> Condition list \<Rightarrow> Condition list"
  k_removeStatusCondition :: "string \<Rightarrow> Condition list \<Rightarrow> Condition list"
  k_parseQuantity :: "string \<Rightarrow> quantity option"
  k_quantityCmp :: "quantity \<Rightarrow> quantity \<Rightarrow> int"
  k_quantityString :: "quantity \<Rightarrow> string"
  k_zeroQuantity :: quantity
  k_sha256 :: "string \<Rightarrow> string"
  k_formatRFC3339 :: "int \<Rightarrow> string"
  k_parseRFC3339 :: "string \<Rightarrow> int option"

section \<open>Calls\<close>

definition lift :: "('w, 'a) state \<Rightarrow> ('w, 'a) prog" where
  "lift m = State (\<lambda>s. case run_state m (world s) of (a, w) \<Rightarrow> (a, s\<lparr>world := w\<rparr>))"

definition emit :: "api_write \<Rightarrow> ('w, unit) prog" where
  "emit e = State (\<lambda>s. ((), s\<lparr>writes := writes s @ [e]\<rparr>))"

definition modify_mx :: "(metrics \<Rightarrow> metrics) \<Rightarrow> ('w, unit) prog" where
  "modify_mx f = State (\<lambda>s. ((), s\<lparr>mx := f (mx s)\<rparr>))"

definition do_create :: "('w, 'o) rclient \<Rightarrow> kind \<Rightarrow> ('o \<Rightarrow> ObjectMeta) \<Rightarrow> 'o \<Rightarrow> ('w, 'o result) prog" where
  "do_create rc k meta o' = do { emit (WCreate k (meta o')); lift (rcreate rc o') }"

definition do_update :: "('w, 'o) rclient \<Rightarrow> kind \<Rightarrow> ('o \<Rightarrow> ObjectMeta) \<Rightarrow> 'o \<Rightarrow> ('w, 'o result) prog" where
  "do_update rc k meta o' = do { emit (WUpdate k (meta o')); lift (rupdate rc o') }"

definition do_delete :: "('w, 'o) rclient \<Rightarrow> kind \<Rightarrow> ('o \<Rightarrow> ObjectMeta) \<Rightarrow> 'o \<Rightarrow> ('w, unit result) prog" where
  "do_delete rc k meta o' = do { emit (WDelete k (meta o')); lift (rdelete rc o') }"

definition do_patch :: "('w, 'o) rclient \<Rightarrow> kind \<Rightarrow> ('o \<Rightarrow> ObjectMeta) \<Rightarrow> 'o \<Rightarrow> 'o \<Rightarrow> ('w, unit result) prog" where
  "do_patch rc k meta old new = do { emit (WPatch k (meta new)); lift (rpatch rc old new) }"

definition create_or_update ::
  "('w, 'o) rclient \<Rightarrow> kind \<Rightarrow> ('o \<Rightarrow> ObjectMeta) \<Rightarrow> 'o \<Rightarrow> ('o \<Rightarrow> 'o result) \<Rightarrow> ('w, operation_result result) prog" where
  "create_or_update rc k meta o' f =
     do { emit (WCreateOrUpdate k (meta o')); lift (rcreate_or_update rc o' f) }"

definition status_update :: "'w k8s \<Rightarrow> AppDefinition \<Rightarrow> ('w, unit result) prog" where
  "status_update K a = do { emit (WStatus a); lift (k_statusUpdate K a) }"

text \<open>
  \<open>ctrl.SetControllerReference(owner, obj, scheme)\<close> rewrites the owner references of the object,
  or refuses and leaves it alone.
\<close>

definition set_controller_reference :: "'w k8s \<Rightarrow> AppDefinition \<Rightarrow> ObjectMeta \<Rightarrow> ObjectMeta result" where
  "set_controller_reference K owner m =
     (case k_setControllerReference K (ad_meta owner) m of
        Inl e \<Rightarrow> Inl e
      | Inr refs \<Rightarrow> Inr (m\<lparr>m_ownerRefs := refs\<rparr>))"

lemma set_controller_reference_frame:
  "set_controller_reference K owner m = Inr m' \<Longrightarrow>
   m_name m' = m_name m \<and> m_namespace m' = m_namespace m \<and> m_labels m' = m_labels m
   \<and> m_annotations m' = m_annotations m \<and> m_resourceVersion m' = m_resourceVersion m"
  by (auto simp: set_controller_reference_def split: sum.splits)

text \<open>\<open>client.IgnoreNotFound(err)\<close>\<close>

definition ignore_not_found :: "unit result \<Rightarrow> unit result" where
  "ignore_not_found r = (case r of Inl e \<Rightarrow> if is_not_found e then Inr () else Inl e | Inr _ \<Rightarrow> Inr ())"

text \<open>\<open>r.Recorder.Event(appDef, corev1.EventTypeWarning, reason, msg)\<close>\<close>

definition record_event :: "string \<Rightarrow> string \<Rightarrow> ('w, unit) prog" where
  "record_event reason msg = emit (WEvent reason msg)"

section \<open>Metrics\<close>

text \<open>A panicking step counts nothing: it never comes back to the code that would count it.\<close>

definition observeReconcileStep :: "string \<Rightarrow> ('w, 'a result) prog \<Rightarrow> ('w, 'a result) prog" where
  "observeReconcileStep step reconcile =
     do { r \<leftarrow> reconcile;
          (case r of
             Inl e \<Rightarrow>
               if is_panic e then State_Monad.return ()
               else modify_mx (\<lambda>m. m\<lparr>mx_stepDuration := (mx_stepDuration m)(step := Suc (mx_stepDuration m step)),
                                    mx_stepErrors := (mx_stepErrors m)(step := Suc (mx_stepErrors m step))\<rparr>)
           | Inr _ \<Rightarrow>
               modify_mx (\<lambda>m. m\<lparr>mx_stepDuration := (mx_stepDuration m)(step := Suc (mx_stepDuration m step))\<rparr>));
          State_Monad.return r }"

definition recordManagedResourcePrune :: "string \<Rightarrow> ('w, unit) prog" where
  "recordManagedResourcePrune k =
     modify_mx (\<lambda>m. m\<lparr>mx_prunes := (mx_prunes m)(k := Suc (mx_prunes m k))\<rparr>)"

definition recordAppStatus :: "string \<Rightarrow> string \<Rightarrow> bool \<Rightarrow> int \<Rightarrow> ('w, unit) prog" where
  "recordAppStatus ns name ready observedGeneration =
     do { modify_mx (\<lambda>m. m\<lparr>mx_appReady := (mx_appReady m)((ns, name) \<mapsto> (if ready then 1 else 0))\<rparr>);
          modify_mx (\<lambda>m. m\<lparr>mx_appObservedGeneration :=
            (mx_appObservedGeneration m)((ns, name) \<mapsto> observedGeneration)\<rparr>) }"

definition forgetAppMetrics :: "string \<Rightarrow> string \<Rightarrow> ('w, unit) prog" where
  "forgetAppMetrics ns name =
     do { modify_mx (\<lambda>m. m\<lparr>mx_appReady := (mx_appReady m)((ns, name) := None)\<rparr>);
          modify_mx (\<lambda>m. m\<lparr>mx_appObservedGeneration :=
            (mx_appObservedGeneration m)((ns, name) := None)\<rparr>) }"

section \<open>Running the primitives\<close>

lemma run_lift [simp]:
  "run_state (lift m) s = (fst (run_state m (world s)), s\<lparr>world := snd (run_state m (world s))\<rparr>)"
  by (simp add: lift_def split: prod.splits)

lemma run_emit [simp]: "run_state (emit e) s = ((), s\<lparr>writes := writes s @ [e]\<rparr>)"
  by (simp add: emit_def)

lemma run_modify_mx [simp]: "run_state (modify_mx f) s = ((), s\<lparr>mx := f (mx s)\<rparr>)"
  by (simp add: modify_mx_def)

lemmas call_defs = do_create_def do_update_def do_delete_def do_patch_def create_or_update_def
  status_update_def record_event_def

lemmas metric_defs = observeReconcileStep_def recordManagedResourcePrune_def recordAppStatus_def
  forgetAppMetrics_def

lemma fst_observeReconcileStep [simp]:
  "fst (run_state (observeReconcileStep step m) s) = fst (run_state m s)"
  by (auto simp: observeReconcileStep_def split: prod.splits sum.splits)

section \<open>Which writes a program requests\<close>

text \<open>The writes requested between two states.\<close>

definition new_writes :: "'w st \<Rightarrow> 'w st \<Rightarrow> api_write list" where
  "new_writes s s' = drop (length (writes s)) (writes s')"

definition writes_only :: "(api_write \<Rightarrow> bool) \<Rightarrow> 'w st \<Rightarrow> 'w st \<Rightarrow> bool" where
  "writes_only P s s' \<longleftrightarrow> (\<exists>tr. writes s' = writes s @ tr \<and> list_all P tr)"

interpretation wo: effect_relation "writes_only P" for P
proof
  show "writes_only P s s" for s :: "'b st" by (simp add: writes_only_def)
  show "writes_only P s u" if "writes_only P s t" "writes_only P t u" for s t u :: "'b st"
    using that by (auto simp: writes_only_def)
qed

abbreviation only_writes :: "(api_write \<Rightarrow> bool) \<Rightarrow> ('w, 'a) prog \<Rightarrow> bool" where
  "only_writes P m \<equiv> state_io_rel (writes_only P) m"

lemma only_writes_lift [hoare]: "only_writes P (lift m)"
  by (auto simp: state_io_rel_def writes_only_def)

lemma only_writes_emit [hoare]: "P e \<Longrightarrow> only_writes P (emit e)"
  by (auto simp: state_io_rel_def writes_only_def)

lemma only_writes_modify_mx [hoare]: "only_writes P (modify_mx f)"
  by (auto simp: state_io_rel_def writes_only_def)

declare wo.eff_return [hoare] wo.eff_bind [hoare] wo.eff_tryM [hoare] wo.eff_each [hoare]
  wo.eff_each_flow [hoare]

lemma only_writes_calls [hoare]:
  "P (WCreate k (meta o')) \<Longrightarrow> only_writes P (do_create rc k meta o')"
  "P (WUpdate k (meta o')) \<Longrightarrow> only_writes P (do_update rc k meta o')"
  "P (WDelete k (meta o')) \<Longrightarrow> only_writes P (do_delete rc k meta o')"
  "P (WPatch k (meta o'')) \<Longrightarrow> only_writes P (do_patch rc k meta o' o'')"
  "P (WCreateOrUpdate k (meta o')) \<Longrightarrow> only_writes P (create_or_update rc k meta o' f)"
  "P (WStatus a) \<Longrightarrow> only_writes P (status_update K a)"
  "P (WEvent r m) \<Longrightarrow> only_writes P (record_event r m)"
  unfolding call_defs by (auto intro!: hoare)

lemma only_writes_metrics [hoare]:
  "only_writes P (recordManagedResourcePrune k)"
  "only_writes P (recordAppStatus ns n b g)"
  "only_writes P (forgetAppMetrics ns n)"
  unfolding metric_defs by (auto intro!: hoare)

lemma only_writes_observe [hoare]:
  "only_writes P m \<Longrightarrow> only_writes P (observeReconcileStep step m)"
  unfolding observeReconcileStep_def by (auto intro!: hoare split: sum.split)

lemma writes_only_mono: "writes_only P s s' \<Longrightarrow> (\<And>e. P e \<Longrightarrow> Q e) \<Longrightarrow> writes_only Q s s'"
  by (auto simp: writes_only_def list_all_iff)

lemma only_writes_mono: "only_writes P m \<Longrightarrow> (\<And>e. P e \<Longrightarrow> Q e) \<Longrightarrow> only_writes Q m"
  by (auto simp: state_io_rel_def intro: writes_only_mono)

lemma only_writesD: "only_writes P m \<Longrightarrow> run_state m s = (a, s') \<Longrightarrow> writes_only P s s'"
  by (metis snd_conv state_io_rel_def)

text \<open>
  \<open>retry.RetryOnConflict\<close>, documented: it runs the function again while it returns a conflict,
  a bounded number of times, and returns the function's last result.
\<close>

definition retry_law :: "'w k8s \<Rightarrow> bool" where
  "retry_law K \<longleftrightarrow> (\<forall>m s. \<exists>n. run_state (k_retryOnConflict K m) s = run_state (attempts is_conflict n m) s)"

lemma only_writes_retry:
  assumes "retry_law K" and "only_writes P m"
  shows "only_writes P (k_retryOnConflict K m)"
  unfolding state_io_rel_def
proof
  fix s
  obtain n where "run_state (k_retryOnConflict K m) s = run_state (attempts is_conflict n m) s"
    using assms(1) by (auto simp: retry_law_def)
  then show "writes_only P s (snd (run_state (k_retryOnConflict K m) s))"
    using wo.eff_attempts [OF assms(2), of is_conflict n] by (simp add: state_io_rel_def)
qed

text \<open>
  A read by key, documented: the object returned has the namespace and the name asked for.
\<close>

definition keyed :: "('w, 'o) rclient \<Rightarrow> ('o \<Rightarrow> ObjectMeta) \<Rightarrow> bool" where
  "keyed rc meta \<longleftrightarrow>
     (\<forall>ns n w obj w'.
        run_state (rget rc ns n) w = (Inr obj, w') \<or> run_state (rget_live rc ns n) w = (Inr obj, w') \<longrightarrow>
        m_namespace (meta obj) = ns \<and> m_name (meta obj) = n)"

lemma run_lift_result: "run_state (lift m) s = (a, s') \<Longrightarrow> \<exists>w'. run_state m (world s) = (a, w')"
  by (auto simp: prod_eq_iff)

lemma only_writes_get:
  assumes "keyed rc meta" and "\<And>e. only_writes P (k (Inl e))"
    and "\<And>obj. m_namespace (meta obj) = ns \<Longrightarrow> m_name (meta obj) = n \<Longrightarrow> only_writes P (k (Inr obj))"
  shows "only_writes P (lift (rget rc ns n) \<bind> k)"
proof (rule wo.eff_bind_result [OF only_writes_lift])
  fix r s s' assume m: "run_state (lift (rget rc ns n)) s = (r, s')"
  obtain w' where w': "run_state (rget rc ns n) (world s) = (r, w')" using run_lift_result [OF m] by blast
  show "only_writes P (k r)"
  proof (cases r)
    case (Inr obj)
    then have "m_namespace (meta obj) = ns \<and> m_name (meta obj) = n"
      using assms(1) w' by (simp add: keyed_def)
    then show ?thesis using assms(3) Inr by simp
  qed (simp add: assms(2))
qed

lemma only_writes_get_live:
  assumes "keyed rc meta" and "\<And>e. only_writes P (k (Inl e))"
    and "\<And>obj. m_namespace (meta obj) = ns \<Longrightarrow> m_name (meta obj) = n \<Longrightarrow> only_writes P (k (Inr obj))"
  shows "only_writes P (lift (rget_live rc ns n) \<bind> k)"
proof (rule wo.eff_bind_result [OF only_writes_lift])
  fix r s s' assume m: "run_state (lift (rget_live rc ns n)) s = (r, s')"
  obtain w' where w': "run_state (rget_live rc ns n) (world s) = (r, w')" using run_lift_result [OF m] by blast
  show "only_writes P (k r)"
  proof (cases r)
    case (Inr obj)
    then have "m_namespace (meta obj) = ns \<and> m_name (meta obj) = n"
      using assms(1) w' by (simp add: keyed_def)
    then show ?thesis using assms(3) Inr by simp
  qed (simp add: assms(2))
qed

section \<open>Pruning\<close>

text \<open>
  The loop at the end of every reconciler of a list of children: of the listed objects, those
  this AppDefinition controls and no longer wants are deleted and counted. An object deleted
  meanwhile by someone else is no error.
\<close>

definition prune_object ::
  "'w k8s \<Rightarrow> AppDefinition \<Rightarrow> ('w, 'o) rclient \<Rightarrow> kind \<Rightarrow> string \<Rightarrow> ('o \<Rightarrow> ObjectMeta) \<Rightarrow> string list \<Rightarrow> 'o
     \<Rightarrow> ('w, unit result) prog" where
  "prune_object K appDef rc k label meta desired obj =
     (if \<not> k_isControlledBy K (meta obj) (ad_meta appDef) then ret ()
      else if m_name (meta obj) \<in> set desired then ret ()
      else do {
        r \<leftarrow> do_delete rc k meta obj;
        case ignore_not_found r of
          Inl e \<Rightarrow> fail (Wrap (''deleting stale '' @ label @ '' '' @ m_name (meta obj)) e)
        | Inr _ \<Rightarrow> do { recordManagedResourcePrune label; ret () } })"

definition prune_objects ::
  "'w k8s \<Rightarrow> AppDefinition \<Rightarrow> ('w, 'o) rclient \<Rightarrow> kind \<Rightarrow> string \<Rightarrow> ('o \<Rightarrow> ObjectMeta) \<Rightarrow> string list \<Rightarrow> 'o list
     \<Rightarrow> ('w, unit result) prog" where
  "prune_objects K appDef rc k label meta desired = each (prune_object K appDef rc k label meta desired)"

text \<open>A deletion that pruning may request: of an object it controls and does not want.\<close>

definition stale :: "'w k8s \<Rightarrow> AppDefinition \<Rightarrow> string list \<Rightarrow> ObjectMeta \<Rightarrow> bool" where
  "stale K appDef desired m \<longleftrightarrow> k_isControlledBy K m (ad_meta appDef) \<and> m_name m \<notin> set desired"

lemma only_writes_prune_object:
  "(stale K appDef desired (meta obj) \<Longrightarrow> P (WDelete k (meta obj))) \<Longrightarrow>
   only_writes P (prune_object K appDef rc k label meta desired obj)"
  unfolding prune_object_def
  by (auto intro!: hoare split: sum.split simp: stale_def)

lemma only_writes_prune [hoare]:
  "(\<And>m. stale K appDef desired m \<Longrightarrow> P (WDelete k m)) \<Longrightarrow>
   only_writes P (prune_objects K appDef rc k label meta desired os)"
  unfolding prune_objects_def by (intro hoare only_writes_prune_object) auto

end
