(* ===== verification/Names.thy ===== *)
theory Names
  imports Client
begin

text \<open>
  \<open>internal/controller/helpers.go\<close>: labels, the names of the child resources, and the choice of
  the API version of an optional CRD.
\<close>

section \<open>API versions of optional CRDs\<close>

text \<open>
  The first version the RESTMapper knows, else the error of the last one tried; with no version
  at all the zero kind and no error. \<open>lastErr\<close> is the Go variable of that name.
\<close>

definition zero_gvk :: GVK where
  "zero_gvk = \<lparr>g_group = '''', g_version = '''', g_kind = ''''\<rparr>"

fun resolvePreferredGVK_from ::
  "'w k8s \<Rightarrow> string \<Rightarrow> string \<Rightarrow> error option \<Rightarrow> string list \<Rightarrow> ('w, GVK result) prog" where
  "resolvePreferredGVK_from K grp kind' lastErr [] =
     (case lastErr of None \<Rightarrow> ret zero_gvk | Some e \<Rightarrow> fail e)"
| "resolvePreferredGVK_from K grp kind' lastErr (version # versions) =
     do { r \<leftarrow> lift (k_restMapping K grp kind' version);
          case r of
            Inr gvk \<Rightarrow> ret gvk
          | Inl e \<Rightarrow> resolvePreferredGVK_from K grp kind' (Some e) versions }"

definition resolvePreferredGVK :: "'w k8s \<Rightarrow> string \<Rightarrow> string \<Rightarrow> string list \<Rightarrow> ('w, GVK result) prog" where
  "resolvePreferredGVK K grp kind' versions = resolvePreferredGVK_from K grp kind' None versions"

lemma only_writes_resolve [hoare]: "only_writes P (resolvePreferredGVK K grp kind' versions)"
proof -
  have "only_writes P (resolvePreferredGVK_from K grp kind' lastErr versions)" for lastErr
    by (induction versions arbitrary: lastErr) (auto intro!: hoare split: option.split sum.split)
  then show ?thesis by (simp add: resolvePreferredGVK_def)
qed

section \<open>Labels\<close>

definition implicitStoreKind :: string where
  "implicitStoreKind = ''ClusterSecretStore''"

definition standardLabels :: "string \<Rightarrow> gomap" where
  "standardLabels name =
     [(''app.kubernetes.io/name'', name),
      (''app.kubernetes.io/instance'', name),
      (''app.kubernetes.io/managed-by'', ''app-operator'')]"

definition selectorLabels :: "string \<Rightarrow> gomap" where
  "selectorLabels name = [(''app.kubernetes.io/name'', name)]"

lemma wf_standardLabels [simp]: "wf_map (standardLabels name)"
  by (simp add: standardLabels_def)

lemma standard_labels_match_self [simp]: "labels_match (standardLabels name) (standardLabels name)"
  by (simp add: labels_match_def standardLabels_def)

lemma standardLabels_match_iff:
  "labels_match (standardLabels name) (standardLabels name') \<longleftrightarrow> name = name'"
  by (auto simp: labels_match_def standardLabels_def)

text \<open>The selector of the workload picks out every object that carries the standard labels.\<close>

lemma selector_subset: "set (selectorLabels name) \<subseteq> set (standardLabels name)"
  by (simp add: selectorLabels_def standardLabels_def)

section \<open>DNS-safe names\<close>

text \<open>
  \<open>sanitizeDNS\<close> lower-cases the string and writes one character per rune: the rune itself if it is
  a lower-case ASCII letter, a digit or a dash, and a dash otherwise. Of the runes beyond ASCII
  only U+0130 and U+212A (the Kelvin sign) have a lower case in ASCII.
\<close>

definition dns_char :: "char \<Rightarrow> bool" where
  "dns_char c \<longleftrightarrow> (97 \<le> byte c \<and> byte c \<le> 122) \<or> (48 \<le> byte c \<and> byte c \<le> 57) \<or> c = CHR ''-''"

definition lower_rune :: "nat \<Rightarrow> nat" where
  "lower_rune r =
     (if 65 \<le> r \<and> r \<le> 90 then r + 32 else if r = 304 then 105 else if r = 8490 then 107 else r)"

definition dns_rune :: "nat \<Rightarrow> char" where
  "dns_rune r =
     (let l = lower_rune r
      in if (97 \<le> l \<and> l \<le> 122) \<or> (48 \<le> l \<and> l \<le> 57) \<or> l = 45 then char_of l else CHR ''-'')"

definition sanitizeDNS :: "string \<Rightarrow> string" where
  "sanitizeDNS s = trim (\<lambda>c. c = CHR ''-'') (map dns_rune (runes s))"

lemma char_of_dash [simp]: "char_of (45 :: nat) = CHR ''-''"
proof -
  have "of_char (CHR ''-'') = (45 :: nat)" by simp
  then show ?thesis by (metis char_of_char)
qed

lemma dns_char_dns_rune: "dns_char (dns_rune r)"
  by (auto simp: dns_rune_def dns_char_def Let_def of_char_of)

lemma dns_char_ascii: "dns_char c \<Longrightarrow> byte c < 128"
  by (auto simp: dns_char_def)

lemma dns_rune_id: "dns_char c \<Longrightarrow> dns_rune (byte c) = c"
  by (auto simp: dns_char_def dns_rune_def lower_rune_def Let_def)

lemma sanitizeDNS_chars: "c \<in> set (sanitizeDNS s) \<Longrightarrow> dns_char c"
  using set_trim[of "\<lambda>c. c = CHR ''-''" "map dns_rune (runes s)"] dns_char_dns_rune
  by (auto simp: sanitizeDNS_def)

lemma sanitizeDNS_ends:
  "sanitizeDNS s \<noteq> [] \<Longrightarrow> hd (sanitizeDNS s) \<noteq> CHR ''-'' \<and> last (sanitizeDNS s) \<noteq> CHR ''-''"
  using trim_hd[of "\<lambda>c. c = CHR ''-''" "map dns_rune (runes s)"]
    trim_last[of "\<lambda>c. c = CHR ''-''" "map dns_rune (runes s)"]
  by (simp add: sanitizeDNS_def)

lemma sanitizeDNS_fixed:
  assumes "\<And>c. c \<in> set s \<Longrightarrow> dns_char c"
    and "s = [] \<or> (hd s \<noteq> CHR ''-'' \<and> last s \<noteq> CHR ''-'')"
  shows "sanitizeDNS s = s"
proof -
  have "runes s = map byte s" using assms(1) dns_char_ascii by (intro runes_ascii) auto
  then have "map dns_rune (runes s) = s" using assms(1) dns_rune_id by (simp add: map_idI)
  then show ?thesis using assms(2) by (auto simp: sanitizeDNS_def intro!: trim_id)
qed

lemma sanitizeDNS_length: "length (sanitizeDNS s) \<le> length s"
  using length_trim[of _ "map dns_rune (runes s)"] length_runes[of s]
  by (fastforce simp: sanitizeDNS_def intro: order_trans)

lemma sanitizeDNS_idem [simp]: "sanitizeDNS (sanitizeDNS s) = sanitizeDNS s"
  by (rule sanitizeDNS_fixed) (use sanitizeDNS_chars sanitizeDNS_ends in auto)

lemma sanitizeDNS_root [simp]: "sanitizeDNS ''/'' = []" "sanitizeDNS [] = []"
  by (simp_all add: sanitizeDNS_def dns_rune_def lower_rune_def trim_def)

section \<open>Names of the children\<close>

definition pvcName :: "string \<Rightarrow> string" where
  "pvcName appName = appName @ ''-disk''"

definition isStateful :: "AppDefinition \<Rightarrow> bool" where
  "isStateful appDef \<longleftrightarrow> spec_Disk (ad_spec appDef) \<noteq> None"

definition serviceMonitorName :: "string \<Rightarrow> string" where
  "serviceMonitorName appName = appName @ ''-monitor''"

definition resolvedSecretName :: "string \<Rightarrow> SecretMount \<Rightarrow> string" where
  "resolvedSecretName appName sec =
     (if sec_SecretRef sec \<noteq> '''' then sec_SecretRef sec else appName @ ''-'' @ sec_Name sec)"

definition tlsSecretName :: "string \<Rightarrow> string \<Rightarrow> string" where
  "tlsSecretName appName domain = appName @ ''-'' @ sanitizeDNS domain @ ''-tls''"

definition domainIngressName :: "string \<Rightarrow> string \<Rightarrow> string \<Rightarrow> string" where
  "domainIngressName appName domain path =
     (let name = appName @ ''-'' @ sanitizeDNS domain; p = sanitizeDNS path
      in if p \<noteq> '''' then name @ ''-'' @ p else name)"

definition middlewareName :: "string \<Rightarrow> string \<Rightarrow> string \<Rightarrow> string \<Rightarrow> string" where
  "middlewareName appName domain path kind' =
     (let name = appName @ ''-'' @ sanitizeDNS domain; p = sanitizeDNS path
      in (if p \<noteq> '''' then name @ ''-'' @ p else name) @ ''-'' @ kind')"

lemma middlewareName_ingress:
  "middlewareName appName domain path kind' = domainIngressName appName domain path @ ''-'' @ kind'"
  by (simp add: middlewareName_def domainIngressName_def Let_def)

lemma domainIngressName_path_iff:
  "domainIngressName app d p = domainIngressName app d p' \<longleftrightarrow> sanitizeDNS p = sanitizeDNS p'"
  by (auto simp: domainIngressName_def Let_def)

lemma first_sep:
  "a @ c # x = b @ c # y \<Longrightarrow> c \<notin> set a \<Longrightarrow> c \<notin> set b \<Longrightarrow> a = b \<and> x = y"
proof (induction a arbitrary: b)
  case Nil
  then show ?case by (cases b) auto
next
  case (Cons z a)
  then show ?case by (cases b) auto
qed

lemma append_dash_inj:
  assumes "xs @ CHR ''-'' # k = ys @ CHR ''-'' # k'"
    and "CHR ''-'' \<notin> set k" and "CHR ''-'' \<notin> set k'"
  shows "xs = ys \<and> k = k'"
proof -
  have "rev k @ CHR ''-'' # rev xs = rev k' @ CHR ''-'' # rev ys"
    using arg_cong[OF assms(1), of rev] by simp
  then show ?thesis using first_sep [of "rev k" "CHR ''-''" _ "rev k'"] assms(2,3) by auto
qed

text \<open>
  The name of a Middleware determines the Ingress it belongs to and its kind: kinds hold no dash.
\<close>

lemma middlewareName_inj:
  assumes "middlewareName app d p k = middlewareName app' d' p' k'"
    and "CHR ''-'' \<notin> set k" and "CHR ''-'' \<notin> set k'"
  shows "domainIngressName app d p = domainIngressName app' d' p' \<and> k = k'"
  using append_dash_inj[of "domainIngressName app d p" k "domainIngressName app' d' p'" k'] assms
  by (simp add: middlewareName_ingress)

text \<open>The characters of a generated name, when the app's own name is a DNS name.\<close>

lemma domainIngressName_chars:
  assumes "\<And>c. c \<in> set app \<Longrightarrow> dns_char c" and "c \<in> set (domainIngressName app d p)"
  shows "dns_char c"
proof -
  have "dns_char (CHR ''-'')" by (simp add: dns_char_def)
  then show ?thesis using assms sanitizeDNS_chars
    by (auto simp: domainIngressName_def Let_def split: if_splits)
qed

section \<open>Properties\<close>

text \<open>
  C39. \<open>sanitizeDNS\<close> always yields a string of lower-case letters, digits and inner dashes, for
  every byte string, invalid UTF-8 included, and never a longer one. The strings it leaves unchanged
  are exactly those already of that form, so a sanitized one is unchanged too; and but for the
  dashes nothing is lost or reordered: the other characters are, in order, those of the runes that
  have one.
\<close>

theorem sanitizeDNS_dns_label:
  "list_all dns_char (sanitizeDNS s)
   \<and> takeWhile (\<lambda>c. c = CHR ''-'') (sanitizeDNS s) = []
   \<and> takeWhile (\<lambda>c. c = CHR ''-'') (rev (sanitizeDNS s)) = []
   \<and> (sanitizeDNS s = s \<longleftrightarrow>
        list_all dns_char s \<and> takeWhile (\<lambda>c. c = CHR ''-'') s = [] \<and> takeWhile (\<lambda>c. c = CHR ''-'') (rev s) = [])
   \<and> sanitizeDNS (sanitizeDNS s) = sanitizeDNS s
   \<and> filter (\<lambda>c. c \<noteq> CHR ''-'') (sanitizeDNS s) = filter (\<lambda>c. c \<noteq> CHR ''-'') (map dns_rune (runes s))
   \<and> length (sanitizeDNS s) \<le> length s"
proof (intro conjI)
  show chars: "list_all dns_char (sanitizeDNS s)" using sanitizeDNS_chars by (auto simp: list_all_iff)
  show front: "takeWhile (\<lambda>c. c = CHR ''-'') (sanitizeDNS s) = []"
    using sanitizeDNS_ends[of s] by (cases "sanitizeDNS s") auto
  show tail: "takeWhile (\<lambda>c. c = CHR ''-'') (rev (sanitizeDNS s)) = []"
    using sanitizeDNS_ends[of s] by (cases "sanitizeDNS s" rule: rev_cases) auto
  show "sanitizeDNS s = s \<longleftrightarrow>
        list_all dns_char s \<and> takeWhile (\<lambda>c. c = CHR ''-'') s = [] \<and> takeWhile (\<lambda>c. c = CHR ''-'') (rev s) = []"
  proof
    assume "list_all dns_char s \<and> takeWhile (\<lambda>c. c = CHR ''-'') s = [] \<and> takeWhile (\<lambda>c. c = CHR ''-'') (rev s) = []"
    then show "sanitizeDNS s = s"
      by (intro sanitizeDNS_fixed)
        (auto simp: list_all_iff takeWhile_eq_Nil_iff hd_rev)
  qed (use chars front tail in \<open>simp only:\<close>)
  show "filter (\<lambda>c. c \<noteq> CHR ''-'') (sanitizeDNS s) = filter (\<lambda>c. c \<noteq> CHR ''-'') (map dns_rune (runes s))"
    by (simp only: sanitizeDNS_def filter_trim)
qed (simp_all add: sanitizeDNS_length)

end
