(* ===== verification/MemCluster.thy ===== *)
theory MemCluster
  imports Client
begin

text \<open>
  A concrete cluster: an API server that keeps its objects in lists, in memory, as the fake client
  of the repository's tests does. It instantiates the parameters of the model, so that the
  properties that name laws of the API server are applied to an input that satisfies them.
  Nothing in the development but witnesses rests on it.
\<close>

section \<open>The objects of one kind\<close>

definition at_key :: "('o \<Rightarrow> ObjectMeta) \<Rightarrow> string \<Rightarrow> string \<Rightarrow> 'o \<Rightarrow> bool" where
  "at_key meta ns n obj \<longleftrightarrow> m_namespace (meta obj) = ns \<and> m_name (meta obj) = n"

definition not_found :: "string \<Rightarrow> error" where
  "not_found n = StatusError NotFound (n @ '' not found'')"

definition mem_get :: "('w \<Rightarrow> 'o list) \<Rightarrow> ('o \<Rightarrow> ObjectMeta) \<Rightarrow> string \<Rightarrow> string \<Rightarrow> ('w, 'o result) state" where
  "mem_get objs meta ns n = State (\<lambda>w.
     (case find (at_key meta ns n) (objs w) of None \<Rightarrow> Inl (not_found n) | Some obj \<Rightarrow> Inr obj, w))"

definition mem_list :: "('w \<Rightarrow> 'o list) \<Rightarrow> ('o \<Rightarrow> ObjectMeta) \<Rightarrow> string \<Rightarrow> gomap \<Rightarrow> ('w, 'o list result) state" where
  "mem_list objs meta ns sel = State (\<lambda>w.
     (Inr (filter (\<lambda>obj. m_namespace (meta obj) = ns \<and> labels_match sel (m_labels (meta obj))
        \<and> find (at_key meta ns (m_name (meta obj))) (objs w) = Some obj) (objs w)), w))"

definition bump :: "((ObjectMeta \<Rightarrow> ObjectMeta) \<Rightarrow> 'o \<Rightarrow> 'o) \<Rightarrow> string \<Rightarrow> 'o \<Rightarrow> 'o" where
  "bump upd v obj = upd (\<lambda>m. m\<lparr>m_resourceVersion := v @ ''i''\<rparr>) obj"

definition mem_create ::
  "('w \<Rightarrow> 'o list) \<Rightarrow> ('o list \<Rightarrow> 'w \<Rightarrow> 'w) \<Rightarrow> ('o \<Rightarrow> ObjectMeta) \<Rightarrow> ((ObjectMeta \<Rightarrow> ObjectMeta) \<Rightarrow> 'o \<Rightarrow> 'o)
     \<Rightarrow> 'o \<Rightarrow> ('w, 'o result) state" where
  "mem_create objs put meta upd obj = State (\<lambda>w.
     case find (at_key meta (m_namespace (meta obj)) (m_name (meta obj))) (objs w) of
       Some _ \<Rightarrow> (Inl (StatusError AlreadyExists (m_name (meta obj) @ '' already exists'')), w)
     | None \<Rightarrow> (Inr (bump upd '''' obj), put (objs w @ [bump upd '''' obj]) w))"

definition mem_update ::
  "('w \<Rightarrow> 'o list) \<Rightarrow> ('o list \<Rightarrow> 'w \<Rightarrow> 'w) \<Rightarrow> ('o \<Rightarrow> ObjectMeta) \<Rightarrow> ((ObjectMeta \<Rightarrow> ObjectMeta) \<Rightarrow> 'o \<Rightarrow> 'o)
     \<Rightarrow> 'o \<Rightarrow> ('w, 'o result) state" where
  "mem_update objs put meta upd obj = State (\<lambda>w.
     let here = at_key meta (m_namespace (meta obj)) (m_name (meta obj)); v = m_resourceVersion (meta obj)
     in case find here (objs w) of
          None \<Rightarrow> (Inl (not_found (m_name (meta obj))), w)
        | Some old \<Rightarrow>
            if v \<noteq> '''' \<and> v \<noteq> m_resourceVersion (meta old)
            then (Inl (StatusError Conflict (m_name (meta obj) @ '' was changed'')), w)
            else let new = bump upd (m_resourceVersion (meta old)) obj
                 in (Inr new, put (map (\<lambda>x. if here x then new else x) (objs w)) w))"

definition mem_delete ::
  "('w \<Rightarrow> 'o list) \<Rightarrow> ('o list \<Rightarrow> 'w \<Rightarrow> 'w) \<Rightarrow> ('o \<Rightarrow> ObjectMeta) \<Rightarrow> 'o \<Rightarrow> ('w, unit result) state" where
  "mem_delete objs put meta obj = State (\<lambda>w.
     let here = at_key meta (m_namespace (meta obj)) (m_name (meta obj))
     in case find here (objs w) of
          None \<Rightarrow> (Inl (not_found (m_name (meta obj))), w)
        | Some _ \<Rightarrow> (Inr (), put (filter (\<lambda>x. \<not> here x) (objs w)) w))"

definition mem_patch ::
  "('w \<Rightarrow> 'o list) \<Rightarrow> ('o list \<Rightarrow> 'w \<Rightarrow> 'w) \<Rightarrow> ('o \<Rightarrow> ObjectMeta) \<Rightarrow> 'o \<Rightarrow> 'o \<Rightarrow> ('w, unit result) state" where
  "mem_patch objs put meta old new = State (\<lambda>w.
     let here = at_key meta (m_namespace (meta new)) (m_name (meta new))
     in case find here (objs w) of
          None \<Rightarrow> (Inl (not_found (m_name (meta new))), w)
        | Some _ \<Rightarrow> (Inr (), put (map (\<lambda>x. if here x then new else x) (objs w)) w))"

text \<open>
  \<open>controllerutil.CreateOrUpdate\<close>: get, change, and write only a difference; a function that changes
  the name or the namespace is an error.
\<close>

definition key_changed :: error where
  "key_changed = Plain ''MutateFn cannot mutate object name and/or object namespace''"

definition mem_create_or_update ::
  "('w \<Rightarrow> 'o list) \<Rightarrow> ('o list \<Rightarrow> 'w \<Rightarrow> 'w) \<Rightarrow> ('o \<Rightarrow> ObjectMeta) \<Rightarrow> ((ObjectMeta \<Rightarrow> ObjectMeta) \<Rightarrow> 'o \<Rightarrow> 'o)
     \<Rightarrow> 'o \<Rightarrow> ('o \<Rightarrow> 'o result) \<Rightarrow> ('w, operation_result result) state" where
  "mem_create_or_update objs put meta upd obj f = State (\<lambda>w.
     case find (at_key meta (m_namespace (meta obj)) (m_name (meta obj))) (objs w) of
       None \<Rightarrow>
         (case f obj of
            Inl e \<Rightarrow> (Inl e, w)
          | Inr new \<Rightarrow>
              if \<not> at_key meta (m_namespace (meta obj)) (m_name (meta obj)) new then (Inl key_changed, w)
              else (case run_state (mem_create objs put meta upd new) w of
                 (Inl e, w') \<Rightarrow> (Inl e, w')
               | (Inr _, w') \<Rightarrow> (Inr OpCreated, w')))
     | Some old \<Rightarrow>
         (case f old of
            Inl e \<Rightarrow> (Inl e, w)
          | Inr new \<Rightarrow>
              if \<not> at_key meta (m_namespace (meta obj)) (m_name (meta obj)) new then (Inl key_changed, w)
              else if new = old then (Inr OpNone, w)
              else (case run_state (mem_update objs put meta upd new) w of
                      (Inl e, w') \<Rightarrow> (Inl e, w')
                    | (Inr _, w') \<Rightarrow> (Inr OpUpdated, w'))))"

definition mem_client ::
  "('w \<Rightarrow> 'o list) \<Rightarrow> ('o list \<Rightarrow> 'w \<Rightarrow> 'w) \<Rightarrow> ('o \<Rightarrow> ObjectMeta) \<Rightarrow> ((ObjectMeta \<Rightarrow> ObjectMeta) \<Rightarrow> 'o \<Rightarrow> 'o)
     \<Rightarrow> ('w, 'o) rclient" where
  "mem_client objs put meta upd =
     \<lparr>rget = mem_get objs meta, rget_live = mem_get objs meta,
      rlist = mem_list objs meta, rlist_live = mem_list objs meta,
      rcreate = mem_create objs put meta upd, rupdate = mem_update objs put meta upd,
      rdelete = mem_delete objs put meta, rpatch = mem_patch objs put meta,
      rcreate_or_update = mem_create_or_update objs put meta upd\<rparr>"

section \<open>The cluster\<close>

record cluster =
  cl_configMaps :: "ConfigMap list"
  cl_secrets :: "Secret list"
  cl_deployments :: "Deployment list"
  cl_services :: "Service list"
  cl_pvcs :: "PersistentVolumeClaim list"
  cl_hpas :: "HorizontalPodAutoscaler list"
  cl_ingresses :: "Ingress list"
  cl_serviceAccounts :: "ServiceAccount list"
  cl_apps :: "AppDefinition list"
  cl_others :: "Unstructured list"
  cl_kinds :: "GVK list"
  cl_clock :: int

definition empty_cluster :: "cluster" where
  "empty_cluster = \<lparr>cl_configMaps = [], cl_secrets = [], cl_deployments = [], cl_services = [],
     cl_pvcs = [], cl_hpas = [], cl_ingresses = [], cl_serviceAccounts = [], cl_apps = [],
     cl_others = [], cl_kinds = [], cl_clock = 0\<rparr>"

text \<open>Objects of an optional kind are told apart by \<open>apiVersion\<close> and \<open>kind\<close>.\<close>

definition is_gvk :: "GVK \<Rightarrow> Unstructured \<Rightarrow> bool" where
  "is_gvk g u \<longleftrightarrow> u_apiVersion u = group_version g \<and> u_kind u = g_kind g"

definition mem_unstructured :: "GVK \<Rightarrow> (cluster, Unstructured) rclient" where
  "mem_unstructured g =
     mem_client (\<lambda>w. filter (is_gvk g) (cl_others w))
       (\<lambda>us w. w\<lparr>cl_others := filter (\<lambda>u. \<not> is_gvk g u) (cl_others w) @ us\<rparr>) u_meta u_meta_update"

definition mem_owner_ref :: "ObjectMeta \<Rightarrow> OwnerReference" where
  "mem_owner_ref owner =
     \<lparr>or_apiVersion = ''appdefinition.abexamir.me/v1'', or_kind = ''AppDefinition'', or_name = m_name owner,
      or_uid = m_uid owner, or_controller = True\<rparr>"

definition mem_setControllerReference :: "ObjectMeta \<Rightarrow> ObjectMeta \<Rightarrow> OwnerReference list result" where
  "mem_setControllerReference owner m =
     (if mem_owner_ref owner \<in> set (m_ownerRefs m) then Inr (m_ownerRefs m)
      else if list_ex or_controller (m_ownerRefs m) then Inl (Plain ''already owned by another controller'')
      else Inr (m_ownerRefs m @ [mem_owner_ref owner]))"

definition mem_isControlledBy :: "ObjectMeta \<Rightarrow> ObjectMeta \<Rightarrow> bool" where
  "mem_isControlledBy m owner \<longleftrightarrow> list_ex (\<lambda>r. or_controller r \<and> or_uid r = m_uid owner) (m_ownerRefs m)"

fun mem_setStatusCondition :: "Condition \<Rightarrow> Condition list \<Rightarrow> Condition list" where
  "mem_setStatusCondition c [] = [c]"
| "mem_setStatusCondition c (d # ds) =
     (if cond_type d = cond_type c
      then c\<lparr>cond_lastTransitionTime :=
               (if cond_status d = cond_status c then cond_lastTransitionTime d else cond_lastTransitionTime c)\<rparr> # ds
      else d # mem_setStatusCondition c ds)"

text \<open>Quantities are numbers of Gi here.\<close>

fun mem_parseQuantity :: "string \<Rightarrow> quantity option" where
  "mem_parseQuantity s = map_option JInt (parse_int64 (take (length s - 2) s))"

fun mem_quantity :: "quantity \<Rightarrow> int" where
  "mem_quantity (JInt n) = n"
| "mem_quantity _ = 0"

definition mem :: "cluster k8s" where
  "mem =
     \<lparr>k_configMaps = mem_client cl_configMaps (\<lambda>xs. cl_configMaps_update (\<lambda>_. xs)) cm_meta cm_meta_update,
      k_secrets = mem_client cl_secrets (\<lambda>xs. cl_secrets_update (\<lambda>_. xs)) sc_meta sc_meta_update,
      k_deployments = mem_client cl_deployments (\<lambda>xs. cl_deployments_update (\<lambda>_. xs)) dep_meta dep_meta_update,
      k_services = mem_client cl_services (\<lambda>xs. cl_services_update (\<lambda>_. xs)) svc_meta svc_meta_update,
      k_pvcs = mem_client cl_pvcs (\<lambda>xs. cl_pvcs_update (\<lambda>_. xs)) pvc_meta pvc_meta_update,
      k_hpas = mem_client cl_hpas (\<lambda>xs. cl_hpas_update (\<lambda>_. xs)) hpa_meta hpa_meta_update,
      k_ingresses = mem_client cl_ingresses (\<lambda>xs. cl_ingresses_update (\<lambda>_. xs)) ing_meta ing_meta_update,
      k_serviceAccounts = mem_client cl_serviceAccounts (\<lambda>xs. cl_serviceAccounts_update (\<lambda>_. xs)) sa_meta sa_meta_update,
      k_appDefinitions = mem_client cl_apps (\<lambda>xs. cl_apps_update (\<lambda>_. xs)) ad_meta ad_meta_update,
      k_unstructured = mem_unstructured,
      k_statusUpdate = (\<lambda>a. State (\<lambda>w. (Inr (), w\<lparr>cl_apps :=
         map (\<lambda>b. if at_key ad_meta (ad_namespace a) (ad_name a) b then b\<lparr>ad_status := ad_status a\<rparr> else b) (cl_apps w)\<rparr>))),
      k_restMapping = (\<lambda>g k v. State (\<lambda>w.
         (case find (\<lambda>x. g_group x = g \<and> g_kind x = k \<and> g_version x = v) (cl_kinds w) of
            None \<Rightarrow> Inl (NoMatch (''no matches for kind '' @ k)) | Some x \<Rightarrow> Inr x, w))),
      k_retryOnConflict = attempts is_conflict 3,
      k_now = State (\<lambda>w. (cl_clock w, w)),
      k_setControllerReference = mem_setControllerReference,
      k_isControlledBy = mem_isControlledBy,
      k_getControllerOf = (\<lambda>m. find or_controller (m_ownerRefs m)),
      k_setStatusCondition = mem_setStatusCondition,
      k_removeStatusCondition = (\<lambda>t. filter (\<lambda>c. cond_type c \<noteq> t)),
      k_parseQuantity = mem_parseQuantity,
      k_quantityCmp = (\<lambda>p q. sgn (mem_quantity p - mem_quantity q)),
      k_quantityString = (\<lambda>q. show_int (mem_quantity q) @ ''Gi''),
      k_zeroQuantity = JInt 0,
      k_sha256 = take 32,
      k_formatRFC3339 = show_int,
      k_parseRFC3339 = parse_int64\<rparr>"

lemma mem_simps [simp]:
  "k_configMaps mem = mem_client cl_configMaps (\<lambda>xs. cl_configMaps_update (\<lambda>_. xs)) cm_meta cm_meta_update"
  "k_secrets mem = mem_client cl_secrets (\<lambda>xs. cl_secrets_update (\<lambda>_. xs)) sc_meta sc_meta_update"
  "k_deployments mem = mem_client cl_deployments (\<lambda>xs. cl_deployments_update (\<lambda>_. xs)) dep_meta dep_meta_update"
  "k_setControllerReference mem = mem_setControllerReference"
  "k_isControlledBy mem = mem_isControlledBy"
  "k_retryOnConflict mem = attempts is_conflict 3"
  "k_setStatusCondition mem = mem_setStatusCondition"
  by (simp_all add: mem_def)

lemma mem_retry_law: "retry_law mem"
  by (auto simp: retry_law_def)

definition mem_st :: "cluster \<Rightarrow> cluster st" where
  "mem_st w = \<lparr>world = w, writes = [],
     mx = \<lparr>mx_stepDuration = (\<lambda>_. 0), mx_stepErrors = (\<lambda>_. 0), mx_prunes = (\<lambda>_. 0),
           mx_appReady = (\<lambda>_. None), mx_appObservedGeneration = (\<lambda>_. None)\<rparr>\<rparr>"

lemma world_mem_st [simp]: "world (mem_st w) = w" "writes (mem_st w) = []"
  by (simp_all add: mem_st_def)

end
