(* ===== verification/Owned.thy ===== *)
theory Owned
  imports Names MemCluster
begin

text \<open>
  \<open>reconcile_configmaps.go\<close> and \<open>reconcile_secrets.go\<close>, and the contract they share with the
  reconcilers of the other lists of children: bring every declared child up to date, then delete
  the stale ones. The locale \<open>child_kind\<close> states what one step of the first loop may write; its
  two extensions put a loop and the pruning around it, as the code does for the typed kinds and
  for the kinds of optional CRDs.
\<close>

section \<open>The contract of a list of children\<close>

definition ensures :: "(kind \<Rightarrow> bool) \<Rightarrow> AppDefinition \<Rightarrow> string list \<Rightarrow> api_write \<Rightarrow> bool" where
  "ensures isk appDef names e =
     (case e of
        WCreate k m \<Rightarrow> isk k \<and> m_namespace m = ad_namespace appDef \<and> m_name m \<in> set names
      | WUpdate k m \<Rightarrow> isk k \<and> m_namespace m = ad_namespace appDef \<and> m_name m \<in> set names
      | WCreateOrUpdate k m \<Rightarrow> isk k \<and> m_namespace m = ad_namespace appDef \<and> m_name m \<in> set names
      | _ \<Rightarrow> False)"

definition child_write :: "'w k8s \<Rightarrow> AppDefinition \<Rightarrow> (kind \<Rightarrow> bool) \<Rightarrow> string list \<Rightarrow> api_write \<Rightarrow> bool" where
  "child_write K appDef isk names e =
     (case e of
        WDelete k m \<Rightarrow> isk k \<and> stale K appDef names m
      | _ \<Rightarrow> ensures isk appDef names e)"

lemma ensures_simps [simp]:
  "ensures isk appDef names (WCreate k m) \<longleftrightarrow> isk k \<and> m_namespace m = ad_namespace appDef \<and> m_name m \<in> set names"
  "ensures isk appDef names (WUpdate k m) \<longleftrightarrow> isk k \<and> m_namespace m = ad_namespace appDef \<and> m_name m \<in> set names"
  "ensures isk appDef names (WCreateOrUpdate k m) \<longleftrightarrow> isk k \<and> m_namespace m = ad_namespace appDef \<and> m_name m \<in> set names"
  by (simp_all add: ensures_def)

lemma ensures_mono:
  "ensures isk appDef names e \<Longrightarrow> set names \<subseteq> set names' \<Longrightarrow> ensures isk appDef names' e"
  by (auto simp: ensures_def split: api_write.splits)

lemma ensures_child: "ensures isk appDef names e \<Longrightarrow> child_write K appDef isk names e"
  by (auto simp: ensures_def child_write_def split: api_write.splits)

lemma child_write_delete [simp]:
  "child_write K appDef isk names (WDelete k m) \<longleftrightarrow> isk k \<and> stale K appDef names m"
  by (simp add: child_write_def)

locale child_kind =
  fixes isk :: "kind \<Rightarrow> bool"
    and items :: "AppDefinition \<Rightarrow> 'i list"
    and child_name :: "AppDefinition \<Rightarrow> 'i \<Rightarrow> string"
    and ensure :: "'x \<Rightarrow> 'w k8s \<Rightarrow> AppDefinition \<Rightarrow> 'i \<Rightarrow> ('w, 'f result) prog"
    and usable :: "'x \<Rightarrow> 'w k8s \<Rightarrow> bool"
  assumes ensure_writes:
    "usable x K \<Longrightarrow> only_writes (ensures isk appDef [child_name appDef i]) (ensure x K appDef i)"
begin

definition names :: "AppDefinition \<Rightarrow> string list" where
  "names appDef = map (child_name appDef) (items appDef)"

lemma ensure_child_writes:
  assumes "usable x K" and "i \<in> set (items appDef)"
  shows "only_writes (child_write K appDef isk (names appDef)) (ensure x K appDef i)"
  using assms by (auto intro!: only_writes_mono [OF ensure_writes [OF assms(1)]] ensures_child
      elim!: ensures_mono simp: names_def)

end

locale typed_child_kind = child_kind isk items child_name ensure usable
  for isk :: "kind \<Rightarrow> bool"
    and items :: "AppDefinition \<Rightarrow> 'i list"
    and child_name :: "AppDefinition \<Rightarrow> 'i \<Rightarrow> string"
    and ensure :: "'x \<Rightarrow> 'w k8s \<Rightarrow> AppDefinition \<Rightarrow> 'i \<Rightarrow> ('w, unit result) prog"
    and usable :: "'x \<Rightarrow> 'w k8s \<Rightarrow> bool"
begin

lemma reconcile_writes:
  assumes "usable x K" and "isk k"
  shows "only_writes (child_write K appDef isk (names appDef))
    (tryM (each (ensure x K appDef) (items appDef)) id
      (\<lambda>_. tryM (lift m) wrap (prune_objects K appDef rc k label meta (names appDef))))"
  using assms by (auto intro!: hoare ensure_child_writes)

end

locale optional_child_kind = child_kind isk items child_name ensure usable
  for isk :: "kind \<Rightarrow> bool"
    and items :: "AppDefinition \<Rightarrow> 'i list"
    and child_name :: "AppDefinition \<Rightarrow> 'i \<Rightarrow> string"
    and ensure :: "'x \<Rightarrow> 'w k8s \<Rightarrow> AppDefinition \<Rightarrow> 'i \<Rightarrow> ('w, flow result) prog"
    and usable :: "'x \<Rightarrow> 'w k8s \<Rightarrow> bool"
begin

lemma reconcile_writes:
  assumes "usable x K" and "only_writes (child_write K appDef isk (names appDef)) prune"
  shows "only_writes (child_write K appDef isk (names appDef))
    (tryM (each_flow (ensure x K appDef) (items appDef)) id
      (\<lambda>c. case c of ReturnNil \<Rightarrow> ret () | Continue \<Rightarrow> prune))"
  using assms by (auto intro!: hoare ensure_child_writes split: flow.split)

end

section \<open>ConfigMaps\<close>

definition childName :: "AppDefinition \<Rightarrow> string \<Rightarrow> string" where
  "childName appDef name = ad_name appDef @ ''-'' @ name"

definition empty_config_map :: "ObjectMeta \<Rightarrow> ConfigMap" where
  "empty_config_map m = \<lparr>cm_meta = m, cm_data = [], cm_rest = JNull\<rparr>"

text \<open>The function given to \<open>CreateOrUpdate\<close>.\<close>

definition mutateConfigMap :: "'w k8s \<Rightarrow> AppDefinition \<Rightarrow> ConfigMapMount \<Rightarrow> ConfigMap \<Rightarrow> ConfigMap result" where
  "mutateConfigMap K appDef cm obj =
     (let m = (cm_meta obj)\<lparr>m_labels := standardLabels (ad_name appDef)\<rparr>;
          obj = obj\<lparr>cm_meta := m, cm_data := cmm_Data cm\<rparr>
      in case set_controller_reference K appDef m of
           Inl e \<Rightarrow> Inl e
         | Inr m \<Rightarrow> Inr (obj\<lparr>cm_meta := m\<rparr>))"

definition ensureConfigMap :: "'w k8s \<Rightarrow> AppDefinition \<Rightarrow> ConfigMapMount \<Rightarrow> ('w, unit result) prog" where
  "ensureConfigMap K appDef cm =
     tryM (create_or_update (k_configMaps K) ConfigMapK cm_meta
             (empty_config_map (object_meta (childName appDef (cmm_Name cm)) (ad_namespace appDef)))
             (mutateConfigMap K appDef cm))
       (Wrap (''failed to reconcile ConfigMap '' @ cmm_Name cm))
       (\<lambda>_. ret ())"

definition reconcileConfigMaps :: "'w k8s \<Rightarrow> AppDefinition \<Rightarrow> ('w, unit result) prog" where
  "reconcileConfigMaps K appDef =
     (let desired = map (\<lambda>cm. childName appDef (cmm_Name cm)) (spec_ConfigMaps (ad_spec appDef))
      in tryM (each (ensureConfigMap K appDef) (spec_ConfigMaps (ad_spec appDef))) id
           (\<lambda>_. tryM (lift (rlist (k_configMaps K) (ad_namespace appDef) (standardLabels (ad_name appDef))))
                  (Wrap ''listing managed ConfigMaps for pruning'')
                  (prune_objects K appDef (k_configMaps K) ConfigMapK ''ConfigMap'' cm_meta desired)))"

interpretation cms: typed_child_kind "\<lambda>k. k = ConfigMapK" "\<lambda>a. spec_ConfigMaps (ad_spec a)"
  "\<lambda>a cm. childName a (cmm_Name cm)" "\<lambda>_::unit. ensureConfigMap" "\<lambda>_ _. True"
  by unfold_locales (auto simp: ensureConfigMap_def empty_config_map_def intro!: hoare)

lemma only_writes_reconcileConfigMaps:
  "only_writes (child_write K appDef (\<lambda>k. k = ConfigMapK)
     (map (\<lambda>cm. childName appDef (cmm_Name cm)) (spec_ConfigMaps (ad_spec appDef)))) (reconcileConfigMaps K appDef)"
  using cms.reconcile_writes [where K = K and k = ConfigMapK and appDef = appDef]
  by (simp add: reconcileConfigMaps_def cms.names_def Let_def)

section \<open>Secrets\<close>

definition empty_secret :: "ObjectMeta \<Rightarrow> Secret" where
  "empty_secret m = \<lparr>sc_meta = m, sc_type = '''', sc_data = []\<rparr>"

definition mount_data :: "SecretMount \<Rightarrow> gomap" where
  "mount_data sec = (case sec_Data sec of None \<Rightarrow> [] | Some d \<Rightarrow> d)"

definition mutateSecret :: "'w k8s \<Rightarrow> AppDefinition \<Rightarrow> SecretMount \<Rightarrow> Secret \<Rightarrow> Secret result" where
  "mutateSecret K appDef sec obj =
     (let m = (sc_meta obj)\<lparr>m_labels := standardLabels (ad_name appDef)\<rparr>;
          obj = obj\<lparr>sc_meta := m, sc_type := ''Opaque'', sc_data := map_merge [] (mount_data sec)\<rparr>
      in case set_controller_reference K appDef m of
           Inl e \<Rightarrow> Inl e
         | Inr m \<Rightarrow> Inr (obj\<lparr>sc_meta := m\<rparr>))"

text \<open>An entry with a \<open>secretRef\<close> is skipped: it names a Secret managed elsewhere.\<close>

definition ensureSecret :: "'w k8s \<Rightarrow> AppDefinition \<Rightarrow> SecretMount \<Rightarrow> ('w, unit result) prog" where
  "ensureSecret K appDef sec =
     (if sec_SecretRef sec \<noteq> '''' then ret ()
      else tryM (create_or_update (k_secrets K) SecretK sc_meta
             (empty_secret (object_meta (childName appDef (sec_Name sec)) (ad_namespace appDef)))
             (mutateSecret K appDef sec))
       (Wrap (''failed to reconcile Secret '' @ sec_Name sec))
       (\<lambda>_. ret ()))"

definition inlineSecrets :: "AppDefinition \<Rightarrow> SecretMount list" where
  "inlineSecrets appDef = filter (\<lambda>sec. sec_SecretRef sec = '''') (spec_Secrets (ad_spec appDef))"

definition reconcileSecrets :: "'w k8s \<Rightarrow> AppDefinition \<Rightarrow> ('w, unit result) prog" where
  "reconcileSecrets K appDef =
     (let desired = map (\<lambda>sec. childName appDef (sec_Name sec)) (inlineSecrets appDef)
      in tryM (each (ensureSecret K appDef) (spec_Secrets (ad_spec appDef))) id
           (\<lambda>_. tryM (lift (rlist (k_secrets K) (ad_namespace appDef) (standardLabels (ad_name appDef))))
                  (Wrap ''listing managed Secrets for pruning'')
                  (prune_objects K appDef (k_secrets K) SecretK ''Secret'' sc_meta desired)))"

lemma ensureSecrets_inline:
  "each (ensureSecret K appDef) (filter (\<lambda>sec. sec_SecretRef sec = '''') secs)
   = each (ensureSecret K appDef) secs"
  by (induction secs) (simp_all add: ensureSecret_def)

interpretation secs: typed_child_kind "\<lambda>k. k = SecretK" inlineSecrets
  "\<lambda>a sec. childName a (sec_Name sec)" "\<lambda>_::unit. ensureSecret" "\<lambda>_ _. True"
  by unfold_locales (auto simp: ensureSecret_def empty_secret_def intro!: hoare)

lemma only_writes_reconcileSecrets:
  "only_writes (child_write K appDef (\<lambda>k. k = SecretK)
     (map (\<lambda>sec. childName appDef (sec_Name sec)) (inlineSecrets appDef))) (reconcileSecrets K appDef)"
  using secs.reconcile_writes [where K = K and k = SecretK and appDef = appDef]
  by (simp add: reconcileSecrets_def secs.names_def Let_def inlineSecrets_def ensureSecrets_inline)

end
