(* ===== verification/Hashing.thy ===== *)
theory Hashing
  imports Owned
begin

text \<open>
  The two hashes \<open>reconcile_deployment.go\<close> writes as annotations of the pod template, so that a
  change of configuration or of a synced Secret rolls the pods. The text that is hashed is a
  definition of its own; SHA-256 is a parameter.
\<close>

section \<open>The hashed text\<close>

definition newline :: string where
  "newline = [CHR 0x0A]"

definition sorted_keys :: "gomap \<Rightarrow> string list" where
  "sorted_keys m = sort (map fst m)"

text \<open>\<open>for _, k := range keys { write(k + "=" + data[k] + "\n") }\<close>\<close>

definition data_text :: "gomap \<Rightarrow> string" where
  "data_text m = concat (map (\<lambda>k. k @ ''='' @ map_get m k @ newline) (sorted_keys m))"

definition configMap_text :: "ConfigMapMount \<Rightarrow> string" where
  "configMap_text cm = ''cm:'' @ cmm_Name cm @ newline @ data_text (cmm_Data cm)"

definition secret_text :: "SecretMount \<Rightarrow> string" where
  "secret_text sec =
     (if mount_data sec = [] then ''''
      else ''secret:'' @ sec_Name sec @ newline @ data_text (mount_data sec))"

definition hasInlineData :: "AppDefinition \<Rightarrow> bool" where
  "hasInlineData appDef \<longleftrightarrow> list_ex (\<lambda>sec. mount_data sec \<noteq> []) (spec_Secrets (ad_spec appDef))"

text \<open>
  \<open>sort.Slice\<close> orders the mounts by name. It promises nothing about mounts of the same name, so
  the properties below ask for distinct names.
\<close>

definition config_text :: "AppDefinition \<Rightarrow> string" where
  "config_text appDef =
     concat (map configMap_text (sort_key cmm_Name (spec_ConfigMaps (ad_spec appDef))))
     @ concat (map secret_text (sort_key sec_Name (spec_Secrets (ad_spec appDef))))"

definition short_hash :: "'w k8s \<Rightarrow> string \<Rightarrow> string" where
  "short_hash K s = take 16 (hex (k_sha256 K s))"

definition computeConfigHash :: "'w k8s \<Rightarrow> AppDefinition \<Rightarrow> string" where
  "computeConfigHash K appDef =
     (if spec_ConfigMaps (ad_spec appDef) = [] \<and> \<not> hasInlineData appDef then ''''
      else short_hash K (config_text appDef))"

section \<open>Synced Secrets\<close>

text \<open>
  The loop over the sorted names: the text written so far and whether any Secret was found.
  A Secret the External Secrets Operator has not written yet is skipped.
\<close>

fun hash_external :: "'w k8s \<Rightarrow> AppDefinition \<Rightarrow> string list \<Rightarrow> string \<Rightarrow> bool \<Rightarrow> ('w, (string \<times> bool) result) prog" where
  "hash_external K appDef [] h found = ret (h, found)"
| "hash_external K appDef (esName # names) h found =
     do { r \<leftarrow> lift (rget_live (k_secrets K) (ad_namespace appDef) (childName appDef esName));
          case r of
            Inl e \<Rightarrow>
              if is_not_found e then hash_external K appDef names h found
              else fail (Wrap (''getting Secret '' @ childName appDef esName) e)
          | Inr secret \<Rightarrow>
              hash_external K appDef names
                (h @ ''es:'' @ esName @ newline @ data_text (sc_data secret)) True }"

definition externalSecretHash :: "'w k8s \<Rightarrow> AppDefinition \<Rightarrow> ('w, string result) prog" where
  "externalSecretHash K appDef =
     (if spec_ExternalSecrets (ad_spec appDef) = [] then ret ''''
      else tryM (hash_external K appDef (sort (map es_Name (spec_ExternalSecrets (ad_spec appDef)))) '''' False) id
             (\<lambda>(h, found). if \<not> found then ret '''' else ret (short_hash K h)))"

lemma only_writes_hash_external: "only_writes P (hash_external K appDef names h found)"
  by (induction names arbitrary: h found) (auto intro!: hoare split: sum.split)

lemma only_writes_externalSecretHash [hoare]: "only_writes P (externalSecretHash K appDef)"
  unfolding externalSecretHash_def by (auto intro!: hoare only_writes_hash_external)

section \<open>The text as a list of named maps\<close>

text \<open>
  Both halves of the text have one shape: a list of named maps, in the order of the names, a
  header line for each name and a line for each entry. What a list of named maps says is the
  multiset of its names with their maps; the order of the list and of the entries is no part of it.
\<close>

type_synonym named_map = "string \<times> gomap"

definition section_text :: "string \<Rightarrow> named_map list \<Rightarrow> string" where
  "section_text pre ps = concat (map (\<lambda>(n, d). pre @ n @ newline @ data_text d) (sort_key fst ps))"

definition content :: "named_map list \<Rightarrow> (string \<times> (string \<rightharpoonup> string)) multiset" where
  "content ps = mset (map (\<lambda>(n, d). (n, map_of d)) ps)"

definition wf_named :: "named_map list \<Rightarrow> bool" where
  "wf_named ps \<longleftrightarrow> distinct (map fst ps) \<and> list_all (\<lambda>(n, d). wf_map d) ps"

lemma map_sort_key: "map f (sort_key (\<lambda>x. g (f x)) xs) = sort_key g (map f xs)"
proof -
  have "map f (insort_key (\<lambda>x. g (f x)) x ys) = insort_key g (f x) (map f ys)" for x ys
    by (induction ys) auto
  then show ?thesis by (induction xs) auto
qed

lemma sorted_keys_map_of: "wf_map m \<Longrightarrow> sorted_keys m = sorted_list_of_set (dom (map_of m))"
  using sorted_list_of_set_sort_remdups [of "map fst m"]
  by (simp add: sorted_keys_def wf_map_def dom_map_of_conv_image_fst distinct_remdups_id)

lemma data_text_map_of: "wf_map m \<Longrightarrow> wf_map m' \<Longrightarrow> map_of m = map_of m' \<Longrightarrow> data_text m = data_text m'"
  by (simp add: data_text_def sorted_keys_map_of map_get_def)

lemma content_fst: "image_mset fst (content ps) = mset (map fst ps)"
  by (induction ps) (auto simp: content_def)

lemma content_sorted:
  assumes "distinct (map fst ps)" and "content ps = content qs"
  shows "map (\<lambda>(n, d). (n, map_of d)) (sort_key fst ps) = map (\<lambda>(n, d). (n, map_of d)) (sort_key fst qs)"
proof -
  let ?f = "\<lambda>(n :: string, d :: gomap). (n, map_of d)"
  have "map ?f (sort_key fst xs) = sort_key fst (map ?f xs)" for xs
    using map_sort_key [of ?f fst xs] by (simp add: case_prod_unfold)
  moreover have "sort_key fst (map ?f ps) = sort_key fst (map ?f qs)"
    using assms by (intro sort_key_perm) (simp_all add: content_def comp_def case_prod_unfold)
  ultimately show ?thesis by metis
qed

lemma section_text_cong:
  assumes "map (\<lambda>(n, d). (n, map_of d)) ps = map (\<lambda>(n, d). (n, map_of d)) qs"
    and "list_all (\<lambda>(n, d). wf_map d) ps" and "list_all (\<lambda>(n, d). wf_map d) qs"
  shows "map (\<lambda>(n, d). pre @ n @ newline @ data_text d) ps = map (\<lambda>(n, d). pre @ n @ newline @ data_text d) qs"
  using assms
proof (induction ps arbitrary: qs)
  case (Cons p ps)
  then obtain n d d' qs' where p: "p = (n, d)" and qs: "qs = (n, d') # qs'"
    and eq: "map_of d = map_of d'" "wf_map d" "wf_map d'"
    by (cases p; cases qs) auto
  then show ?case using Cons.IH [of qs'] Cons.prems data_text_map_of [OF eq(2,3,1)]
    by (simp only: p qs list.map prod.case list.inject list.pred_inject)
qed simp

lemma wf_named_sort: "wf_named ps \<Longrightarrow> list_all (\<lambda>(n, d). wf_map d) (sort_key fst ps)"
  by (simp add: wf_named_def list_all_iff)

lemma section_text_content:
  assumes "wf_named ps" and "wf_named qs" and "content ps = content qs"
  shows "section_text pre ps = section_text pre qs"
  unfolding section_text_def
  using section_text_cong [OF content_sorted wf_named_sort wf_named_sort, of ps qs pre] assms
  by (simp add: wf_named_def)

section \<open>Reading the text back\<close>

lemma unlines_inj:
  assumes "concat (map (\<lambda>l. l @ [c]) ls) = concat (map (\<lambda>l. l @ [c]) ls')"
    and "list_all (\<lambda>l. c \<notin> set l) ls" and "list_all (\<lambda>l. c \<notin> set l) ls'"
  shows "ls = ls'"
  using assms
proof (induction ls arbitrary: ls')
  case Nil
  then show ?case by (cases ls') auto
next
  case (Cons l ls)
  then obtain l' ls'' where ls': "ls' = l' # ls''" by (cases ls') auto
  have "l = l' \<and> concat (map (\<lambda>l. l @ [c]) ls) = concat (map (\<lambda>l. l @ [c]) ls'')"
    using Cons.prems by (intro first_sep) (auto simp: ls')
  then show ?case using Cons by (auto simp: ls')
qed

text \<open>A list of blocks, each a header and entries, when headers and entries can be told apart.\<close>

lemma span_inj:
  assumes "es @ hs = es' @ hs'" and "list_all Q es" and "list_all Q es'"
    and "hs = [] \<or> \<not> Q (hd hs)" and "hs' = [] \<or> \<not> Q (hd hs')"
  shows "es = es' \<and> hs = hs'"
  using assms
proof (induction es arbitrary: es')
  case Nil
  then show ?case by (cases es') auto
next
  case (Cons e es)
  then show ?case by (cases es') (auto simp: Cons_eq_append_conv)
qed

lemma blocks_inj:
  assumes "concat (map (\<lambda>(h, es). h # es) bs) = concat (map (\<lambda>(h, es). h # es) bs')"
    and "list_all (\<lambda>(h, es). \<not> Q h \<and> list_all Q es) bs"
    and "list_all (\<lambda>(h, es). \<not> Q h \<and> list_all Q es) bs'"
  shows "bs = bs'"
  using assms
proof (induction bs arbitrary: bs')
  case Nil
  then show ?case by (cases bs') auto
next
  case (Cons b bs)
  then obtain h es h' es' bs'' where b: "b = (h, es)" and bs': "bs' = (h', es') # bs''"
    by (cases b; cases bs') auto
  have start: "concat (map (\<lambda>(h, es). h # es) xs) = [] \<or> \<not> Q (hd (concat (map (\<lambda>(h, es). h # es) xs)))"
    if "list_all (\<lambda>(h, es). \<not> Q h \<and> list_all Q es) xs" for xs :: "('a \<times> 'a list) list"
    using that by (cases xs) auto
  have "es = es' \<and> concat (map (\<lambda>(h, es). h # es) bs) = concat (map (\<lambda>(h, es). h # es) bs'')"
    using Cons.prems start by (intro span_inj [where Q = Q]) (auto simp: b bs')
  then show ?case using Cons by (auto simp: b bs')
qed

definition entry_line :: "gomap \<Rightarrow> string \<Rightarrow> string" where
  "entry_line d k = k @ CHR ''='' # map_get d k"

definition block :: "string \<Rightarrow> named_map \<Rightarrow> string \<times> string list" where
  "block pre p = (pre @ fst p, map (entry_line (snd p)) (sorted_keys (snd p)))"

text \<open>
  Names and keys hold no equals sign and no line feed, as the API server demands of the keys of a
  ConfigMap or Secret and of object names, and no value holds a line feed.
\<close>

definition tidy :: "named_map list \<Rightarrow> bool" where
  "tidy ps \<longleftrightarrow> wf_named ps \<and>
     list_all (\<lambda>(n, d). CHR ''='' \<notin> set n \<and> CHR 0x0A \<notin> set n \<and>
       list_all (\<lambda>(k, v). CHR ''='' \<notin> set k \<and> CHR 0x0A \<notin> set k \<and> CHR 0x0A \<notin> set v) d) ps"

lemma tidy_wf: "tidy ps \<Longrightarrow> wf_named ps"
  by (simp add: tidy_def)

lemma data_text_lines: "data_text d = concat (map (\<lambda>l. l @ [CHR 0x0A]) (map (entry_line d) (sorted_keys d)))"
  by (simp add: data_text_def entry_line_def newline_def comp_def)

lemma section_text_lines:
  "section_text pre ps = concat (map (\<lambda>l. l @ [CHR 0x0A])
     (concat (map (\<lambda>(h, es). h # es) (map (block pre) (sort_key fst ps)))))"
proof -
  have "concat (map (\<lambda>(n, d). pre @ n @ newline @ data_text d) xs) = concat (map (\<lambda>l. l @ [CHR 0x0A])
      (concat (map (\<lambda>(h, es). h # es) (map (block pre) xs))))" for xs
    by (induction xs) (auto simp: block_def data_text_lines newline_def)
  then show ?thesis by (simp add: section_text_def)
qed

lemma map_get_in:
  assumes "wf_map d" and "k \<in> fst ` set d"
  shows "(k, map_get d k) \<in> set d"
proof -
  obtain v where "(k, v) \<in> set d" using assms(2) by auto
  moreover from this have "map_of d k = Some v" using assms(1) by (simp add: wf_map_def)
  ultimately show ?thesis by (simp add: map_get_def)
qed

lemma set_sorted_keys [simp]: "set (sorted_keys d) = fst ` set d"
  by (simp add: sorted_keys_def)

lemma tidy_block:
  assumes "tidy ps" and "p \<in> set ps" and "pre \<in> {''cm:'', ''secret:''}"
  shows "CHR ''='' \<notin> set (fst (block pre p))" and "CHR 0x0A \<notin> set (fst (block pre p))"
    and "l \<in> set (snd (block pre p)) \<Longrightarrow> CHR ''='' \<in> set l \<and> CHR 0x0A \<notin> set l"
proof -
  obtain n d where p: "p = (n, d)" by (cases p)
  have n: "CHR ''='' \<notin> set n" "CHR 0x0A \<notin> set n" and d: "wf_map d"
    and kv: "\<And>k v. (k, v) \<in> set d \<Longrightarrow> CHR 0x0A \<notin> set k \<and> CHR 0x0A \<notin> set v"
    using assms(1,2) by (auto simp: tidy_def wf_named_def list_all_iff p)
  show "CHR ''='' \<notin> set (fst (block pre p))" "CHR 0x0A \<notin> set (fst (block pre p))"
    using n assms(3) by (auto simp: block_def p)
  show "CHR ''='' \<in> set l \<and> CHR 0x0A \<notin> set l" if "l \<in> set (snd (block pre p))"
  proof -
    have "l \<in> entry_line d ` fst ` set d" using that by (simp add: block_def p)
    then obtain k where l: "l = entry_line d k" and k: "k \<in> fst ` set d" by blast
    show ?thesis using kv [OF map_get_in [OF d k]] by (simp add: l entry_line_def)
  qed
qed

lemma entry_lines_inj:
  assumes "wf_map d" and "wf_map d'"
    and "\<And>k. k \<in> fst ` set d \<Longrightarrow> CHR ''='' \<notin> set k" and "\<And>k. k \<in> fst ` set d' \<Longrightarrow> CHR ''='' \<notin> set k"
    and "map (entry_line d) (sorted_keys d) = map (entry_line d') (sorted_keys d')"
  shows "map_of d = map_of d'"
proof -
  have same: "ks = ks' \<and> map (map_get d) ks = map (map_get d') ks'"
    if "map (entry_line d) ks = map (entry_line d') ks'" "set ks \<subseteq> fst ` set d" "set ks' \<subseteq> fst ` set d'" for ks ks'
    using that
  proof (induction ks arbitrary: ks')
    case (Cons k ks)
    then obtain k' ks'' where ks': "ks' = k' # ks''" by (cases ks') auto
    have "k = k' \<and> map_get d k = map_get d' k'"
      using Cons.prems assms(3,4) by (intro first_sep [of k "CHR ''=''"]) (auto simp: entry_line_def ks')
    moreover have "ks = ks'' \<and> map (map_get d) ks = map (map_get d') ks''"
      using Cons.prems by (intro Cons.IH) (auto simp: ks')
    ultimately show ?case unfolding ks' by (metis list.simps(9))
  qed auto
  have both: "sorted_keys d = sorted_keys d' \<and> map (map_get d) (sorted_keys d) = map (map_get d') (sorted_keys d')"
    by (rule same [OF assms(5)]) auto
  note keys = both [THEN conjunct1] and vals = both [THEN conjunct2]
  have dom: "fst ` set d = fst ` set d'" using keys by (metis set_sorted_keys)
  show ?thesis
  proof
    fix k
    show "map_of d k = map_of d' k"
    proof (cases "k \<in> fst ` set d")
      case True
      then have "k \<in> set (sorted_keys d')" using dom by simp
      then have "map_get d k = map_get d' k" using vals [unfolded keys map_eq_conv] by blast
      then show ?thesis using True dom map_get_in [OF assms(1)] map_get_in [OF assms(2)] assms(1,2)
        by (metis map_of_eq_Some_iff wf_map_def)
    next
      case False
      then show ?thesis using dom by (metis map_of_eq_None_iff)
    qed
  qed
qed

lemma blocks_content:
  assumes "map (block pre) ps = map (block pre) qs"
    and "list_all (\<lambda>p. tidy [p]) ps" and "list_all (\<lambda>p. tidy [p]) qs"
  shows "map (\<lambda>(n, d). (n, map_of d)) ps = map (\<lambda>(n, d). (n, map_of d)) qs"
  using assms
proof (induction ps arbitrary: qs)
  case (Cons p ps)
  then obtain n d n' d' qs' where p: "p = (n, d)" and qs: "qs = (n', d') # qs'" by (cases p; cases qs) auto
  have "map_of d = map_of d'"
    using Cons.prems by (intro entry_lines_inj)
      (auto simp: p qs block_def tidy_def wf_named_def list_all_iff)
  moreover have "n = n'" using Cons.prems by (simp add: p qs block_def)
  moreover have "map (block pre) ps = map (block pre) qs'" using Cons.prems(1) by (simp add: qs)
  ultimately show ?case using Cons by (simp add: p qs)
qed simp

lemma tidy_single: "tidy ps \<Longrightarrow> p \<in> set ps \<Longrightarrow> tidy [p]"
  by (auto simp: tidy_def wf_named_def list_all_iff)

lemma content_sort: "content (sort_key fst ps) = content ps"
  by (simp add: content_def)

lemma tidy_lines:
  assumes "list_all (\<lambda>p. tidy [p]) ps" and "pre \<in> {''cm:'', ''secret:''}"
  shows "list_all (\<lambda>(h, es). \<not> CHR ''='' \<in> set h \<and> list_all (\<lambda>l. CHR ''='' \<in> set l) es) (map (block pre) ps)"
    and "list_all (\<lambda>l. CHR 0x0A \<notin> set l) (concat (map (\<lambda>(h, es). h # es) (map (block pre) ps)))"
  using assms(1) tidy_block [of "[p]" p pre for p] assms(2)
  by (fastforce simp: list_all_iff case_prod_unfold)+

text \<open>The text of the two halves together determines what both say.\<close>

lemma text_inj:
  assumes "tidy cms" and "tidy secs" and "tidy cms'" and "tidy secs'"
    and "section_text ''cm:'' cms @ section_text ''secret:'' secs
       = section_text ''cm:'' cms' @ section_text ''secret:'' secs'"
  shows "content cms = content cms' \<and> content secs = content secs'"
proof -
  let ?bs = "\<lambda>cms secs. map (block ''cm:'') (sort_key fst cms) @ map (block ''secret:'') (sort_key fst secs)"
  have sorted: "list_all (\<lambda>p. tidy [p]) (sort_key fst ps)" if "tidy ps" for ps
    using that tidy_single by (auto simp: list_all_iff)
  have secret_hd: "map (block ''secret:'') ps = [] \<or> \<not> hd (fst (hd (map (block ''secret:'') ps))) = CHR ''c''" for ps
    by (cases ps) (simp_all add: block_def)
  note ts = assms(1-4) [THEN sorted]
  have "concat (map (\<lambda>(h, es). h # es) (?bs cms secs)) = concat (map (\<lambda>(h, es). h # es) (?bs cms' secs'))"
    using assms(5) ts [THEN tidy_lines(2)]
    by (intro unlines_inj [of "CHR 0x0A"]) (simp_all add: section_text_lines)
  then have "?bs cms secs = ?bs cms' secs'"
    by (rule blocks_inj [where Q = "\<lambda>l. CHR ''='' \<in> set l"])
      (use ts [THEN tidy_lines(1)] in \<open>simp_all\<close>)
  then have "map (block ''cm:'') (sort_key fst cms) = map (block ''cm:'') (sort_key fst cms')
      \<and> map (block ''secret:'') (sort_key fst secs) = map (block ''secret:'') (sort_key fst secs')"
    by (intro span_inj [where Q = "\<lambda>b. hd (fst b) = CHR ''c''"] secret_hd) (simp_all add: list_all_iff block_def)
  then have "map (\<lambda>(n, d). (n, map_of d)) (sort_key fst cms) = map (\<lambda>(n, d). (n, map_of d)) (sort_key fst cms')
      \<and> map (\<lambda>(n, d). (n, map_of d)) (sort_key fst secs) = map (\<lambda>(n, d). (n, map_of d)) (sort_key fst secs')"
    using blocks_content ts by blast
  then have "content (sort_key fst cms) = content (sort_key fst cms') \<and> content (sort_key fst secs) = content (sort_key fst secs')"
    unfolding content_def by metis
  then show ?thesis by (simp only: content_sort)
qed

section \<open>Properties of the configuration hash\<close>

definition cm_maps :: "AppDefinition \<Rightarrow> named_map list" where
  "cm_maps appDef = map (\<lambda>cm. (cmm_Name cm, cmm_Data cm)) (spec_ConfigMaps (ad_spec appDef))"

definition secret_maps :: "AppDefinition \<Rightarrow> named_map list" where
  "secret_maps appDef =
     map (\<lambda>sec. (sec_Name sec, mount_data sec))
       (filter (\<lambda>sec. mount_data sec \<noteq> []) (spec_Secrets (ad_spec appDef)))"

lemma config_text_sections:
  "config_text appDef = section_text ''cm:'' (cm_maps appDef) @ section_text ''secret:'' (secret_maps appDef)"
proof -
  have cms: "section_text pre (map (\<lambda>cm. (cmm_Name cm, cmm_Data cm)) xs)
      = concat (map (\<lambda>cm. pre @ cmm_Name cm @ newline @ data_text (cmm_Data cm)) (sort_key cmm_Name xs))" for pre xs
    using map_sort_key [of "\<lambda>cm. (cmm_Name cm, cmm_Data cm)" fst xs]
    by (simp add: section_text_def comp_def flip: map_sort_key)
  have secs: "section_text pre (map (\<lambda>sec. (sec_Name sec, mount_data sec)) xs)
      = concat (map (\<lambda>sec. pre @ sec_Name sec @ newline @ data_text (mount_data sec)) (sort_key sec_Name xs))" for pre xs
    using map_sort_key [of "\<lambda>sec. (sec_Name sec, mount_data sec)" fst xs]
    by (simp add: section_text_def comp_def flip: map_sort_key)
  have skip: "concat (map secret_text xs) = concat (map (\<lambda>sec. ''secret:'' @ sec_Name sec @ newline @ data_text (mount_data sec))
      (filter (\<lambda>sec. mount_data sec \<noteq> []) xs))" for xs
    by (induction xs) (simp_all add: secret_text_def)
  show ?thesis
    by (simp add: config_text_def cm_maps_def secret_maps_def cms secs skip configMap_text_def [abs_def] filter_sort)
qed

lemma has_inline_maps: "hasInlineData appDef \<longleftrightarrow> secret_maps appDef \<noteq> []"
  by (auto simp: hasInlineData_def secret_maps_def list_ex_iff filter_empty_conv)

lemma content_empty: "content ps = content qs \<Longrightarrow> ps = [] \<longleftrightarrow> qs = []"
  by (auto simp: content_def)

text \<open>
  C18. The configuration hash depends on what the inline ConfigMaps and Secrets say and on nothing
  else: two specs whose mounts have distinct names, each map with one entry per key (as a Go map has),
  and the same names with the same maps, get the same hash, whatever
  the order of the mounts in the spec and the order in which Go ranges over the maps, and whatever
  the function that stands for SHA-256. No spurious rollout comes from map iteration order.
\<close>

theorem config_hash_deterministic:
  assumes "wf_named (cm_maps a)" and "wf_named (cm_maps b)"
    and "wf_named (secret_maps a)" and "wf_named (secret_maps b)"
    and "content (cm_maps a) = content (cm_maps b)"
    and "content (secret_maps a) = content (secret_maps b)"
  shows "computeConfigHash K a = computeConfigHash K b"
proof -
  have "config_text a = config_text b"
    using section_text_content [OF assms(1,2,5)] section_text_content [OF assms(3,4,6)]
    by (simp only: config_text_sections)
  moreover have "cm_maps a = [] \<longleftrightarrow> cm_maps b = []" "secret_maps a = [] \<longleftrightarrow> secret_maps b = []"
    using content_empty assms(5,6) by blast+
  ultimately show ?thesis by (simp add: computeConfigHash_def has_inline_maps) (simp add: cm_maps_def)
qed

text \<open>
  C19. The text that is hashed loses nothing: if no value of an inline ConfigMap or Secret holds a
  line feed (and names and keys hold none and no equals sign), two specs with the same text have
  the same ConfigMaps and the same Secrets. So every change of inline data changes the text, and
  the pods roll unless SHA-256 collides in its first 16 digits.
\<close>

theorem config_text_faithful:
  assumes "tidy (cm_maps a)" and "tidy (secret_maps a)"
    and "tidy (cm_maps b)" and "tidy (secret_maps b)"
    and "config_text a = config_text b"
  shows "content (cm_maps a) = content (cm_maps b) \<and> content (secret_maps a) = content (secret_maps b)"
  using text_inj [OF assms(1-4)] assms(5) by (simp add: config_text_sections)

definition example_app :: "gomap \<Rightarrow> SecretMount list \<Rightarrow> AppDefinition" where
  "example_app d secs = (zero_app ''web'' ''prod'')\<lparr>ad_spec := zero_spec\<lparr>
     spec_ConfigMaps := [\<lparr>cmm_Name = ''conf'', cmm_MountPath = ''/etc/app'', cmm_Data = d\<rparr>],
     spec_Secrets := secs\<rparr>\<rparr>"

definition example_secret :: SecretMount where
  "example_secret = \<lparr>sec_Name = ''db'', sec_MountPath = '''', sec_AsEnvVars = True,
     sec_Data = Some [(''PASS'', ''x'')], sec_SecretRef = ''''\<rparr>"

lemmas example_maps = cm_maps_def secret_maps_def example_app_def example_secret_def mount_data_def

lemma config_hash_deterministic_witness:
  "computeConfigHash mem (example_app [(''a'', ''1''), (''b'', ''2'')] [example_secret])
   = computeConfigHash mem (example_app [(''b'', ''2''), (''a'', ''1'')] [example_secret])"
  by (rule config_hash_deterministic)
    (simp_all add: example_maps wf_named_def content_def fun_upd_twist [of "''a''" "''b''"])

lemma config_text_faithful_witness:
  "content (cm_maps (example_app [(''a'', ''1''), (''b'', ''2'')] [example_secret]))
     = content (cm_maps (example_app [(''a'', ''1''), (''b'', ''2'')] [example_secret]))
   \<and> content (secret_maps (example_app [(''a'', ''1''), (''b'', ''2'')] [example_secret]))
     = content (secret_maps (example_app [(''a'', ''1''), (''b'', ''2'')] [example_secret]))"
  by (rule config_text_faithful) (simp_all add: example_maps tidy_def wf_named_def)

text \<open>
  A line feed in a value defeats the hash: the ConfigMap with the one key \<open>a\<close> whose value is
  two lines and the ConfigMap with the two keys \<open>a\<close> and \<open>b\<close> are different, and the same text is
  hashed for both, so that replacing the one by the other does not roll the pods.
\<close>

theorem config_text_newline_collision:
  "config_text (example_app [(''a'', ''1'' @ newline @ ''b=2'')] [])
     = config_text (example_app [(''a'', ''1''), (''b'', ''2'')] [])
   \<and> computeConfigHash K (example_app [(''a'', ''1'' @ newline @ ''b=2'')] [])
     = computeConfigHash K (example_app [(''a'', ''1''), (''b'', ''2'')] [])
   \<and> content (cm_maps (example_app [(''a'', ''1'' @ newline @ ''b=2'')] []))
     \<noteq> content (cm_maps (example_app [(''a'', ''1''), (''b'', ''2'')] []))"
proof -
  let ?a = "example_app [(''a'', ''1'' @ newline @ ''b=2'')] []"
  let ?b = "example_app [(''a'', ''1''), (''b'', ''2'')] []"
  have same_text: "config_text ?a = config_text ?b"
    by (simp add: config_text_def example_app_def configMap_text_def data_text_def sorted_keys_def
        map_get_def newline_def)
  moreover have "computeConfigHash K ?a = computeConfigHash K ?b"
    using same_text by (simp add: computeConfigHash_def) (simp add: example_app_def)
  moreover have "content (cm_maps ?a) \<noteq> content (cm_maps ?b)"
    by (auto simp: example_maps content_def newline_def dest: fun_cong [where x = "''b''"])
  ultimately show ?thesis by blast
qed

section \<open>Properties of the external hash\<close>

text \<open>The reads of one reconcile, when they change nothing and \<open>rd\<close> is what they return.\<close>

definition secret_reads :: "'w k8s \<Rightarrow> 'w \<Rightarrow> string \<Rightarrow> (string \<Rightarrow> Secret result) \<Rightarrow> bool" where
  "secret_reads K w ns rd \<longleftrightarrow> (\<forall>n. run_state (rget_live (k_secrets K) ns n) w = (rd n, w))"

definition synced :: "AppDefinition \<Rightarrow> (string \<Rightarrow> Secret result) \<Rightarrow> string list \<Rightarrow> (string \<times> gomap) list" where
  "synced appDef rd names =
     concat (map (\<lambda>n. case rd (childName appDef n) of Inl _ \<Rightarrow> [] | Inr s \<Rightarrow> [(n, sc_data s)]) names)"

definition synced_text :: "(string \<times> gomap) list \<Rightarrow> string" where
  "synced_text ps = concat (map (\<lambda>(n, d). ''es:'' @ n @ newline @ data_text d) ps)"

lemma synced_Cons:
  "synced appDef rd (n # names) =
     (case rd (childName appDef n) of Inl _ \<Rightarrow> [] | Inr s \<Rightarrow> [(n, sc_data s)]) @ synced appDef rd names"
  by (simp add: synced_def)

lemma run_hash_external:
  assumes "secret_reads K (world s) (ad_namespace appDef) rd"
    and "\<And>n e. n \<in> set names \<Longrightarrow> rd (childName appDef n) = Inl e \<Longrightarrow> is_not_found e"
  shows "run_state (hash_external K appDef names h found) s =
    (Inr (h @ synced_text (synced appDef rd names), found \<or> synced appDef rd names \<noteq> []), s)"
  using assms(2)
proof (induction names arbitrary: h found)
  case Nil
  then show ?case by (simp add: synced_def synced_text_def)
next
  case (Cons n names)
  have read: "run_state (rget_live (k_secrets K) (ad_namespace appDef) (childName appDef n)) (world s)
      = (rd (childName appDef n), world s)"
    using assms(1) by (simp add: secret_reads_def)
  have rest: "run_state (hash_external K appDef names h found) s =
      (Inr (h @ synced_text (synced appDef rd names), found \<or> synced appDef rd names \<noteq> []), s)" for h found
    by (rule Cons.IH, rule Cons.prems) auto
  show ?case
  proof (cases "rd (childName appDef n)")
    case (Inl e)
    moreover have "is_not_found e" by (rule Cons.prems [OF _ Inl]) simp
    ultimately show ?thesis by (simp add: read synced_Cons rest)
  next
    case (Inr sec)
    then show ?thesis by (simp add: read synced_Cons rest) (simp add: synced_text_def)
  qed
qed

text \<open>
  C35. When every Secret of \<open>spec.externalSecrets\<close> can be read or is not there yet, the external
  hash is the hash of the synced Secrets in the order of their names and of their keys, empty if
  none is synced, and computing it changes nothing.
\<close>

theorem external_hash_result:
  assumes "secret_reads K (world s) (ad_namespace appDef) rd"
    and "\<forall>es \<in> set (spec_ExternalSecrets (ad_spec appDef)). \<forall>e.
           rd (childName appDef (es_Name es)) = Inl e \<longrightarrow> is_not_found e"
  shows "run_state (externalSecretHash K appDef) s =
    (let ps = synced appDef rd (sort (map es_Name (spec_ExternalSecrets (ad_spec appDef))))
     in (Inr (if ps = [] then '''' else short_hash K (synced_text ps)), s))"
proof -
  have "run_state (hash_external K appDef (sort (map es_Name (spec_ExternalSecrets (ad_spec appDef)))) '''' False) s =
      (let ps = synced appDef rd (sort (map es_Name (spec_ExternalSecrets (ad_spec appDef))))
       in (Inr (synced_text ps, ps \<noteq> []), s))"
    unfolding Let_def by (subst run_hash_external [OF assms(1)]) (use assms(2) in auto)
  then show ?thesis by (simp add: externalSecretHash_def synced_def Let_def run_tryM)
qed

definition example_external :: AppDefinition where
  "example_external = (zero_app ''web'' ''prod'')\<lparr>ad_spec := zero_spec\<lparr>spec_ExternalSecrets :=
     [\<lparr>es_Name = ''db'', es_Store = ''vault'', es_StoreKind = '''', es_RefreshInterval = '''', es_MountPath = '''',
       es_AsEnvVars = True, es_Data = [], es_DataFrom = []\<rparr>]\<rparr>\<rparr>"

definition example_synced :: cluster where
  "example_synced = empty_cluster\<lparr>cl_secrets :=
     [\<lparr>sc_meta = object_meta ''web-db'' ''prod'', sc_type = ''Opaque'', sc_data = [(''PASS'', ''x'')]\<rparr>]\<rparr>"

lemma external_hash_result_witness:
  "\<exists>r. run_state (externalSecretHash mem example_external) (mem_st example_synced) = (Inr r, mem_st example_synced)"
proof -
  let ?rd = "\<lambda>n. fst (run_state (rget_live (k_secrets mem) ''prod'' n) example_synced)"
  have "secret_reads mem (world (mem_st example_synced)) (ad_namespace example_external) ?rd"
    by (simp add: secret_reads_def mem_client_def mem_get_def example_external_def)
  moreover have "\<forall>es \<in> set (spec_ExternalSecrets (ad_spec example_external)). \<forall>e.
      ?rd (childName example_external (es_Name es)) = Inl e \<longrightarrow> is_not_found e"
    by (simp add: example_external_def mem_client_def mem_get_def childName_def not_found_def split: option.split)
  ultimately show ?thesis by (simp only: external_hash_result Let_def) simp
qed

end
