(* ===== verification/PodTemplate.thy ===== *)
theory PodTemplate
  imports Hashing
begin

text \<open>
  The pod template of \<open>reconcile_deployment.go\<close>: volumes and mounts, containers and init
  containers, probes and the security context, all functions of the spec.
\<close>

section \<open>Volumes\<close>

definition file_mode :: int where
  "file_mode = 420"

text \<open>\<open>0644\<close>, octal, is 420.\<close>

lemma file_mode_octal: "file_mode = 6 * 8 ^ 2 + 4 * 8 + 4"
  by (simp add: file_mode_def)

definition mountedSecrets :: "AppDefinition \<Rightarrow> SecretMount list" where
  "mountedSecrets appDef = filter (\<lambda>sec. sec_MountPath sec \<noteq> '''') (spec_Secrets (ad_spec appDef))"

definition mountedExternalSecrets :: "AppDefinition \<Rightarrow> ExternalSecretMount list" where
  "mountedExternalSecrets appDef =
     filter (\<lambda>es. es_MountPath es \<noteq> '''') (spec_ExternalSecrets (ad_spec appDef))"

definition buildVolumes :: "AppDefinition \<Rightarrow> Volume list" where
  "buildVolumes appDef =
     (case spec_Disk (ad_spec appDef) of
        None \<Rightarrow> []
      | Some _ \<Rightarrow> [\<lparr>vol_Name = ''app-disk'', vol_Source = PVCSource (pvcName (ad_name appDef))\<rparr>])
     @ map (\<lambda>cm. \<lparr>vol_Name = ''cm-'' @ cmm_Name cm,
                   vol_Source = ConfigMapSource (childName appDef (cmm_Name cm)) file_mode\<rparr>)
         (spec_ConfigMaps (ad_spec appDef))
     @ map (\<lambda>sec. \<lparr>vol_Name = ''secret-'' @ sec_Name sec,
                    vol_Source = SecretSource (resolvedSecretName (ad_name appDef) sec) file_mode\<rparr>)
         (mountedSecrets appDef)
     @ map (\<lambda>es. \<lparr>vol_Name = ''es-'' @ es_Name es,
                   vol_Source = SecretSource (childName appDef (es_Name es)) file_mode\<rparr>)
         (mountedExternalSecrets appDef)"

definition buildVolumeMounts :: "AppDefinition \<Rightarrow> VolumeMount list" where
  "buildVolumeMounts appDef =
     (case spec_Disk (ad_spec appDef) of
        None \<Rightarrow> []
      | Some disk \<Rightarrow>
          map (\<lambda>p. \<lparr>vm_Name = ''app-disk'', vm_MountPath = dp_MountPath p, vm_SubPath = dp_SubPath p\<rparr>)
            (disk_Partitions disk))
     @ map (\<lambda>cm. \<lparr>vm_Name = ''cm-'' @ cmm_Name cm, vm_MountPath = cmm_MountPath cm, vm_SubPath = ''''\<rparr>)
         (spec_ConfigMaps (ad_spec appDef))
     @ map (\<lambda>sec. \<lparr>vm_Name = ''secret-'' @ sec_Name sec, vm_MountPath = sec_MountPath sec, vm_SubPath = ''''\<rparr>)
         (mountedSecrets appDef)
     @ map (\<lambda>es. \<lparr>vm_Name = ''es-'' @ es_Name es, vm_MountPath = es_MountPath es, vm_SubPath = ''''\<rparr>)
         (mountedExternalSecrets appDef)"

section \<open>Probes and security context\<close>

definition default_to :: "int \<Rightarrow> int \<Rightarrow> int" where
  "default_to d n = (if n = 0 then d else n)"

text \<open>
  The Go function also writes the default scheme through the pointer it shares with the spec; no
  code reads that field of the in-memory spec again.
\<close>

definition buildProbe :: "Probe \<Rightarrow> KubeProbe" where
  "buildProbe p =
     \<lparr>kp_HTTPGet = map_option (\<lambda>h. if hg_Scheme h = '''' then h\<lparr>hg_Scheme := ''HTTP''\<rparr> else h) (pr_HTTPGet p),
      kp_TCPSocket = pr_TCPSocket p,
      kp_Exec = pr_Exec p,
      kp_InitialDelaySeconds = pr_InitialDelaySeconds p,
      kp_PeriodSeconds = default_to 10 (pr_PeriodSeconds p),
      kp_TimeoutSeconds = default_to 1 (pr_TimeoutSeconds p),
      kp_FailureThreshold = default_to 3 (pr_FailureThreshold p),
      kp_SuccessThreshold = default_to 1 (pr_SuccessThreshold p)\<rparr>"

definition securityContext :: "AppDefinition \<Rightarrow> PodSecurityContext option" where
  "securityContext appDef =
     (let sc = spec_SecurityContext (ad_spec appDef)
      in case spec_Disk (ad_spec appDef) of
           None \<Rightarrow> sc
         | Some disk \<Rightarrow>
             if \<not> disk_SetFsGroup disk then sc
             else (case sc of
                     None \<Rightarrow> Some \<lparr>psc_FSGroup = Some 1000, psc_rest = JObj []\<rparr>
                   | Some c \<Rightarrow>
                       if psc_FSGroup c \<noteq> None then Some c else Some (c\<lparr>psc_FSGroup := Some 1000\<rparr>)))"

section \<open>Containers\<close>

definition buildPorts :: "PortSpec list \<Rightarrow> ContainerPort list" where
  "buildPorts ports =
     map (\<lambda>p. \<lparr>cp_Name = port_Name p, cp_ContainerPort = port_ContainerPort p,
                cp_Protocol = (if port_Protocol p = '''' then ''TCP'' else port_Protocol p)\<rparr>) ports"

definition given_resources :: "ResourceRequirements \<Rightarrow> ResourceRequirements" where
  "given_resources r = (if rq_Requests r \<noteq> [] \<or> rq_Limits r \<noteq> [] then r else no_resources)"

text \<open>The hooks of \<open>spec.lifecycle\<close> that have an \<open>exec\<close>; a lifecycle with neither is not set.\<close>

definition hook_exec :: "LifecycleHook option \<Rightarrow> exec_action option" where
  "hook_exec h = (case h of None \<Rightarrow> None | Some h \<Rightarrow> lh_Exec h)"

definition buildLifecycle :: "AppDefinition \<Rightarrow> bool \<Rightarrow> Lifecycle option" where
  "buildLifecycle appDef isPrimary =
     (case spec_Lifecycle (ad_spec appDef) of
        None \<Rightarrow> None
      | Some l \<Rightarrow>
          if \<not> isPrimary then None
          else (let lc = \<lparr>lcy_PostStart = hook_exec (lc_PostStart l), lcy_PreStop = hook_exec (lc_PreStop l)\<rparr>
                in if lcy_PostStart lc \<noteq> None \<or> lcy_PreStop lc \<noteq> None then Some lc else None))"

definition buildEnvFrom :: "AppDefinition \<Rightarrow> string list" where
  "buildEnvFrom appDef =
     map (resolvedSecretName (ad_name appDef)) (filter sec_AsEnvVars (spec_Secrets (ad_spec appDef)))
     @ map (\<lambda>es. childName appDef (es_Name es)) (filter es_AsEnvVars (spec_ExternalSecrets (ad_spec appDef)))"

definition buildContainer :: "AppDefinition \<Rightarrow> ContainerSpec \<Rightarrow> bool \<Rightarrow> Container" where
  "buildContainer appDef c isPrimary =
     \<lparr>c_Name = cs_Name c, c_Image = cs_Image c, c_Command = cs_Command c, c_Args = cs_Args c,
      c_Env = cs_Env c,
      c_Ports = buildPorts (cs_Ports c),
      c_ReadinessProbe = map_option buildProbe (cs_ReadinessProbe c),
      c_LivenessProbe = map_option buildProbe (cs_LivenessProbe c),
      c_Resources = given_resources (cs_Resources c),
      c_Lifecycle = buildLifecycle appDef isPrimary,
      c_EnvFrom = buildEnvFrom appDef,
      c_VolumeMounts = buildVolumeMounts appDef,
      c_ImagePullPolicy = ''IfNotPresent'',
      c_TerminationMessagePath = ''/dev/termination-log'',
      c_TerminationMessagePolicy = ''File''\<rparr>"

definition buildContainers :: "AppDefinition \<Rightarrow> Container list" where
  "buildContainers appDef =
     map (\<lambda>(i, c). buildContainer appDef c (i = 0)) (enumerate 0 (spec_Containers (ad_spec appDef)))"

definition buildInitContainer :: "AppDefinition \<Rightarrow> InitContainerSpec \<Rightarrow> Container" where
  "buildInitContainer appDef c =
     \<lparr>c_Name = ic_Name c, c_Image = ic_Image c, c_Command = ic_Command c, c_Args = ic_Args c,
      c_Env = ic_Env c, c_Ports = [], c_ReadinessProbe = None, c_LivenessProbe = None,
      c_Resources = given_resources (ic_Resources c), c_Lifecycle = None,
      c_EnvFrom = buildEnvFrom appDef, c_VolumeMounts = buildVolumeMounts appDef,
      c_ImagePullPolicy = ''IfNotPresent'',
      c_TerminationMessagePath = ''/dev/termination-log'',
      c_TerminationMessagePolicy = ''File''\<rparr>"

definition buildInitContainers :: "AppDefinition \<Rightarrow> Container list" where
  "buildInitContainers appDef = map (buildInitContainer appDef) (spec_InitContainers (ad_spec appDef))"

section \<open>Lemmas\<close>

lemma length_buildContainers [simp]:
  "length (buildContainers appDef) = length (spec_Containers (ad_spec appDef))"
  by (simp add: buildContainers_def)

lemma nth_buildContainers:
  "i < length (spec_Containers (ad_spec appDef)) \<Longrightarrow>
   buildContainers appDef ! i = buildContainer appDef (spec_Containers (ad_spec appDef) ! i) (i = 0)"
  by (simp add: buildContainers_def nth_enumerate_eq)

lemma mount_volume: "vm_Name ` set (buildVolumeMounts appDef) \<subseteq> vol_Name ` set (buildVolumes appDef)"
  by (cases "spec_Disk (ad_spec appDef)")
    (simp_all add: buildVolumeMounts_def buildVolumes_def image_Un image_image image_subset_iff)

lemma distinct_prefix: "distinct (map (\<lambda>x. (p :: string) @ f x) xs) \<longleftrightarrow> distinct (map f xs)"
  by (simp add: distinct_map inj_on_def)

lemma volume_names_distinct_iff:
  "distinct (map vol_Name (buildVolumes appDef)) \<longleftrightarrow>
     distinct (map cmm_Name (spec_ConfigMaps (ad_spec appDef)))
     \<and> distinct (map sec_Name (mountedSecrets appDef))
     \<and> distinct (map es_Name (mountedExternalSecrets appDef))"
proof -
  have names: "map vol_Name (buildVolumes appDef) =
      (case spec_Disk (ad_spec appDef) of None \<Rightarrow> [] | Some _ \<Rightarrow> [''app-disk''])
      @ map (\<lambda>cm. ''cm-'' @ cmm_Name cm) (spec_ConfigMaps (ad_spec appDef))
      @ map (\<lambda>sec. ''secret-'' @ sec_Name sec) (mountedSecrets appDef)
      @ map (\<lambda>es. ''es-'' @ es_Name es) (mountedExternalSecrets appDef)"
    by (simp add: buildVolumes_def comp_def split: option.split)
  show ?thesis
    using distinct_prefix [of "''cm-''" cmm_Name "spec_ConfigMaps (ad_spec appDef)"]
      distinct_prefix [of "''secret-''" sec_Name "mountedSecrets appDef"]
      distinct_prefix [of "''es-''" es_Name "mountedExternalSecrets appDef"]
    by (cases "spec_Disk (ad_spec appDef)") (auto simp: names)
qed

section \<open>Properties\<close>

text \<open>
  C27. Every volume mount of every container and init container names a volume of the same pod, all
  of them share one list of mounts, and the names of the volumes are distinct exactly when the
  ConfigMaps, the mounted Secrets and the mounted external Secrets have distinct names among
  themselves: the prefixes keep the three kinds and the disk apart.
\<close>

theorem pod_mounts_resolve:
  "list_all (\<lambda>c. list_all (\<lambda>vm. vm_Name vm \<in> vol_Name ` set (buildVolumes appDef)) (c_VolumeMounts c)
              \<and> c_VolumeMounts c = buildVolumeMounts appDef)
     (buildInitContainers appDef @ buildContainers appDef)
   \<and> (distinct (map vol_Name (buildVolumes appDef)) \<longleftrightarrow>
        distinct (map cmm_Name (spec_ConfigMaps (ad_spec appDef)))
        \<and> distinct (map sec_Name (mountedSecrets appDef))
        \<and> distinct (map es_Name (mountedExternalSecrets appDef)))"
proof (intro conjI)
  show "list_all (\<lambda>c. list_all (\<lambda>vm. vm_Name vm \<in> vol_Name ` set (buildVolumes appDef)) (c_VolumeMounts c)
              \<and> c_VolumeMounts c = buildVolumeMounts appDef)
     (buildInitContainers appDef @ buildContainers appDef)"
    using mount_volume [of appDef]
    by (auto simp: list_all_iff buildInitContainers_def buildContainers_def buildInitContainer_def
        buildContainer_def)
qed (rule volume_names_distinct_iff)

text \<open>
  The hooks of \<open>spec.lifecycle\<close> go to the first container and to no other; init containers
  have no hooks, no ports and no probes; containers keep their order, names and images.
\<close>

theorem lifecycle_on_primary_only:
  "map c_Name (buildContainers appDef) = map cs_Name (spec_Containers (ad_spec appDef))
   \<and> map c_Image (buildContainers appDef) = map cs_Image (spec_Containers (ad_spec appDef))
   \<and> map c_Lifecycle (take 1 (buildContainers appDef))
       = map (\<lambda>_. buildLifecycle appDef True) (take 1 (spec_Containers (ad_spec appDef)))
   \<and> list_all (\<lambda>c. c_Lifecycle c = None) (drop 1 (buildContainers appDef))
   \<and> list_all (\<lambda>c. c_Lifecycle c = None \<and> c_Ports c = [] \<and> c_ReadinessProbe c = None
                  \<and> c_LivenessProbe c = None) (buildInitContainers appDef)
   \<and> map c_Name (buildInitContainers appDef) = map ic_Name (spec_InitContainers (ad_spec appDef))"
proof -
  have rest: "list_all (\<lambda>c. c_Lifecycle c = None)
      (map (\<lambda>(i, c). buildContainer appDef c (i = 0)) (enumerate (Suc n) cs))" for n cs
    by (induction cs arbitrary: n)
      (auto simp: buildContainer_def buildLifecycle_def split: option.splits)
  have names: "map f (map (\<lambda>(i, c). buildContainer appDef c (i = 0)) (enumerate n cs)) = map g cs"
    if "\<And>c b. f (buildContainer appDef c b) = g c" for n cs and f :: "Container \<Rightarrow> string" and g
    using that by (induction cs arbitrary: n) auto
  have "map c_Lifecycle (take 1 (buildContainers appDef))
        = map (\<lambda>_. buildLifecycle appDef True) (take 1 (spec_Containers (ad_spec appDef)))
      \<and> list_all (\<lambda>c. c_Lifecycle c = None) (drop 1 (buildContainers appDef))"
  proof (cases "spec_Containers (ad_spec appDef)")
    case (Cons c cs)
    then have "buildContainers appDef
        = buildContainer appDef c True # map (\<lambda>(i, c). buildContainer appDef c (i = 0)) (enumerate (Suc 0) cs)"
      by (simp add: buildContainers_def)
    then show ?thesis using rest [of 0 cs] Cons by (simp add: buildContainer_def [of appDef c])
  qed (simp add: buildContainers_def)
  moreover have "map c_Name (buildContainers appDef) = map cs_Name (spec_Containers (ad_spec appDef))"
    and "map c_Image (buildContainers appDef) = map cs_Image (spec_Containers (ad_spec appDef))"
    unfolding buildContainers_def by (rule names, simp add: buildContainer_def)+
  moreover have "list_all (\<lambda>c. c_Lifecycle c = None \<and> c_Ports c = [] \<and> c_ReadinessProbe c = None
      \<and> c_LivenessProbe c = None) (buildInitContainers appDef)"
    and "map c_Name (buildInitContainers appDef) = map ic_Name (spec_InitContainers (ad_spec appDef))"
    by (simp_all add: buildInitContainers_def list_all_iff buildInitContainer_def)
  ultimately show ?thesis by blast
qed

text \<open>
  The security context: without \<open>disk.setFsGroup\<close> it is the user's, unchanged; with it there
  is a context with a group, the user's own group if one is given and 1000 otherwise, and
  everything else in the user's context is kept.
\<close>

theorem securityContext_cases:
  "securityContext appDef =
     (if \<exists>disk. spec_Disk (ad_spec appDef) = Some disk \<and> disk_SetFsGroup disk
      then Some (case spec_SecurityContext (ad_spec appDef) of
             None \<Rightarrow> \<lparr>psc_FSGroup = Some 1000, psc_rest = JObj []\<rparr>
           | Some c \<Rightarrow> c\<lparr>psc_FSGroup := Some (case psc_FSGroup c of None \<Rightarrow> 1000 | Some g \<Rightarrow> g)\<rparr>)
      else spec_SecurityContext (ad_spec appDef))"
  by (auto simp: securityContext_def Let_def split: option.splits)

end
