(* ===== verification/Workload.thy ===== *)
theory Workload
  imports PodTemplate
begin

text \<open>
  \<open>reconcileDeployment\<close> of \<open>reconcile_deployment.go\<close>: the function given to \<open>CreateOrUpdate\<close>,
  which edits a new or an existing Deployment, and the retried call around it.
\<close>

section \<open>The Deployment\<close>

definition deploymentStrategy :: "AppDefinition \<Rightarrow> DeploymentStrategy" where
  "deploymentStrategy appDef =
     \<lparr>ds_Type = (if isStateful appDef then ''Recreate'' else ''RollingUpdate''), ds_RollingUpdate = None\<rparr>"

definition configHashAnnotation :: string where
  "configHashAnnotation = ''appdefinition.abexamir.me/config-hash''"

definition externalSecretHashAnnotation :: string where
  "externalSecretHashAnnotation = ''appdefinition.abexamir.me/external-secret-hash''"

definition podTemplateAnnotations :: "'w k8s \<Rightarrow> AppDefinition \<Rightarrow> string \<Rightarrow> gomap" where
  "podTemplateAnnotations K appDef esHash =
     (let hash = computeConfigHash K appDef
      in if hash = '''' \<and> esHash = '''' then []
         else (if hash \<noteq> '''' then [(configHashAnnotation, hash)] else [])
            @ (if esHash \<noteq> '''' then [(externalSecretHashAnnotation, esHash)] else []))"

definition empty_pod :: PodSpec where
  "empty_pod =
     \<lparr>pod_SecurityContext = None, pod_ServiceAccountName = '''', pod_NodeSelector = [],
      pod_Tolerations = [], pod_Affinity = None, pod_ImagePullSecrets = [], pod_Volumes = [],
      pod_InitContainers = [], pod_Containers = [], pod_rest = JObj []\<rparr>"

definition empty_deployment :: "ObjectMeta \<Rightarrow> Deployment" where
  "empty_deployment m =
     \<lparr>dep_meta = m, dep_Replicas = None, dep_Strategy = \<lparr>ds_Type = '''', ds_RollingUpdate = None\<rparr>,
      dep_Selector = None, dep_TemplateLabels = [], dep_TemplateAnnotations = [],
      dep_PodSpec = empty_pod, dep_rest = JObj [], dep_ReadyReplicas = 0\<rparr>"

definition mutatePodSpec :: "AppDefinition \<Rightarrow> PodSpec \<Rightarrow> PodSpec" where
  "mutatePodSpec appDef p =
     p\<lparr>pod_SecurityContext := securityContext appDef,
       pod_ServiceAccountName := spec_ServiceAccountName (ad_spec appDef),
       pod_NodeSelector := spec_NodeSelector (ad_spec appDef),
       pod_Tolerations := spec_Tolerations (ad_spec appDef),
       pod_Affinity := spec_Affinity (ad_spec appDef),
       pod_ImagePullSecrets := spec_ImagePullSecrets (ad_spec appDef),
       pod_Volumes := buildVolumes appDef,
       pod_InitContainers := buildInitContainers appDef,
       pod_Containers := buildContainers appDef\<rparr>"

definition wantedReplicas :: "AppDefinition \<Rightarrow> int" where
  "wantedReplicas appDef = (case spec_Replicas (ad_spec appDef) of None \<Rightarrow> 1 | Some n \<Rightarrow> n)"

definition mutateDeployment :: "'w k8s \<Rightarrow> AppDefinition \<Rightarrow> string \<Rightarrow> Deployment \<Rightarrow> Deployment result" where
  "mutateDeployment K appDef esHash d =
     (let m = (dep_meta d)\<lparr>m_labels := standardLabels (ad_name appDef)\<rparr>;
          d = d\<lparr>dep_meta := m,
                dep_Replicas := Some (wantedReplicas appDef),
                dep_Strategy := deploymentStrategy appDef,
                dep_Selector := (if dep_Selector d = None then Some (selectorLabels (ad_name appDef))
                                 else dep_Selector d),
                dep_TemplateLabels := selectorLabels (ad_name appDef),
                dep_TemplateAnnotations := podTemplateAnnotations K appDef esHash,
                dep_PodSpec := mutatePodSpec appDef (dep_PodSpec d)\<rparr>
      in case set_controller_reference K appDef m of
           Inl e \<Rightarrow> Inl e
         | Inr m \<Rightarrow> Inr (d\<lparr>dep_meta := m\<rparr>))"

definition reconcileDeployment :: "'w k8s \<Rightarrow> AppDefinition \<Rightarrow> ('w, unit result) prog" where
  "reconcileDeployment K appDef =
     tryM (externalSecretHash K appDef) (Wrap ''computing external secret hash'') (\<lambda>esHash.
     tryM (k_retryOnConflict K
             (tryM (create_or_update (k_deployments K) DeploymentK dep_meta
                      (empty_deployment (object_meta (ad_name appDef) (ad_namespace appDef)))
                      (mutateDeployment K appDef esHash)) id (\<lambda>_. ret ())))
       (Wrap ''failed to reconcile Deployment'') ret)"

section \<open>Writes\<close>

text \<open>A write of the one object of kind \<open>k\<close> that carries the application's own name.\<close>

definition own_write :: "kind \<Rightarrow> string \<Rightarrow> string \<Rightarrow> api_write \<Rightarrow> bool" where
  "own_write k name ns e =
     (case e of
        WCreate k' m \<Rightarrow> k' = k \<and> m_name m = name \<and> m_namespace m = ns
      | WUpdate k' m \<Rightarrow> k' = k \<and> m_name m = name \<and> m_namespace m = ns
      | WCreateOrUpdate k' m \<Rightarrow> k' = k \<and> m_name m = name \<and> m_namespace m = ns
      | _ \<Rightarrow> False)"

lemma own_write_simps [simp]:
  "own_write k n ns (WCreate k' m) \<longleftrightarrow> k' = k \<and> m_name m = n \<and> m_namespace m = ns"
  "own_write k n ns (WUpdate k' m) \<longleftrightarrow> k' = k \<and> m_name m = n \<and> m_namespace m = ns"
  "own_write k n ns (WCreateOrUpdate k' m) \<longleftrightarrow> k' = k \<and> m_name m = n \<and> m_namespace m = ns"
  by (simp_all add: own_write_def)

lemma only_writes_reconcileDeployment:
  assumes "retry_law K"
  shows "only_writes (own_write DeploymentK (ad_name appDef) (ad_namespace appDef)) (reconcileDeployment K appDef)"
  unfolding reconcileDeployment_def
  by (auto intro!: hoare only_writes_retry [OF assms] simp: empty_deployment_def)

section \<open>What the edit keeps and sets\<close>

lemma mutateDeployment_ok:
  "mutateDeployment K appDef h d = Inr d' \<Longrightarrow>
   \<exists>refs. k_setControllerReference K (ad_meta appDef) ((dep_meta d)\<lparr>m_labels := standardLabels (ad_name appDef)\<rparr>) = Inr refs
     \<and> d' = d\<lparr>dep_meta := (dep_meta d)\<lparr>m_labels := standardLabels (ad_name appDef), m_ownerRefs := refs\<rparr>,
           dep_Replicas := Some (wantedReplicas appDef),
           dep_Strategy := deploymentStrategy appDef,
           dep_Selector := (if dep_Selector d = None then Some (selectorLabels (ad_name appDef)) else dep_Selector d),
           dep_TemplateLabels := selectorLabels (ad_name appDef),
           dep_TemplateAnnotations := podTemplateAnnotations K appDef h,
           dep_PodSpec := mutatePodSpec appDef (dep_PodSpec d)\<rparr>"
  by (auto simp: mutateDeployment_def set_controller_reference_def Let_def split: sum.splits)

text \<open>
  \<open>SetControllerReference\<close>, documented: it adds or replaces the owner's entry, so it leaves
  references it has set as they are.
\<close>

definition controller_reference_law :: "'w k8s \<Rightarrow> bool" where
  "controller_reference_law K \<longleftrightarrow>
     (\<forall>owner m m' refs. k_setControllerReference K owner m = Inr refs \<longrightarrow>
        m_namespace m' = m_namespace m \<longrightarrow> m_name m' = m_name m \<longrightarrow> m_ownerRefs m' = refs \<longrightarrow>
        k_setControllerReference K owner m' = Inr refs)"

lemma mutatePodSpec_idem [simp]: "mutatePodSpec appDef (mutatePodSpec appDef p) = mutatePodSpec appDef p"
  by (simp add: mutatePodSpec_def)

section \<open>Properties\<close>

text \<open>
  C16. The edit settles: applied to its own result it changes nothing, so a second reconcile with
  the same spec and the same synced Secrets finds no difference of its own making. It never
  changes a selector that is set (the API server would refuse), and keeps the fields of the
  Deployment and of its pod spec the operator does not own.
\<close>

theorem mutateDeployment_stable:
  assumes "controller_reference_law K" and "mutateDeployment K appDef h d = Inr d'"
  shows "mutateDeployment K appDef h d' = Inr d'
    \<and> (dep_Selector d \<noteq> None \<longrightarrow> dep_Selector d' = dep_Selector d)
    \<and> dep_Selector d' \<noteq> None
    \<and> dep_rest d' = dep_rest d \<and> pod_rest (dep_PodSpec d') = pod_rest (dep_PodSpec d)
    \<and> m_annotations (dep_meta d') = m_annotations (dep_meta d)
    \<and> m_resourceVersion (dep_meta d') = m_resourceVersion (dep_meta d)"
proof -
  obtain refs where refs: "k_setControllerReference K (ad_meta appDef)
        ((dep_meta d)\<lparr>m_labels := standardLabels (ad_name appDef)\<rparr>) = Inr refs"
    and d': "d' = d\<lparr>dep_meta := (dep_meta d)\<lparr>m_labels := standardLabels (ad_name appDef), m_ownerRefs := refs\<rparr>,
           dep_Replicas := Some (wantedReplicas appDef),
           dep_Strategy := deploymentStrategy appDef,
           dep_Selector := (if dep_Selector d = None then Some (selectorLabels (ad_name appDef)) else dep_Selector d),
           dep_TemplateLabels := selectorLabels (ad_name appDef),
           dep_TemplateAnnotations := podTemplateAnnotations K appDef h,
           dep_PodSpec := mutatePodSpec appDef (dep_PodSpec d)\<rparr>"
    using mutateDeployment_ok [OF assms(2)] by blast
  have again: "k_setControllerReference K (ad_meta appDef)
      ((dep_meta d)\<lparr>m_labels := standardLabels (ad_name appDef), m_ownerRefs := refs\<rparr>) = Inr refs"
    using assms(1) refs unfolding controller_reference_law_def by (metis ObjectMeta.select_convs ObjectMeta.update_convs ObjectMeta.surjective)
  have "(dep_meta d')\<lparr>m_labels := standardLabels (ad_name appDef)\<rparr> = dep_meta d'"
    and "set_controller_reference K appDef (dep_meta d') = Inr (dep_meta d')"
    and "Some (wantedReplicas appDef) = dep_Replicas d'"
    and "deploymentStrategy appDef = dep_Strategy d'"
    and "selectorLabels (ad_name appDef) = dep_TemplateLabels d'"
    and "podTemplateAnnotations K appDef h = dep_TemplateAnnotations d'"
    and "mutatePodSpec appDef (dep_PodSpec d') = dep_PodSpec d'"
    and "dep_Selector d' \<noteq> None"
    using again by (simp_all add: d' set_controller_reference_def)
  then have "mutateDeployment K appDef h d' = Inr d'"
    by (simp add: mutateDeployment_def Let_def)
  then show ?thesis by (simp add: d') (simp add: mutatePodSpec_def)
qed

text \<open>
  The pods roll exactly when a hash changes: the annotations of the template determine both
  hashes and are determined by them.
\<close>

theorem template_annotations_faithful:
  "podTemplateAnnotations K a h = podTemplateAnnotations K b h'
     \<longleftrightarrow> computeConfigHash K a = computeConfigHash K b \<and> h = h'"
  by (auto simp: podTemplateAnnotations_def Let_def configHashAnnotation_def externalSecretHashAnnotation_def
      split: if_splits)

text \<open>
  A stateful application is never rolled: with a disk the strategy is \<open>Recreate\<close>, so the old
  pod releases the volume before the new one starts, and without one it is \<open>RollingUpdate\<close>. The
  number of replicas is the one of the spec, or 1, even while autoscaling is enabled: every
  reconcile takes the Deployment back from the autoscaler.
\<close>

theorem deployment_replicas_and_strategy:
  assumes "mutateDeployment K appDef h d = Inr d'"
  shows "(ds_Type (dep_Strategy d') = ''Recreate'' \<longleftrightarrow> spec_Disk (ad_spec appDef) \<noteq> None)
    \<and> (ds_Type (dep_Strategy d') = ''RollingUpdate'' \<longleftrightarrow> spec_Disk (ad_spec appDef) = None)
    \<and> dep_Replicas d' = Some (case spec_Replicas (ad_spec appDef) of None \<Rightarrow> 1 | Some n \<Rightarrow> n)"
  using mutateDeployment_ok [OF assms]
  by (cases "spec_Disk (ad_spec appDef)") (auto simp: deploymentStrategy_def isStateful_def wantedReplicas_def)

text \<open>
  The edit undoes defaults the API server has filled in: on a Deployment of a stateless
  application that carries the defaulted rolling-update parameters, or a pod security context
  where the spec gives none, its result always differs from its input, so that
  \<open>CreateOrUpdate\<close> sends an update on every reconcile.
\<close>

theorem mutateDeployment_spurious_diff:
  assumes "mutateDeployment K appDef h d = Inr d'"
    and "ds_RollingUpdate (dep_Strategy d) \<noteq> None
      \<or> (pod_SecurityContext (dep_PodSpec d) \<noteq> None \<and> securityContext appDef = None)"
  shows "d' \<noteq> d"
proof
  assume "d' = d"
  moreover have "ds_RollingUpdate (dep_Strategy d') = None"
    and "pod_SecurityContext (dep_PodSpec d') = securityContext appDef"
    using mutateDeployment_ok [OF assms(1)] by (auto simp: deploymentStrategy_def mutatePodSpec_def)
  ultimately show False using assms(2) by auto
qed

section \<open>Concrete instances\<close>

lemma mem_owner_ref_set: "mem_setControllerReference owner m = Inr refs \<Longrightarrow> mem_owner_ref owner \<in> set refs"
  by (auto simp: mem_setControllerReference_def split: if_splits)

lemma mem_controller_reference_law: "controller_reference_law mem"
  unfolding controller_reference_law_def mem_simps
  by (intro allI impI) (drule mem_owner_ref_set, simp add: mem_setControllerReference_def)

definition example_deployment :: Deployment where
  "example_deployment = (empty_deployment (object_meta ''web'' ''prod''))\<lparr>
     dep_Strategy := \<lparr>ds_Type = ''RollingUpdate'', ds_RollingUpdate = Some JNull\<rparr>\<rparr>"

lemma example_mutated:
  "\<exists>d'. mutateDeployment mem (zero_app ''web'' ''prod'') '''' example_deployment = Inr d'"
  by (simp add: mutateDeployment_def set_controller_reference_def mem_setControllerReference_def
      example_deployment_def empty_deployment_def Let_def)

lemma mutateDeployment_stable_witness:
  "\<exists>d'. mutateDeployment mem (zero_app ''web'' ''prod'') '''' example_deployment = Inr d'
      \<and> mutateDeployment mem (zero_app ''web'' ''prod'') '''' d' = Inr d'"
  using example_mutated mutateDeployment_stable [OF mem_controller_reference_law] by blast

lemma deployment_replicas_and_strategy_witness:
  "\<exists>d'. mutateDeployment mem (zero_app ''web'' ''prod'') '''' example_deployment = Inr d' \<and> dep_Replicas d' = Some 1"
proof -
  obtain d' where d': "mutateDeployment mem (zero_app ''web'' ''prod'') '''' example_deployment = Inr d'"
    using example_mutated by blast
  then show ?thesis using deployment_replicas_and_strategy [OF d'] by simp
qed

lemma mutateDeployment_spurious_diff_witness:
  "\<exists>d'. mutateDeployment mem (zero_app ''web'' ''prod'') '''' example_deployment = Inr d' \<and> d' \<noteq> example_deployment"
proof -
  obtain d' where d': "mutateDeployment mem (zero_app ''web'' ''prod'') '''' example_deployment = Inr d'"
    using example_mutated by blast
  then show ?thesis using mutateDeployment_spurious_diff [OF d'] by (simp add: example_deployment_def)
qed

end
