(* ===== verification/Network.thy ===== *)
theory Network
  imports Workload
begin

text \<open>
  \<open>reconcile_service.go\<close> and \<open>reconcile_servicemonitor.go\<close>: the Service of the exposed ports, and
  the ServiceMonitor of the ports with metrics.
\<close>

section \<open>Service\<close>

definition all_ports :: "AppDefinition \<Rightarrow> PortSpec list" where
  "all_ports appDef = concat (map cs_Ports (spec_Containers (ad_spec appDef)))"

definition exposedPorts :: "AppDefinition \<Rightarrow> PortSpec list" where
  "exposedPorts appDef = filter port_Expose (all_ports appDef)"

definition empty_service :: "ObjectMeta \<Rightarrow> Service" where
  "empty_service m = \<lparr>svc_meta = m, svc_Type = '''', svc_Selector = [], svc_Ports = [], svc_rest = JObj []\<rparr>"

definition servicePort :: "PortSpec \<Rightarrow> ServicePort" where
  "servicePort p =
     \<lparr>sp_Name = port_Name p, sp_Port = port_ServicePort p, sp_TargetPort = port_ContainerPort p,
      sp_Protocol = (if port_Protocol p = '''' then ''TCP'' else port_Protocol p)\<rparr>"

definition mutateService :: "'w k8s \<Rightarrow> AppDefinition \<Rightarrow> Service \<Rightarrow> Service result" where
  "mutateService K appDef service =
     (let m = (svc_meta service)\<lparr>m_labels := standardLabels (ad_name appDef)\<rparr>;
          service = service\<lparr>svc_meta := m,
            svc_Type := (if spec_ServiceType (ad_spec appDef) \<noteq> '''' then spec_ServiceType (ad_spec appDef)
                         else ''ClusterIP''),
            svc_Selector := selectorLabels (ad_name appDef),
            svc_Ports := map servicePort (exposedPorts appDef)\<rparr>
      in case set_controller_reference K appDef m of
           Inl e \<Rightarrow> Inl e
         | Inr m \<Rightarrow> Inr (service\<lparr>svc_meta := m\<rparr>))"

definition reconcileService :: "'w k8s \<Rightarrow> AppDefinition \<Rightarrow> ('w, unit result) prog" where
  "reconcileService K appDef =
     (if exposedPorts appDef = [] then do {
        r \<leftarrow> lift (rget (k_services K) (ad_namespace appDef) (ad_name appDef));
        case r of
          Inl e \<Rightarrow> if is_not_found e then ret () else fail (Wrap ''checking for stale Service'' e)
        | Inr existing \<Rightarrow> do {
            d \<leftarrow> do_delete (k_services K) ServiceK svc_meta existing;
            case ignore_not_found d of
              Inl e \<Rightarrow> fail (Wrap ''deleting stale Service'' e)
            | Inr _ \<Rightarrow> do { recordManagedResourcePrune ''Service''; ret () } } }
      else
        tryM (create_or_update (k_services K) ServiceK svc_meta
                (empty_service (object_meta (ad_name appDef) (ad_namespace appDef))) (mutateService K appDef))
          (Wrap ''failed to reconcile Service'') (\<lambda>_. ret ()))"

section \<open>ServiceMonitor\<close>

definition serviceMonitorGVK :: GVK where
  "serviceMonitorGVK = \<lparr>g_group = ''monitoring.coreos.com'', g_version = ''v1'', g_kind = ''ServiceMonitor''\<rparr>"

definition metrics_on :: "PortSpec \<Rightarrow> bool" where
  "metrics_on p \<longleftrightarrow> (case port_Metrics p of None \<Rightarrow> False | Some m \<Rightarrow> mt_Enabled m)"

definition port_labels :: "PortSpec \<Rightarrow> gomap" where
  "port_labels p = (case port_Metrics p of None \<Rightarrow> [] | Some m \<Rightarrow> mt_Labels m)"

definition buildSMLabels :: "AppDefinition \<Rightarrow> gomap" where
  "buildSMLabels appDef =
     foldl (\<lambda>labels p. map_merge labels (port_labels p))
       (map_merge [] (standardLabels (ad_name appDef))) (filter metrics_on (all_ports appDef))"

definition smEndpoint :: "PortSpec \<Rightarrow> gojson" where
  "smEndpoint p =
     (case port_Metrics p of
        None \<Rightarrow> JNull
      | Some m \<Rightarrow>
          JObj ([(''port'', JStr (port_Name p)),
                 (''path'', JStr (if mt_Path m = '''' then ''/metrics'' else mt_Path m))]
                @ (if mt_Interval m \<noteq> '''' then [(''interval'', JStr (mt_Interval m))] else [])))"

text \<open>The loop of \<open>buildSMEndpoints\<close>; \<open>seen\<close> is its set of port names.\<close>

fun sm_endpoints :: "string list \<Rightarrow> PortSpec list \<Rightarrow> PortSpec list" where
  "sm_endpoints seen [] = []"
| "sm_endpoints seen (p # ps) =
     (if \<not> metrics_on p \<or> port_Name p \<in> set seen then sm_endpoints seen ps
      else p # sm_endpoints (port_Name p # seen) ps)"

definition monitoredPorts :: "AppDefinition \<Rightarrow> PortSpec list" where
  "monitoredPorts appDef = sm_endpoints [] (all_ports appDef)"

definition buildSMEndpoints :: "AppDefinition \<Rightarrow> gojson list" where
  "buildSMEndpoints appDef = map smEndpoint (monitoredPorts appDef)"

definition desiredServiceMonitor :: "AppDefinition \<Rightarrow> Unstructured" where
  "desiredServiceMonitor appDef =
     \<lparr>u_apiVersion = ''monitoring.coreos.com/v1'', u_kind = ''ServiceMonitor'',
      u_meta = (object_meta (serviceMonitorName (ad_name appDef)) (ad_namespace appDef))
                 \<lparr>m_labels := buildSMLabels appDef\<rparr>,
      u_fields =
        [(''spec'', JObj
           [(''selector'', JObj [(''matchLabels'', JObj [(''app.kubernetes.io/name'', JStr (ad_name appDef))])]),
            (''endpoints'', JList (buildSMEndpoints appDef)),
            (''namespaceSelector'', JObj [(''matchNames'', JList [JStr (ad_namespace appDef)])])])]\<rparr>"

text \<open>\<open>ctrl.SetControllerReference(appDef, desired, r.Scheme)\<close> on an unstructured object.\<close>

definition own_unstructured :: "'w k8s \<Rightarrow> AppDefinition \<Rightarrow> Unstructured \<Rightarrow> Unstructured result" where
  "own_unstructured K appDef u =
     (case set_controller_reference K appDef (u_meta u) of
        Inl e \<Rightarrow> Inl e
      | Inr m \<Rightarrow> Inr (u\<lparr>u_meta := m\<rparr>))"

definition deleteServiceMonitor :: "'w k8s \<Rightarrow> AppDefinition \<Rightarrow> ('w, unit result) prog" where
  "deleteServiceMonitor K appDef =
     (let rc = k_unstructured K serviceMonitorGVK
      in do {
        r \<leftarrow> lift (rget_live rc (ad_namespace appDef) (serviceMonitorName (ad_name appDef)));
        case r of
          Inr existing \<Rightarrow> do {
            d \<leftarrow> do_delete rc (UnstructuredK serviceMonitorGVK) u_meta existing;
            case d of
              Inl e \<Rightarrow> fail e
            | Inr _ \<Rightarrow> do { recordManagedResourcePrune ''ServiceMonitor''; ret () } }
        | Inl e \<Rightarrow> if is_no_match e \<or> is_not_found e then ret () else fail e })"

definition reconcileServiceMonitor :: "'w k8s \<Rightarrow> AppDefinition \<Rightarrow> ('w, unit result) prog" where
  "reconcileServiceMonitor K appDef =
     (let rc = k_unstructured K serviceMonitorGVK; k = UnstructuredK serviceMonitorGVK
      in if buildSMEndpoints appDef = [] then deleteServiceMonitor K appDef
         else
           case own_unstructured K appDef (desiredServiceMonitor appDef) of
             Inl e \<Rightarrow> fail (Wrap ''setting owner reference on ServiceMonitor'' e)
           | Inr desired \<Rightarrow> do {
               r \<leftarrow> lift (rget_live rc (ad_namespace appDef) (serviceMonitorName (ad_name appDef)));
               case r of
                 Inl e \<Rightarrow>
                   if is_no_match e then ret ()
                   else if is_not_found e then do {
                     c \<leftarrow> do_create rc k u_meta desired;
                     case c of
                       Inl ce \<Rightarrow> if is_no_match ce then ret () else fail ce
                     | Inr _ \<Rightarrow> ret () }
                   else fail e
               | Inr existing \<Rightarrow>
                   tryM (do_update rc k u_meta (desired\<lparr>u_meta := (u_meta desired)
                           \<lparr>m_resourceVersion := m_resourceVersion (u_meta existing)\<rparr>\<rparr>))
                     id (\<lambda>_. ret ()) })"

section \<open>Writes\<close>

definition own_delete :: "kind \<Rightarrow> string \<Rightarrow> string \<Rightarrow> api_write \<Rightarrow> bool" where
  "own_delete k name ns e =
     (case e of WDelete k' m \<Rightarrow> k' = k \<and> m_name m = name \<and> m_namespace m = ns | _ \<Rightarrow> False)"

lemma own_delete_simps [simp]:
  "own_delete k n ns (WDelete k' m) \<longleftrightarrow> k' = k \<and> m_name m = n \<and> m_namespace m = ns"
  by (simp add: own_delete_def)

definition own_object :: "kind \<Rightarrow> string \<Rightarrow> string \<Rightarrow> api_write \<Rightarrow> bool" where
  "own_object k name ns e \<longleftrightarrow> own_write k name ns e \<or> own_delete k name ns e"

lemma only_writes_reconcileService:
  assumes "keyed (k_services K) svc_meta"
  shows "only_writes (own_object ServiceK (ad_name appDef) (ad_namespace appDef)) (reconcileService K appDef)"
proof (cases "exposedPorts appDef = []")
  case True
  then show ?thesis unfolding reconcileService_def if_P [OF True]
    by (intro only_writes_get [OF assms]) (auto intro!: hoare split: sum.split simp: own_object_def)
next
  case False
  then show ?thesis unfolding reconcileService_def if_not_P [OF False]
    by (auto intro!: hoare simp: own_object_def empty_service_def)
qed

lemma own_unstructured_frame:
  "own_unstructured K appDef u = Inr u' \<Longrightarrow>
   m_name (u_meta u') = m_name (u_meta u) \<and> m_namespace (u_meta u') = m_namespace (u_meta u)
   \<and> m_labels (u_meta u') = m_labels (u_meta u) \<and> m_annotations (u_meta u') = m_annotations (u_meta u)
   \<and> u_fields u' = u_fields u \<and> u_kind u' = u_kind u \<and> u_apiVersion u' = u_apiVersion u"
  by (auto simp: own_unstructured_def split: sum.splits dest: set_controller_reference_frame)

lemma only_writes_reconcileServiceMonitor:
  assumes "keyed (k_unstructured K serviceMonitorGVK) u_meta"
  shows "only_writes (own_object (UnstructuredK serviceMonitorGVK) (serviceMonitorName (ad_name appDef))
           (ad_namespace appDef)) (reconcileServiceMonitor K appDef)"
proof -
  let ?P = "own_object (UnstructuredK serviceMonitorGVK) (serviceMonitorName (ad_name appDef)) (ad_namespace appDef)"
  have "only_writes ?P (deleteServiceMonitor K appDef)"
    unfolding deleteServiceMonitor_def Let_def
    by (intro only_writes_get_live [OF assms]) (auto intro!: hoare split: sum.split simp: own_object_def)
  then show ?thesis unfolding reconcileServiceMonitor_def Let_def
    by (auto intro!: hoare split: sum.split dest!: own_unstructured_frame
        simp: own_object_def desiredServiceMonitor_def)
qed

section \<open>Properties\<close>

lemma set_all_ports:
  "p \<in> set (all_ports appDef) \<longleftrightarrow> (\<exists>c \<in> set (spec_Containers (ad_spec appDef)). p \<in> set (cs_Ports c))"
  by (auto simp: all_ports_def)

lemma mutateService_ok:
  "mutateService K appDef svc = Inr svc' \<Longrightarrow>
   svc_Selector svc' = selectorLabels (ad_name appDef) \<and> svc_Ports svc' = map servicePort (exposedPorts appDef)
   \<and> m_labels (svc_meta svc') = standardLabels (ad_name appDef) \<and> svc_rest svc' = svc_rest svc"
  by (auto simp: mutateService_def Let_def split: sum.splits dest: set_controller_reference_frame)

lemma servicePort_in_pod:
  assumes "p \<in> set (exposedPorts appDef)"
  shows "\<exists>c \<in> set (buildContainers appDef). \<exists>cp \<in> set (c_Ports c).
     cp_Name cp = sp_Name (servicePort p) \<and> cp_ContainerPort cp = sp_TargetPort (servicePort p)
     \<and> cp_Protocol cp = sp_Protocol (servicePort p)"
proof -
  obtain i where i: "i < length (spec_Containers (ad_spec appDef))"
    and p: "p \<in> set (cs_Ports (spec_Containers (ad_spec appDef) ! i))"
    using assms by (auto simp: exposedPorts_def all_ports_def in_set_conv_nth [of _ "spec_Containers (ad_spec appDef)"])
  let ?c = "buildContainers appDef ! i"
  have "?c \<in> set (buildContainers appDef)" using i by simp
  moreover have "\<exists>cp \<in> set (c_Ports ?c). cp_Name cp = sp_Name (servicePort p)
      \<and> cp_ContainerPort cp = sp_TargetPort (servicePort p) \<and> cp_Protocol cp = sp_Protocol (servicePort p)"
    using p by (auto simp: nth_buildContainers [OF i] buildContainer_def buildPorts_def servicePort_def)
  ultimately show ?thesis by blast
qed

text \<open>
  C28. The Service reaches the pods: its selector is the label set the Deployment gives its pods,
  and every port of the Service forwards to a port that some container of the pod template
  declares, with the same name, number and protocol. The Service has one port for each exposed
  port, in the order of the spec.
\<close>

theorem service_reaches_pods:
  assumes "mutateService K appDef svc = Inr svc'" and "mutateDeployment K appDef h d = Inr d'"
  shows "svc_Selector svc' = dep_TemplateLabels d'
    \<and> list_all (\<lambda>sp. \<exists>c \<in> set (pod_Containers (dep_PodSpec d')). \<exists>cp \<in> set (c_Ports c).
          cp_Name cp = sp_Name sp \<and> cp_ContainerPort cp = sp_TargetPort sp \<and> cp_Protocol cp = sp_Protocol sp)
        (svc_Ports svc')
    \<and> map sp_Name (svc_Ports svc') = map port_Name (exposedPorts appDef)"
proof -
  have "dep_TemplateLabels d' = selectorLabels (ad_name appDef)"
    and "pod_Containers (dep_PodSpec d') = buildContainers appDef"
    using mutateDeployment_ok [OF assms(2)] by (auto simp: mutatePodSpec_def)
  then show ?thesis using mutateService_ok [OF assms(1)] servicePort_in_pod [of _ appDef]
    by (auto simp: list_all_iff) (simp add: servicePort_def)
qed

text \<open>
  A Service is never left with no port: with no exposed port the only write
  \<open>reconcileService\<close> requests is the deletion of the Service it has just read, and with one it
  requests exactly one write, of the Service of the application's name.
\<close>

theorem service_iff_exposed:
  "case run_state (reconcileService K appDef) s of (r, s') \<Rightarrow>
     if exposedPorts appDef = [] then
       new_writes s s' = (case fst (run_state (rget (k_services K) (ad_namespace appDef) (ad_name appDef)) (world s)) of
                            Inl _ \<Rightarrow> [] | Inr existing \<Rightarrow> [WDelete ServiceK (svc_meta existing)])
     else new_writes s s' = [WCreateOrUpdate ServiceK (object_meta (ad_name appDef) (ad_namespace appDef))]"
  by (auto simp: reconcileService_def new_writes_def run_tryM call_defs empty_service_def
      recordManagedResourcePrune_def split: sum.splits prod.splits)

lemma sm_endpoints_names:
  "port_Name ` set (sm_endpoints seen ps) = port_Name ` set (filter metrics_on ps) - set seen"
  "distinct (map port_Name (sm_endpoints seen ps))"
  by (induction seen ps rule: sm_endpoints.induct) auto

lemma sm_endpoints_on: "p \<in> set (sm_endpoints seen ps) \<Longrightarrow> metrics_on p \<and> p \<in> set ps"
  by (induction seen ps rule: sm_endpoints.induct) (auto split: if_splits)

text \<open>
  The ServiceMonitor has one endpoint for each name of a port with metrics, no name twice, and
  \<open>reconcileServiceMonitor\<close> takes the branch that deletes it exactly when no port has metrics.
\<close>

theorem monitor_endpoints:
  "distinct (map port_Name (monitoredPorts appDef))
   \<and> port_Name ` set (monitoredPorts appDef) = port_Name ` set (filter metrics_on (all_ports appDef))
   \<and> list_all (\<lambda>p. metrics_on p \<and> p \<in> set (all_ports appDef)) (monitoredPorts appDef)
   \<and> (buildSMEndpoints appDef = [] \<longleftrightarrow> \<not> list_ex metrics_on (all_ports appDef))"
proof -
  have names: "port_Name ` set (monitoredPorts appDef) = port_Name ` set (filter metrics_on (all_ports appDef))"
    using sm_endpoints_names(1) [of "[]"] by (simp add: monitoredPorts_def)
  moreover have "buildSMEndpoints appDef = [] \<longleftrightarrow> \<not> list_ex metrics_on (all_ports appDef)"
    using arg_cong [OF names, of "\<lambda>A. A = {}"]
    by (simp add: buildSMEndpoints_def list_ex_iff) (auto simp: filter_empty_conv)
  ultimately show ?thesis
    using sm_endpoints_names(2) sm_endpoints_on by (auto simp: monitoredPorts_def list_all_iff)
qed

definition hidden_metrics_app :: AppDefinition where
  "hidden_metrics_app = (zero_app ''web'' ''prod'')\<lparr>ad_spec := zero_spec\<lparr>spec_Containers :=
     [\<lparr>cs_Name = ''main'', cs_Image = ''web:1'', cs_Command = [], cs_Args = [], cs_Env = [],
       cs_Ports = [\<lparr>port_Name = ''http'', port_ContainerPort = 8080, port_ServicePort = 80, port_Protocol = '''',
                    port_Expose = True, port_Metrics = None\<rparr>,
                   \<lparr>port_Name = ''stats'', port_ContainerPort = 9090, port_ServicePort = 9090, port_Protocol = '''',
                    port_Expose = False, port_Metrics = Some \<lparr>mt_Enabled = True, mt_Path = '''', mt_Interval = '''', mt_Labels = []\<rparr>\<rparr>],
       cs_ReadinessProbe = None, cs_LivenessProbe = None, cs_Resources = no_resources\<rparr>]\<rparr>\<rparr>"

text \<open>
  A port with metrics that is not exposed is scraped by a name the Service does not have: the
  ServiceMonitor of this application has an endpoint for the port \<open>stats\<close>, and its Service has the
  port \<open>http\<close> only.
\<close>

theorem hidden_metrics_port:
  "map port_Name (monitoredPorts hidden_metrics_app) = [''stats'']
   \<and> map port_Name (exposedPorts hidden_metrics_app) = [''http'']"
  by (simp add: hidden_metrics_app_def monitoredPorts_def exposedPorts_def all_ports_def metrics_on_def)

lemma service_reaches_pods_witness:
  "\<exists>svc' d'. mutateService mem hidden_metrics_app (empty_service (object_meta ''web'' ''prod'')) = Inr svc'
     \<and> mutateDeployment mem hidden_metrics_app '''' (empty_deployment (object_meta ''web'' ''prod'')) = Inr d'
     \<and> svc_Selector svc' = dep_TemplateLabels d'"
proof -
  obtain svc' where svc: "mutateService mem hidden_metrics_app (empty_service (object_meta ''web'' ''prod'')) = Inr svc'"
    by (simp add: mutateService_def set_controller_reference_def mem_setControllerReference_def empty_service_def Let_def)
  obtain d' where d: "mutateDeployment mem hidden_metrics_app '''' (empty_deployment (object_meta ''web'' ''prod'')) = Inr d'"
    by (simp add: mutateDeployment_def set_controller_reference_def mem_setControllerReference_def empty_deployment_def Let_def)
  show ?thesis using service_reaches_pods [OF svc d] svc d by blast
qed

end
