(* ===== verification/Optional.thy ===== *)
theory Optional
  imports Network
begin

text \<open>
  What \<open>reconcile_middleware.go\<close> and \<open>reconcile_externalsecrets.go\<close> share, for the kinds whose CRD
  a cluster may lack: read the object directly from the API server, create it or replace it under
  its current resource version, treat a missing CRD as success, and prune from a direct list.
\<close>

section \<open>JSON of the spec's values\<close>

definition toInterfaceSlice :: "string list \<Rightarrow> gojson" where
  "toInterfaceSlice strs = JList (map JStr strs)"

definition labelsToInterface :: "gomap \<Rightarrow> gojson" where
  "labelsToInterface labels = JObj (map (\<lambda>(k, v). (k, JStr v)) labels)"

text \<open>A member that is set only under a condition.\<close>

definition member_if :: "bool \<Rightarrow> string \<Rightarrow> gojson \<Rightarrow> (string \<times> gojson) list" where
  "member_if b k v = (if b then [(k, v)] else [])"

section \<open>Create or replace\<close>

text \<open>
  One attempt of the retried update: the desired object takes the resource version of the object
  that is there and replaces it as a whole.
\<close>

definition replaceUnstructured :: "('w, Unstructured) rclient \<Rightarrow> kind \<Rightarrow> string \<Rightarrow> string \<Rightarrow> Unstructured \<Rightarrow> ('w, unit result) prog" where
  "replaceUnstructured rc k ns name desired =
     tryM (lift (rget_live rc ns name)) id (\<lambda>existing.
     tryM (do_update rc k u_meta (desired\<lparr>u_meta := (u_meta desired)
             \<lparr>m_resourceVersion := m_resourceVersion (u_meta existing)\<rparr>\<rparr>)) id (\<lambda>_. ret ()))"

definition upsertUnstructured ::
  "'w k8s \<Rightarrow> GVK \<Rightarrow> string \<Rightarrow> string \<Rightarrow> string \<Rightarrow> Unstructured \<Rightarrow> ('w, flow result) prog" where
  "upsertUnstructured K gvk label ns name desired =
     (let rc = k_unstructured K gvk; k = UnstructuredK gvk
      in do {
        r \<leftarrow> lift (rget_live rc ns name);
        case r of
          Inl e \<Rightarrow>
            if is_no_match e then ret ReturnNil
            else if is_not_found e then do {
              c \<leftarrow> do_create rc k u_meta desired;
              case c of
                Inl ce \<Rightarrow>
                  if is_no_match ce then ret ReturnNil
                  else fail (Wrap (''creating '' @ label @ '' '' @ name) ce)
              | Inr _ \<Rightarrow> ret Continue }
            else fail (Wrap (''getting '' @ label @ '' '' @ name) e)
        | Inr _ \<Rightarrow>
            tryM (k_retryOnConflict K (replaceUnstructured rc k ns name desired))
              (Wrap (''updating '' @ label @ '' '' @ name)) (\<lambda>_. ret Continue) })"

definition pruneUnstructured :: "'w k8s \<Rightarrow> AppDefinition \<Rightarrow> GVK \<Rightarrow> string \<Rightarrow> string list \<Rightarrow> ('w, unit result) prog" where
  "pruneUnstructured K appDef gvk label desiredNames =
     (let rc = k_unstructured K gvk
      in do {
        r \<leftarrow> lift (rlist_live rc (ad_namespace appDef) (standardLabels (ad_name appDef)));
        case r of
          Inl e \<Rightarrow>
            if is_no_match e then ret ()
            else fail (Wrap (''listing managed '' @ label @ ''s for pruning'') e)
        | Inr items \<Rightarrow> prune_objects K appDef rc (UnstructuredK gvk) label u_meta desiredNames items })"

lemma only_writes_upsert:
  assumes "retry_law K" and "P (WCreate (UnstructuredK gvk) (u_meta desired))"
    and "\<And>v. P (WUpdate (UnstructuredK gvk) ((u_meta desired)\<lparr>m_resourceVersion := v\<rparr>))"
  shows "only_writes P (upsertUnstructured K gvk label ns name desired)"
  unfolding upsertUnstructured_def replaceUnstructured_def Let_def
  by (auto intro!: hoare only_writes_retry [OF assms(1)] split: sum.split simp: assms)

lemma only_writes_pruneUnstructured [hoare]:
  "(\<And>m. stale K appDef names m \<Longrightarrow> P (WDelete (UnstructuredK gvk) m)) \<Longrightarrow>
   only_writes P (pruneUnstructured K appDef gvk label names)"
  unfolding pruneUnstructured_def Let_def by (auto intro!: hoare split: sum.split)

text \<open>
  A missing CRD is no failure: if the direct read reports no match, nothing is written and the
  reconciler of the kind returns without an error.
\<close>

lemma upsert_no_match:
  "run_state (rget_live (k_unstructured K gvk) ns name) (world s) = (Inl e, w) \<Longrightarrow> is_no_match e \<Longrightarrow>
   run_state (upsertUnstructured K gvk label ns name desired) s = (Inr ReturnNil, s\<lparr>world := w\<rparr>)"
  by (simp add: upsertUnstructured_def Let_def)

section \<open>What a run without error has written\<close>

text \<open>A retried program that succeeds has run to its end in its last attempt.\<close>

lemma attempts_wrote:
  fixes m :: "('w, 'b + 'c) prog"
  assumes "run_state (attempts p n m) s = (Inr a, s')"
    and "\<And>t r t'. run_state m t = (r, t') \<Longrightarrow> \<exists>tr. writes t' = writes t @ tr \<and> ((\<exists>b. r = Inr b) \<longrightarrow> (\<exists>e \<in> set tr. Q e))"
  shows "\<exists>tr. writes s' = writes s @ tr \<and> (\<exists>e \<in> set tr. Q e)"
  using assms(1)
proof (induction n arbitrary: s)
  case 0
  then have "run_state m s = (Inr a, s')" by simp
  from assms(2) [OF this] obtain tr where "writes s' = writes s @ tr \<and> ((\<exists>b. (Inr a :: 'b + 'c) = Inr b) \<longrightarrow> (\<exists>e \<in> set tr. Q e))" ..
  then show ?case by (intro exI [of _ tr]) simp
next
  case (Suc n)
  obtain r t where run: "run_state m s = (r, t)" by fastforce
  from assms(2) [OF run] obtain tr where tr: "writes t = writes s @ tr \<and> ((\<exists>b. r = Inr b) \<longrightarrow> (\<exists>e \<in> set tr. Q e))" ..
  show ?case
  proof (cases r)
    case (Inl e)
    then have "run_state (attempts p n m) t = (Inr a, s')" using Suc.prems run by (simp split: if_splits)
    from Suc.IH [OF this] obtain tr' where "writes s' = writes t @ tr' \<and> (\<exists>e \<in> set tr'. Q e)" ..
    then show ?thesis using tr by (intro exI [of _ "tr @ tr'"]) auto
  next
    case (Inr b)
    then have "s' = t" using Suc.prems run by simp
    then show ?thesis using tr Inr by (intro exI [of _ tr]) simp
  qed
qed

text \<open>An upsert that goes on has created the object or replaced it.\<close>

definition puts :: "GVK \<Rightarrow> ObjectMeta \<Rightarrow> api_write \<Rightarrow> bool" where
  "puts gvk m e \<longleftrightarrow> e = WCreate (UnstructuredK gvk) m \<or> (\<exists>v. e = WUpdate (UnstructuredK gvk) (m\<lparr>m_resourceVersion := v\<rparr>))"

lemma upsert_wrote:
  assumes "retry_law K" and "run_state (upsertUnstructured K gvk label ns name desired) s = (Inr Continue, s')"
  shows "\<exists>tr. writes s' = writes s @ tr \<and> (\<exists>e \<in> set tr. puts gvk (u_meta desired) e)"
proof -
  let ?m = "replaceUnstructured (k_unstructured K gvk) (UnstructuredK gvk) ns name desired"
  obtain r w where read: "run_state (rget_live (k_unstructured K gvk) ns name) (world s) = (r, w)" by fastforce
  show ?thesis
  proof (cases r)
    case (Inl e)
    then show ?thesis using assms(2) read
      by (auto simp: upsertUnstructured_def Let_def do_create_def puts_def split: if_splits sum.splits)
  next
    case (Inr old)
    obtain x t where retry: "run_state (k_retryOnConflict K ?m) (s\<lparr>world := w\<rparr>) = (x, t)" by fastforce
    then have x: "x = Inr ()" "s' = t"
      using assms(2) read Inr by (auto simp: upsertUnstructured_def Let_def run_tryM split: sum.splits)
    obtain n where "run_state (attempts is_conflict n ?m) (s\<lparr>world := w\<rparr>) = (Inr (), t)"
      using assms(1) retry x unfolding retry_law_def by metis
    moreover have "\<exists>tr. writes u' = writes u @ tr \<and> ((\<exists>b. r = Inr b) \<longrightarrow> (\<exists>e \<in> set tr. puts gvk (u_meta desired) e))"
      if run: "run_state ?m u = (r, u')" for u r u'
    proof (cases "fst (run_state (rget_live (k_unstructured K gvk) ns name) (world u))")
      case (Inl e)
      then show ?thesis using run by (auto simp: replaceUnstructured_def run_tryM)
    next
      case (Inr existing)
      then have "writes u' = writes u @ [WUpdate (UnstructuredK gvk)
          ((u_meta desired)\<lparr>m_resourceVersion := m_resourceVersion (u_meta existing)\<rparr>)]"
        using run by (auto simp: replaceUnstructured_def do_update_def run_tryM split: prod.splits sum.splits)
      then show ?thesis by (auto simp: puts_def)
    qed
    ultimately have "\<exists>tr. writes t = writes (s\<lparr>world := w\<rparr>) @ tr \<and> (\<exists>e \<in> set tr. puts gvk (u_meta desired) e)"
      by (rule attempts_wrote)
    then show ?thesis using x by simp
  qed
qed

text \<open>A loop that goes on to its end has run the body for every element.\<close>

lemma each_flow_wrote:
  assumes "run_state (each_flow f xs) s = (Inr Continue, s')"
    and "\<And>x t t'. x \<in> set xs \<Longrightarrow> run_state (f x) t = (Inr Continue, t') \<Longrightarrow>
      \<exists>tr. writes t' = writes t @ tr \<and> (\<exists>e \<in> set tr. Q x e)"
  shows "\<exists>tr. writes s' = writes s @ tr \<and> (\<forall>x \<in> set xs. \<exists>e \<in> set tr. Q x e)"
  using assms
proof (induction xs arbitrary: s)
  case (Cons x xs)
  obtain r t where run: "run_state (f x) s = (r, t)" by fastforce
  then have r: "r = Inr Continue" "run_state (each_flow f xs) t = (Inr Continue, s')"
    using Cons.prems(1) by (auto simp: run_tryM split: sum.splits flow.splits)
  obtain tr where tr: "writes t = writes s @ tr" "\<exists>e \<in> set tr. Q x e"
    using Cons.prems(2) [of x s t] run r by auto
  obtain tr' where "writes s' = writes t @ tr'" "\<forall>y \<in> set xs. \<exists>e \<in> set tr'. Q y e"
    using Cons.IH [OF r(2)] Cons.prems(2) by auto
  then show ?case using tr by (intro exI [of _ "tr @ tr'"]) auto
qed simp

end
