(* ===== verification/Middleware.thy ===== *)
theory Middleware
  imports Optional "HOL-Library.Sublist"
begin

text \<open>
  \<open>reconcile_middleware.go\<close>: one Traefik Middleware per domain, path and enabled kind.
\<close>

section \<open>The API group\<close>

record middlewareAPI =
  mapi_gvk :: GVK
  mapi_ipListKey :: string

definition middlewareAPICandidates :: "middlewareAPI list" where
  "middlewareAPICandidates =
     [\<lparr>mapi_gvk = \<lparr>g_group = ''traefik.io'', g_version = ''v1alpha1'', g_kind = ''Middleware''\<rparr>,
       mapi_ipListKey = ''ipAllowList''\<rparr>,
      \<lparr>mapi_gvk = \<lparr>g_group = ''traefik.containo.us'', g_version = ''v1alpha1'', g_kind = ''Middleware''\<rparr>,
       mapi_ipListKey = ''ipWhiteList''\<rparr>]"

definition zero_api :: middlewareAPI where
  "zero_api = \<lparr>mapi_gvk = zero_gvk, mapi_ipListKey = ''''\<rparr>"

fun resolveMiddlewareAPI_from ::
  "'w k8s \<Rightarrow> error option \<Rightarrow> middlewareAPI list \<Rightarrow> ('w, middlewareAPI result) prog" where
  "resolveMiddlewareAPI_from K lastErr [] = (case lastErr of None \<Rightarrow> ret zero_api | Some e \<Rightarrow> fail e)"
| "resolveMiddlewareAPI_from K lastErr (c # cs) =
     do { r \<leftarrow> lift (k_restMapping K (g_group (mapi_gvk c)) (g_kind (mapi_gvk c)) (g_version (mapi_gvk c)));
          case r of
            Inr _ \<Rightarrow> ret c
          | Inl e \<Rightarrow> resolveMiddlewareAPI_from K (Some e) cs }"

definition resolveMiddlewareAPI :: "'w k8s \<Rightarrow> ('w, middlewareAPI result) prog" where
  "resolveMiddlewareAPI K = resolveMiddlewareAPI_from K None middlewareAPICandidates"

lemma only_writes_resolveMiddleware [hoare]: "only_writes P (resolveMiddlewareAPI K)"
proof -
  have "only_writes P (resolveMiddlewareAPI_from K lastErr cs)" for lastErr cs
    by (induction cs arbitrary: lastErr) (auto intro!: hoare split: option.split sum.split)
  then show ?thesis by (simp add: resolveMiddlewareAPI_def)
qed

section \<open>Which middlewares a domain has\<close>

definition chain_order :: "string list" where
  "chain_order = [''redirectscheme'', ''ipallow'', ''ratelimit'', ''forwardauth'', ''basicauth'',
     ''headers'', ''compress'', ''rewrite'']"

definition enabledMiddlewareKinds :: "DomainSpec \<Rightarrow> string list" where
  "enabledMiddlewareKinds domain =
     (let redirect = (case dom_Middlewares domain of None \<Rightarrow> False | Some mw \<Rightarrow> mw_RedirectScheme mw \<noteq> None)
                     \<or> (dom_TLS domain \<and> dom_RedirectTLS domain);
          first = (if redirect then [''redirectscheme''] else [])
      in case dom_Middlewares domain of
           None \<Rightarrow> first
         | Some mw \<Rightarrow>
             first
             @ (if mw_IPWhiteList mw \<noteq> None then [''ipallow''] else [])
             @ (if mw_RateLimit mw \<noteq> None then [''ratelimit''] else [])
             @ (if mw_ForwardAuth mw \<noteq> None then [''forwardauth''] else [])
             @ (if mw_BasicAuth mw \<noteq> None then [''basicauth''] else [])
             @ (if mw_Headers mw \<noteq> None then [''headers''] else [])
             @ (if mw_Compress mw \<noteq> None then [''compress''] else [])
             @ (if mw_Rewrite mw \<noteq> None then [''rewrite''] else []))"

section \<open>Specs\<close>

definition buildRedirectSchemeSpec :: "RedirectSchemeSpec \<Rightarrow> gojson" where
  "buildRedirectSchemeSpec r =
     JObj [(''redirectScheme'',
       JObj ([(''scheme'', JStr (rs_Scheme r)), (''permanent'', JBool (rs_Permanent r))]
             @ member_if (rs_Port r \<noteq> '''') ''port'' (JStr (rs_Port r))))]"

definition buildCompressSpec :: "CompressSpec \<Rightarrow> gojson" where
  "buildCompressSpec c =
     JObj [(''compress'',
       JObj (member_if (cps_ExcludedContentTypes c \<noteq> []) ''excludedContentTypes'' (toInterfaceSlice (cps_ExcludedContentTypes c))
             @ member_if (cps_IncludedContentTypes c \<noteq> []) ''includedContentTypes'' (toInterfaceSlice (cps_IncludedContentTypes c))
             @ (case cps_MinResponseBodyBytes c of None \<Rightarrow> [] | Some n \<Rightarrow> [(''minResponseBodyBytes'', JInt n)])))]"

definition ip_strategy :: "IPStrategySpec \<Rightarrow> (string \<times> gojson) list" where
  "ip_strategy s =
     member_if (ips_Depth s \<noteq> 0) ''depth'' (JInt (ips_Depth s))
     @ member_if (ips_ExcludedIPs s \<noteq> []) ''excludedIPs'' (toInterfaceSlice (ips_ExcludedIPs s))"

definition buildIPAllowListSpec :: "IPWhiteListSpec \<Rightarrow> middlewareAPI \<Rightarrow> gojson" where
  "buildIPAllowListSpec ipw api =
     JObj [(mapi_ipListKey api,
       JObj ((''sourceRange'', toInterfaceSlice (ipw_SourceRange ipw))
             # (case ipw_IPStrategy ipw of
                  None \<Rightarrow> []
                | Some s \<Rightarrow> member_if (ip_strategy s \<noteq> []) ''ipStrategy'' (JObj (ip_strategy s)))))]"

definition buildBasicAuthSpec :: "BasicAuthSpec \<Rightarrow> gojson" where
  "buildBasicAuthSpec ba =
     JObj [(''basicAuth'',
       JObj ((''secret'', JStr (ba_SecretName ba))
             # member_if (ba_Realm ba \<noteq> '''') ''realm'' (JStr (ba_Realm ba))
             @ member_if (ba_RemoveHeader ba) ''removeHeader'' (JBool True)
             @ member_if (ba_HeaderField ba \<noteq> '''') ''headerField'' (JStr (ba_HeaderField ba))))]"

definition buildForwardAuthSpec :: "ForwardAuthSpec \<Rightarrow> gojson" where
  "buildForwardAuthSpec fa =
     JObj [(''forwardAuth'',
       JObj ((''address'', JStr (fa_Address fa))
             # member_if (fa_TrustForwardHeader fa) ''trustForwardHeader'' (JBool True)
             @ member_if (fa_AuthResponseHeaders fa \<noteq> []) ''authResponseHeaders'' (toInterfaceSlice (fa_AuthResponseHeaders fa))
             @ member_if (fa_AuthRequestHeaders fa \<noteq> []) ''authRequestHeaders'' (toInterfaceSlice (fa_AuthRequestHeaders fa))
             @ member_if (fa_TLSInsecureSkipVerify fa) ''tls'' (JObj [(''insecureSkipVerify'', JBool True)])))]"

definition buildRateLimitSpec :: "RateLimitSpec \<Rightarrow> gojson" where
  "buildRateLimitSpec rl =
     JObj [(''rateLimit'',
       JObj ((''average'', JInt (rl_Average rl))
             # member_if (rl_Burst rl \<noteq> 0) ''burst'' (JInt (rl_Burst rl))
             @ member_if (rl_Period rl \<noteq> '''') ''period'' (JStr (rl_Period rl))))]"

definition buildHeadersSpec :: "HeadersSpec \<Rightarrow> gojson" where
  "buildHeadersSpec h =
     JObj [(''headers'',
       JObj (member_if (hd_CustomRequestHeaders h \<noteq> []) ''customRequestHeaders'' (labelsToInterface (hd_CustomRequestHeaders h))
             @ member_if (hd_CustomResponseHeaders h \<noteq> []) ''customResponseHeaders'' (labelsToInterface (hd_CustomResponseHeaders h))
             @ member_if (hd_STSSeconds h \<noteq> 0) ''stsSeconds'' (JInt (hd_STSSeconds h))
             @ member_if (hd_STSIncludeSubdomains h) ''stsIncludeSubdomains'' (JBool True)
             @ member_if (hd_STSPreload h) ''stsPreload'' (JBool True)
             @ member_if (hd_ForceSTSHeader h) ''forceSTSHeader'' (JBool True)
             @ member_if (hd_FrameDeny h) ''frameDeny'' (JBool True)
             @ member_if (hd_ContentTypeNosniff h) ''contentTypeNosniff'' (JBool True)
             @ member_if (hd_AccessControlAllowOriginList h \<noteq> []) ''accessControlAllowOriginList''
                 (toInterfaceSlice (hd_AccessControlAllowOriginList h))
             @ member_if (hd_AccessControlAllowMethods h \<noteq> []) ''accessControlAllowMethods''
                 (toInterfaceSlice (hd_AccessControlAllowMethods h))
             @ member_if (hd_AccessControlAllowHeaders h \<noteq> []) ''accessControlAllowHeaders''
                 (toInterfaceSlice (hd_AccessControlAllowHeaders h))
             @ member_if (hd_AccessControlAllowCredentials h) ''accessControlAllowCredentials'' (JBool True)))]"

definition buildRewriteSpec :: "RewriteSpec \<Rightarrow> gojson" where
  "buildRewriteSpec rw =
     (case rw_StripPrefix rw of
        Some sp \<Rightarrow> JObj [(''stripPrefix'', JObj [(''prefixes'', toInterfaceSlice (spx_Prefixes sp))])]
      | None \<Rightarrow>
          (case rw_ReplacePathRegex rw of
             Some rp \<Rightarrow> JObj [(''replacePathRegex'',
               JObj [(''regex'', JStr (rpx_Regex rp)), (''replacement'', JStr (rpx_Replacement rp))])]
           | None \<Rightarrow> JObj [(''addPrefix'', JObj [(''prefix'', JStr (rw_AddPrefix rw))])]))"

text \<open>
  \<open>mw.IPWhiteList\<close> and its siblings are dereferenced: calling this for a kind the domain does not
  enable panics. An unknown kind has the spec \<open>nil\<close>.
\<close>

definition nil_panic :: "'a result" where
  "nil_panic = Inl (GoPanic ''nil pointer dereference'')"

definition with_field :: "'m option \<Rightarrow> ('m \<Rightarrow> 'f option) \<Rightarrow> ('f \<Rightarrow> gojson) \<Rightarrow> gojson result" where
  "with_field mw sel build =
     (case mw of
        None \<Rightarrow> nil_panic
      | Some m \<Rightarrow> (case sel m of None \<Rightarrow> nil_panic | Some f \<Rightarrow> Inr (build f)))"

definition buildMiddlewareSpec :: "string \<Rightarrow> DomainSpec \<Rightarrow> middlewareAPI \<Rightarrow> gojson result" where
  "buildMiddlewareSpec knd domain api =
     (let mw = dom_Middlewares domain
      in if knd = ''redirectscheme'' then
           (case mw of
              Some m \<Rightarrow>
                (case mw_RedirectScheme m of
                   Some r \<Rightarrow> Inr (buildRedirectSchemeSpec r)
                 | None \<Rightarrow> Inr (JObj [(''redirectScheme'', JObj [(''scheme'', JStr ''https''), (''permanent'', JBool True)])]))
            | None \<Rightarrow> Inr (JObj [(''redirectScheme'', JObj [(''scheme'', JStr ''https''), (''permanent'', JBool True)])]))
         else if knd = ''ipallow'' then with_field mw mw_IPWhiteList (\<lambda>x. buildIPAllowListSpec x api)
         else if knd = ''ratelimit'' then with_field mw mw_RateLimit buildRateLimitSpec
         else if knd = ''forwardauth'' then with_field mw mw_ForwardAuth buildForwardAuthSpec
         else if knd = ''basicauth'' then with_field mw mw_BasicAuth buildBasicAuthSpec
         else if knd = ''headers'' then with_field mw mw_Headers buildHeadersSpec
         else if knd = ''compress'' then with_field mw mw_Compress buildCompressSpec
         else if knd = ''rewrite'' then with_field mw mw_Rewrite buildRewriteSpec
         else Inr JNull)"

section \<open>Reconciling\<close>

definition desiredMiddleware :: "AppDefinition \<Rightarrow> middlewareAPI \<Rightarrow> string \<Rightarrow> gojson \<Rightarrow> Unstructured" where
  "desiredMiddleware appDef api name spec =
     \<lparr>u_apiVersion = group_version (mapi_gvk api), u_kind = g_kind (mapi_gvk api),
      u_meta = (object_meta name (ad_namespace appDef))\<lparr>m_labels := standardLabels (ad_name appDef)\<rparr>,
      u_fields = [(''spec'', spec)]\<rparr>"

definition domainMiddlewares :: "AppDefinition \<Rightarrow> (DomainSpec \<times> string) list" where
  "domainMiddlewares appDef =
     concat (map (\<lambda>d. map (\<lambda>k. (d, k)) (enabledMiddlewareKinds d)) (spec_Domains (ad_spec appDef)))"

definition middleware_of :: "AppDefinition \<Rightarrow> DomainSpec \<times> string \<Rightarrow> string" where
  "middleware_of appDef dk = middlewareName (ad_name appDef) (dom_Name (fst dk)) (dom_Path (fst dk)) (snd dk)"

definition ensureMiddleware :: "middlewareAPI \<Rightarrow> 'w k8s \<Rightarrow> AppDefinition \<Rightarrow> DomainSpec \<times> string \<Rightarrow> ('w, flow result) prog" where
  "ensureMiddleware api K appDef dk =
     (let name = middleware_of appDef dk
      in case buildMiddlewareSpec (snd dk) (fst dk) api of
           Inl e \<Rightarrow> fail e
         | Inr spec \<Rightarrow>
             (case own_unstructured K appDef (desiredMiddleware appDef api name spec) of
                Inl e \<Rightarrow> fail (Wrap (''setting owner reference on Middleware '' @ name) e)
              | Inr desired \<Rightarrow> upsertUnstructured K (mapi_gvk api) ''Middleware'' (ad_namespace appDef) name desired))"

definition pruneMiddlewares :: "'w k8s \<Rightarrow> AppDefinition \<Rightarrow> GVK \<Rightarrow> string list \<Rightarrow> ('w, unit result) prog" where
  "pruneMiddlewares K appDef gvk desiredNames = pruneUnstructured K appDef gvk ''Middleware'' desiredNames"

definition reconcileMiddlewares :: "'w k8s \<Rightarrow> AppDefinition \<Rightarrow> ('w, unit result) prog" where
  "reconcileMiddlewares K appDef = do {
     r \<leftarrow> resolveMiddlewareAPI K;
     case r of
       Inl e \<Rightarrow> if is_no_match e then ret () else fail (Wrap ''resolving Middleware API version'' e)
     | Inr api \<Rightarrow>
         tryM (each_flow (ensureMiddleware api K appDef) (domainMiddlewares appDef)) id (\<lambda>c. case c of
           ReturnNil \<Rightarrow> ret ()
         | Continue \<Rightarrow>
             pruneMiddlewares K appDef (mapi_gvk api) (map (middleware_of appDef) (domainMiddlewares appDef))) }"

section \<open>Writes\<close>

definition is_kind :: "string \<Rightarrow> kind \<Rightarrow> bool" where
  "is_kind n k = (case k of UnstructuredK g \<Rightarrow> g_kind g = n | _ \<Rightarrow> False)"

lemma is_kind_unstructured [simp]: "is_kind n (UnstructuredK g) \<longleftrightarrow> g_kind g = n"
  by (simp add: is_kind_def)

lemma resolveMiddlewareAPI_candidate:
  assumes "run_state (resolveMiddlewareAPI K) s = (Inr api, s')"
  shows "api \<in> set middlewareAPICandidates"
proof -
  have "api \<in> set cs" if "run_state (resolveMiddlewareAPI_from K (Some e) cs) s = (Inr api, s')" for e cs s
    using that by (induction cs arbitrary: e s) (auto split: sum.splits)
  then show ?thesis using assms
    by (auto simp: resolveMiddlewareAPI_def middlewareAPICandidates_def split: sum.splits if_splits)
qed

lemma ensureMiddleware_writes:
  assumes "retry_law K \<and> g_kind (mapi_gvk api) = ''Middleware''"
  shows "only_writes (ensures (is_kind ''Middleware'') appDef [middleware_of appDef dk]) (ensureMiddleware api K appDef dk)"
  unfolding ensureMiddleware_def Let_def
  using assms
  by (auto intro!: hoare only_writes_upsert split: sum.split dest!: own_unstructured_frame simp: desiredMiddleware_def)

interpretation mws: optional_child_kind "is_kind ''Middleware''" domainMiddlewares middleware_of ensureMiddleware
  "\<lambda>api K. retry_law K \<and> g_kind (mapi_gvk api) = ''Middleware''"
  by unfold_locales (rule ensureMiddleware_writes)

lemma only_writes_reconcileMiddlewares:
  assumes "retry_law K"
  shows "only_writes (child_write K appDef (is_kind ''Middleware'') (map (middleware_of appDef) (domainMiddlewares appDef)))
    (reconcileMiddlewares K appDef)"
  unfolding reconcileMiddlewares_def
proof (rule wo.eff_bind_result [OF only_writes_resolveMiddleware])
  fix r and s s' :: "'a st" assume r: "run_state (resolveMiddlewareAPI K) s = (r, s')"
  let ?P = "child_write K appDef (is_kind ''Middleware'') (map (middleware_of appDef) (domainMiddlewares appDef))"
  show "only_writes ?P (case r of
       Inl e \<Rightarrow> if is_no_match e then ret () else fail (Wrap ''resolving Middleware API version'' e)
     | Inr api \<Rightarrow>
         tryM (each_flow (ensureMiddleware api K appDef) (domainMiddlewares appDef)) id (\<lambda>c. case c of
           ReturnNil \<Rightarrow> ret ()
         | Continue \<Rightarrow>
             pruneMiddlewares K appDef (mapi_gvk api) (map (middleware_of appDef) (domainMiddlewares appDef))))"
  proof (cases r)
    case (Inr api)
    then have "api \<in> set middlewareAPICandidates" using resolveMiddlewareAPI_candidate r by blast
    then have kind: "g_kind (mapi_gvk api) = ''Middleware''" by (auto simp: middlewareAPICandidates_def)
    have "only_writes (child_write K appDef (is_kind ''Middleware'') (mws.names appDef))
        (pruneMiddlewares K appDef (mapi_gvk api) (map (middleware_of appDef) (domainMiddlewares appDef)))"
      unfolding pruneMiddlewares_def by (auto intro!: hoare simp: kind mws.names_def)
    then show ?thesis using mws.reconcile_writes [where x = api and K = K] assms kind Inr by (simp add: mws.names_def)
  qed (auto intro!: hoare)
qed

section \<open>Properties\<close>

definition kind_enabled :: "DomainSpec \<Rightarrow> string \<Rightarrow> bool" where
  "kind_enabled d k \<longleftrightarrow>
     (k = ''redirectscheme'' \<and> dom_TLS d \<and> dom_RedirectTLS d)
     \<or> (\<exists>mw. dom_Middlewares d = Some mw \<and>
          (k = ''redirectscheme'' \<and> mw_RedirectScheme mw \<noteq> None
           \<or> k = ''ipallow'' \<and> mw_IPWhiteList mw \<noteq> None
           \<or> k = ''ratelimit'' \<and> mw_RateLimit mw \<noteq> None
           \<or> k = ''forwardauth'' \<and> mw_ForwardAuth mw \<noteq> None
           \<or> k = ''basicauth'' \<and> mw_BasicAuth mw \<noteq> None
           \<or> k = ''headers'' \<and> mw_Headers mw \<noteq> None
           \<or> k = ''compress'' \<and> mw_Compress mw \<noteq> None
           \<or> k = ''rewrite'' \<and> mw_Rewrite mw \<noteq> None))"

lemma enabled_filter: "enabledMiddlewareKinds d = filter (kind_enabled d) chain_order"
  by (cases "dom_Middlewares d")
    (auto simp: enabledMiddlewareKinds_def kind_enabled_def chain_order_def Let_def)

lemma set_enabled: "set (enabledMiddlewareKinds d) = {k. kind_enabled d k}"
proof -
  have "kind_enabled d k \<Longrightarrow> k \<in> set chain_order" for k
    by (auto simp: kind_enabled_def chain_order_def)
  then show ?thesis by (auto simp: enabled_filter)
qed

lemma chain_order_no_dash: "k \<in> set chain_order \<Longrightarrow> CHR ''-'' \<notin> set k"
  by (auto simp: chain_order_def)

text \<open>
  The middlewares of a domain form a chain in one fixed order, whatever the order of the spec:
  redirect, address list, rate limit, the two authentications, headers, compression, rewriting;
  a kind is in the chain, once, exactly when the domain configures it (the redirect also when TLS
  with redirection is on).
\<close>

theorem middleware_chain:
  "subseq (enabledMiddlewareKinds d) chain_order \<and> distinct (enabledMiddlewareKinds d)
   \<and> set (enabledMiddlewareKinds d) = {k. kind_enabled d k}"
proof (intro conjI)
  show "subseq (enabledMiddlewareKinds d) chain_order" unfolding enabled_filter by (rule subseq_filter_left)
  have "distinct chain_order" by (simp add: chain_order_def)
  then show "distinct (enabledMiddlewareKinds d)" by (simp add: enabled_filter)
qed (rule set_enabled)

text \<open>The member under which Traefik expects the options of a kind.\<close>

definition traefik_key :: "middlewareAPI \<Rightarrow> string \<Rightarrow> string list" where
  "traefik_key api k =
     (if k = ''redirectscheme'' then [''redirectScheme''] else if k = ''ipallow'' then [mapi_ipListKey api]
      else if k = ''ratelimit'' then [''rateLimit''] else if k = ''forwardauth'' then [''forwardAuth'']
      else if k = ''basicauth'' then [''basicAuth''] else if k = ''headers'' then [''headers'']
      else if k = ''compress'' then [''compress'']
      else if k = ''rewrite'' then [''stripPrefix'', ''replacePathRegex'', ''addPrefix''] else [])"

lemmas middleware_builders = buildRedirectSchemeSpec_def buildIPAllowListSpec_def buildRateLimitSpec_def
  buildForwardAuthSpec_def buildBasicAuthSpec_def buildHeadersSpec_def buildCompressSpec_def buildRewriteSpec_def

text \<open>
  Building the spec of an enabled kind never dereferences nil and never falls to the default
  case: it yields an object with one member, of the name Traefik's API of that group gives the
  kind.
\<close>

theorem enabled_specs_build:
  "list_all (\<lambda>k. \<exists>key body. buildMiddlewareSpec k d api = Inr (JObj [(key, JObj body)]) \<and> key \<in> set (traefik_key api k))
     (enabledMiddlewareKinds d)"
  unfolding list_all_iff set_enabled
proof (intro ballI)
  fix k assume "k \<in> {k. kind_enabled d k}"
  then show "\<exists>key body. buildMiddlewareSpec k d api = Inr (JObj [(key, JObj body)]) \<and> key \<in> set (traefik_key api k)"
    unfolding mem_Collect_eq kind_enabled_def not_None_eq
    by (elim disjE exE conjE)
      (simp_all add: buildMiddlewareSpec_def with_field_def traefik_key_def middleware_builders Let_def
        split: option.splits)
qed

end
