(* ===== verification/ExternalSecrets.thy ===== *)
theory ExternalSecrets
  imports Middleware
begin

text \<open>
  \<open>reconcile_externalsecrets.go\<close>, \<open>reconcile_secretstore.go\<close> and
  \<open>reconcile_externalsecret_retry.go\<close>: the ExternalSecrets of the spec, the Vault store they read
  from, and the annotation that makes the External Secrets Operator try again.
\<close>

section \<open>ExternalSecrets\<close>

definition esoGroup :: string where
  "esoGroup = ''external-secrets.io''"

definition externalSecretAPIVersions :: "string list" where
  "externalSecretAPIVersions = [''v1'', ''v1beta1'', ''v1alpha1'']"

definition resolveExternalSecretGVK :: "'w k8s \<Rightarrow> ('w, GVK result) prog" where
  "resolveExternalSecretGVK K = resolvePreferredGVK K esoGroup ''ExternalSecret'' externalSecretAPIVersions"

definition remoteRef :: "ExternalSecretRemoteRef \<Rightarrow> gojson" where
  "remoteRef r =
     JObj ((''key'', JStr (rr_Key r))
           # member_if (rr_Property r \<noteq> '''') ''property'' (JStr (rr_Property r))
           @ member_if (rr_Version r \<noteq> '''') ''version'' (JStr (rr_Version r)))"

definition dataFromEntry :: "ExternalSecretDataFrom \<Rightarrow> gojson" where
  "dataFromEntry df =
     JObj [(''extract'', JObj ((''key'', JStr (esf_Key df))
                               # member_if (esf_Version df \<noteq> '''') ''version'' (JStr (esf_Version df))))]"

definition externalSecretName :: "AppDefinition \<Rightarrow> ExternalSecretMount \<Rightarrow> string" where
  "externalSecretName appDef es = childName appDef (es_Name es)"

definition externalSecretSpec :: "AppDefinition \<Rightarrow> ExternalSecretMount \<Rightarrow> gojson" where
  "externalSecretSpec appDef es =
     JObj
       [(''refreshInterval'', JStr (if es_RefreshInterval es = '''' then ''1m'' else es_RefreshInterval es)),
        (''secretStoreRef'', JObj
          [(''name'', JStr (es_Store es)),
           (''kind'', JStr (if es_StoreKind es = '''' then implicitStoreKind else es_StoreKind es))]),
        (''target'', JObj
          [(''name'', JStr (externalSecretName appDef es)),
           (''creationPolicy'', JStr ''Owner''),
           (''template'', JObj [(''metadata'', JObj [(''labels'', labelsToInterface (standardLabels (ad_name appDef)))])])]),
        (''data'', JList (map (\<lambda>d. JObj [(''secretKey'', JStr (esd_SecretKey d)), (''remoteRef'', remoteRef (esd_RemoteRef d))])
          (es_Data es))),
        (''dataFrom'', JList (map dataFromEntry (es_DataFrom es)))]"

definition desiredExternalSecret :: "AppDefinition \<Rightarrow> GVK \<Rightarrow> ExternalSecretMount \<Rightarrow> Unstructured" where
  "desiredExternalSecret appDef gvk es =
     \<lparr>u_apiVersion = group_version gvk, u_kind = g_kind gvk,
      u_meta = (object_meta (externalSecretName appDef es) (ad_namespace appDef))
                 \<lparr>m_labels := standardLabels (ad_name appDef)\<rparr>,
      u_fields = [(''spec'', externalSecretSpec appDef es)]\<rparr>"

definition ensureExternalSecret :: "GVK \<Rightarrow> 'w k8s \<Rightarrow> AppDefinition \<Rightarrow> ExternalSecretMount \<Rightarrow> ('w, flow result) prog" where
  "ensureExternalSecret gvk K appDef es =
     (let name = externalSecretName appDef es
      in case own_unstructured K appDef (desiredExternalSecret appDef gvk es) of
           Inl e \<Rightarrow> fail (Wrap (''setting owner reference on ExternalSecret '' @ name) e)
         | Inr desired \<Rightarrow> upsertUnstructured K gvk ''ExternalSecret'' (ad_namespace appDef) name desired)"

definition pruneExternalSecrets :: "'w k8s \<Rightarrow> AppDefinition \<Rightarrow> GVK \<Rightarrow> string list \<Rightarrow> ('w, unit result) prog" where
  "pruneExternalSecrets K appDef gvk desiredNames = pruneUnstructured K appDef gvk ''ExternalSecret'' desiredNames"

definition reconcileExternalSecrets :: "'w k8s \<Rightarrow> AppDefinition \<Rightarrow> ('w, unit result) prog" where
  "reconcileExternalSecrets K appDef = do {
     r \<leftarrow> resolveExternalSecretGVK K;
     case r of
       Inl e \<Rightarrow> if is_no_match e then ret () else fail (Wrap ''resolving ExternalSecret API version'' e)
     | Inr gvk \<Rightarrow>
         tryM (each_flow (ensureExternalSecret gvk K appDef) (spec_ExternalSecrets (ad_spec appDef))) id (\<lambda>c. case c of
           ReturnNil \<Rightarrow> ret ()
         | Continue \<Rightarrow>
             pruneExternalSecrets K appDef gvk
               (map (externalSecretName appDef) (spec_ExternalSecrets (ad_spec appDef)))) }"

section \<open>SecretStore\<close>

definition resolveSecretStoreGVK :: "'w k8s \<Rightarrow> ('w, GVK result) prog" where
  "resolveSecretStoreGVK K = resolvePreferredGVK K esoGroup ''SecretStore'' [''v1'', ''v1beta1'', ''v1alpha1'']"

definition secretStoreScope :: "SecretStoreSpec \<Rightarrow> string" where
  "secretStoreScope store = (if ss_Scope store = '''' then ''Namespace'' else ss_Scope store)"

definition secretStoreServiceAccountName :: "AppDefinition \<Rightarrow> SecretStoreSpec \<Rightarrow> string" where
  "secretStoreServiceAccountName appDef store =
     (if secretStoreScope store = ''App'' then ad_name appDef else ad_namespace appDef)"

definition or_default :: "string \<Rightarrow> string \<Rightarrow> string" where
  "or_default d s = (if s = '''' then d else s)"

definition buildSecretStore :: "AppDefinition \<Rightarrow> SecretStoreSpec \<Rightarrow> GVK \<Rightarrow> Unstructured" where
  "buildSecretStore appDef store gvk =
     (let saName = secretStoreServiceAccountName appDef store; vault = ss_Vault store
      in \<lparr>u_apiVersion = group_version gvk, u_kind = g_kind gvk,
          u_meta = object_meta (ss_Name store) (ad_namespace appDef),
          u_fields = [(''spec'', JObj [(''provider'', JObj [(''vault'', JObj
            [(''server'', JStr (va_Server vault)),
             (''path'', JStr (or_default ''secret'' (va_Path vault))),
             (''version'', JStr (or_default ''v2'' (va_Version vault))),
             (''auth'', JObj [(''kubernetes'', JObj
               [(''mountPath'', JStr (or_default ''kubernetes'' (va_AuthMountPath vault))),
                (''role'', JStr (or_default (ad_namespace appDef @ ''-'' @ saName) (va_Role vault))),
                (''serviceAccountRef'', JObj [(''name'', JStr saName)])])])])])])]\<rparr>)"

definition own_if :: "bool \<Rightarrow> 'w k8s \<Rightarrow> AppDefinition \<Rightarrow> ObjectMeta \<Rightarrow> ObjectMeta result" where
  "own_if owned K appDef m = (if owned then set_controller_reference K appDef m else Inr m)"

definition ensureSecretStoreServiceAccount :: "'w k8s \<Rightarrow> AppDefinition \<Rightarrow> SecretStoreSpec \<Rightarrow> bool \<Rightarrow> ('w, unit result) prog" where
  "ensureSecretStoreServiceAccount K appDef store owned =
     (let name = secretStoreServiceAccountName appDef store
      in do {
        r \<leftarrow> lift (rget (k_serviceAccounts K) (ad_namespace appDef) name);
        case r of
          Inr _ \<Rightarrow> ret ()
        | Inl e \<Rightarrow>
            if \<not> is_not_found e then fail (Wrap (''getting SecretStore ServiceAccount '' @ name) e)
            else (case own_if owned K appDef (object_meta name (ad_namespace appDef)) of
                    Inl e \<Rightarrow> fail (Wrap (''setting owner reference on ServiceAccount '' @ name) e)
                  | Inr m \<Rightarrow> do {
                      c \<leftarrow> do_create (k_serviceAccounts K) ServiceAccountK sa_meta \<lparr>sa_meta = m, sa_rest = JObj []\<rparr>;
                      case c of
                        Inl ce \<Rightarrow>
                          if is_already_exists ce then ret ()
                          else fail (Wrap (''creating SecretStore ServiceAccount '' @ name) ce)
                      | Inr _ \<Rightarrow> ret () }) })"

definition createSecretStore :: "'w k8s \<Rightarrow> AppDefinition \<Rightarrow> SecretStoreSpec \<Rightarrow> bool \<Rightarrow> GVK \<Rightarrow> ('w, unit result) prog" where
  "createSecretStore K appDef store owned gvk =
     (let desired = buildSecretStore appDef store gvk
      in case own_if owned K appDef (u_meta desired) of
           Inl e \<Rightarrow> fail (Wrap (''setting owner reference on SecretStore '' @ ss_Name store) e)
         | Inr m \<Rightarrow> do {
             c \<leftarrow> do_create (k_unstructured K gvk) (UnstructuredK gvk) u_meta (desired\<lparr>u_meta := m\<rparr>);
             case c of
               Inl e \<Rightarrow>
                 if is_already_exists e \<or> is_no_match e then ret ()
                 else fail (Wrap (''creating SecretStore '' @ ss_Name store) e)
             | Inr _ \<Rightarrow> ret () })"

definition reconcileSecretStore :: "'w k8s \<Rightarrow> AppDefinition \<Rightarrow> ('w, unit result) prog" where
  "reconcileSecretStore K appDef =
     (case spec_SecretStore (ad_spec appDef) of
        None \<Rightarrow> ret ()
      | Some store \<Rightarrow>
          let owned = (secretStoreScope store = ''App'')
          in tryM (ensureSecretStoreServiceAccount K appDef store owned) id (\<lambda>_. do {
            r \<leftarrow> resolveSecretStoreGVK K;
            case r of
              Inl e \<Rightarrow> if is_no_match e then ret () else fail (Wrap ''resolving SecretStore API version'' e)
            | Inr gvk \<Rightarrow> do {
                g \<leftarrow> lift (rget_live (k_unstructured K gvk) (ad_namespace appDef) (ss_Name store));
                case g of
                  Inr _ \<Rightarrow> ret ()
                | Inl e \<Rightarrow>
                    if is_no_match e then ret ()
                    else if \<not> is_not_found e then fail (Wrap (''getting SecretStore '' @ ss_Name store) e)
                    else createSecretStore K appDef store owned gvk } }))"

section \<open>Nudging a failed sync\<close>

definition revalidateAnnotation :: string where
  "revalidateAnnotation = ''appdefinition.abexamir.me/revalidate-at''"

text \<open>Times are nanoseconds.\<close>

definition second :: int where
  "second = 1000000000"

definition externalSecretsRetryInterval :: int where
  "externalSecretsRetryInterval = 30 * second"

text \<open>
  \<open>unstructured.NestedSlice(obj.Object, "status", "conditions")\<close>: the list, if both members are
  there and have the expected type; the code treats an error as a missing list.
\<close>

definition json_get :: "(string \<times> gojson) list \<Rightarrow> string \<Rightarrow> gojson" where
  "json_get o' k = (case map_of o' k of None \<Rightarrow> JNull | Some v \<Rightarrow> v)"

definition eso_conditions :: "Unstructured \<Rightarrow> gojson list option" where
  "eso_conditions u =
     (case map_of (u_fields u) ''status'' of
        Some (JObj st) \<Rightarrow> (case map_of st ''conditions'' of Some (JList cs) \<Rightarrow> Some cs | _ \<Rightarrow> None)
      | _ \<Rightarrow> None)"

fun ready_condition :: "gojson list \<Rightarrow> bool \<times> bool" where
  "ready_condition [] = (False, False)"
| "ready_condition (JObj c # cs) =
     (if json_get c ''type'' \<noteq> JStr ''Ready'' then ready_condition cs
      else (True, json_get c ''status'' = JStr ''True''))"
| "ready_condition (_ # cs) = ready_condition cs"

definition esoReadyStatus :: "Unstructured \<Rightarrow> bool \<times> bool" where
  "esoReadyStatus obj = (case eso_conditions obj of None \<Rightarrow> (False, False) | Some cs \<Rightarrow> ready_condition cs)"

definition revalidationDue :: "'w k8s \<Rightarrow> Unstructured \<Rightarrow> int \<Rightarrow> bool" where
  "revalidationDue K obj now =
     (case map_of (m_annotations (u_meta obj)) revalidateAnnotation of
        None \<Rightarrow> True
      | Some last' \<Rightarrow>
          (case k_parseRFC3339 K last' of
             None \<Rightarrow> True
           | Some t \<Rightarrow> now - t \<ge> externalSecretsRetryInterval))"

definition nudged :: "'w k8s \<Rightarrow> int \<Rightarrow> Unstructured \<Rightarrow> Unstructured" where
  "nudged K now obj = obj\<lparr>u_meta := (u_meta obj)
     \<lparr>m_annotations := map_put revalidateAnnotation (k_formatRFC3339 K now) (m_annotations (u_meta obj))\<rparr>\<rparr>"

definition retryIfNotReady :: "'w k8s \<Rightarrow> GVK \<Rightarrow> string \<Rightarrow> string \<Rightarrow> int \<Rightarrow> ('w, bool result) prog" where
  "retryIfNotReady K gvk ns name now =
     (let rc = k_unstructured K gvk
      in do {
        r \<leftarrow> lift (rget_live rc ns name);
        case r of
          Inl e \<Rightarrow>
            if is_not_found e \<or> is_no_match e then ret False
            else fail (Wrap (''getting '' @ g_kind gvk @ '' '' @ name) e)
        | Inr obj \<Rightarrow>
            (let (known, ready) = esoReadyStatus obj
             in if ready then ret False
                else if \<not> known \<or> \<not> revalidationDue K obj now then ret True
                else do {
                  p \<leftarrow> do_patch rc (UnstructuredK gvk) u_meta obj (nudged K now obj);
                  case ignore_not_found p of
                    Inl e \<Rightarrow> fail (Wrap (''annotating '' @ g_kind gvk @ '' '' @ name @ '' for revalidation'') e)
                  | Inr _ \<Rightarrow> ret True }) })"

fun retryAll :: "'w k8s \<Rightarrow> AppDefinition \<Rightarrow> GVK \<Rightarrow> int \<Rightarrow> bool \<Rightarrow> ExternalSecretMount list \<Rightarrow> ('w, bool result) prog" where
  "retryAll K appDef gvk now pending [] = ret pending"
| "retryAll K appDef gvk now pending (es # ess) =
     tryM (retryIfNotReady K gvk (ad_namespace appDef) (externalSecretName appDef es) now) id
       (\<lambda>p. retryAll K appDef gvk now (pending \<or> p) ess)"

definition retryStore :: "'w k8s \<Rightarrow> AppDefinition \<Rightarrow> int \<Rightarrow> ('w, bool result) prog" where
  "retryStore K appDef now =
     (case spec_SecretStore (ad_spec appDef) of
        None \<Rightarrow> ret False
      | Some store \<Rightarrow> do {
          r \<leftarrow> resolveSecretStoreGVK K;
          case r of
            Inl e \<Rightarrow> if is_no_match e then ret False else fail (Wrap ''resolving SecretStore API version'' e)
          | Inr gvk \<Rightarrow> retryIfNotReady K gvk (ad_namespace appDef) (ss_Name store) now })"

definition retryFailedExternalSecrets :: "'w k8s \<Rightarrow> AppDefinition \<Rightarrow> ('w, bool result) prog" where
  "retryFailedExternalSecrets K appDef =
     (if spec_ExternalSecrets (ad_spec appDef) = [] then ret False
      else do {
        now \<leftarrow> lift (k_now K);
        tryM (retryStore K appDef now) id (\<lambda>pending. do {
          r \<leftarrow> resolveExternalSecretGVK K;
          case r of
            Inl e \<Rightarrow> if is_no_match e then ret pending else fail (Wrap ''resolving ExternalSecret API version'' e)
          | Inr gvk \<Rightarrow> retryAll K appDef gvk now pending (spec_ExternalSecrets (ad_spec appDef)) }) })"

section \<open>Writes\<close>

text \<open>A REST mapping, documented: it is a mapping of the group and kind asked for.\<close>

definition rest_mapping_law :: "'w k8s \<Rightarrow> bool" where
  "rest_mapping_law K \<longleftrightarrow>
     (\<forall>grp knd v w gvk w'. run_state (k_restMapping K grp knd v) w = (Inr gvk, w') \<longrightarrow>
        g_group gvk = grp \<and> g_kind gvk = knd)"

lemma resolvePreferredGVK_kind:
  assumes "rest_mapping_law K" and "run_state (resolvePreferredGVK K grp knd (v # vs)) s = (Inr gvk, s')"
  shows "g_group gvk = grp \<and> g_kind gvk = knd"
proof -
  have "g_group gvk = grp \<and> g_kind gvk = knd"
    if "run_state (resolvePreferredGVK_from K grp knd e vs) s = (Inr gvk, s')" and "vs \<noteq> [] \<or> e \<noteq> None" for e vs s
    using that
  proof (induction vs arbitrary: e s)
    case (Cons v vs)
    obtain r w where r: "run_state (k_restMapping K grp knd v) (world s) = (r, w)"
      by (cases "run_state (k_restMapping K grp knd v) (world s)")
    show ?case
    proof (cases r)
      case (Inl e')
      then show ?thesis using Cons r by (auto split: prod.splits)
    next
      case (Inr g)
      then have "g = gvk" using Cons.prems r by simp
      then show ?thesis using assms(1) r Inr unfolding rest_mapping_law_def by blast
    qed
  qed (auto split: option.splits)
  then show ?thesis using assms(2) by (simp add: resolvePreferredGVK_def del: resolvePreferredGVK_from.simps)
qed

lemma resolveExternalSecretGVK_kind:
  "rest_mapping_law K \<Longrightarrow> run_state (resolveExternalSecretGVK K) s = (Inr gvk, s') \<Longrightarrow>
   g_group gvk = esoGroup \<and> g_kind gvk = ''ExternalSecret''"
  unfolding resolveExternalSecretGVK_def externalSecretAPIVersions_def by (rule resolvePreferredGVK_kind)

lemma resolveSecretStoreGVK_kind:
  "rest_mapping_law K \<Longrightarrow> run_state (resolveSecretStoreGVK K) s = (Inr gvk, s') \<Longrightarrow>
   g_group gvk = esoGroup \<and> g_kind gvk = ''SecretStore''"
  unfolding resolveSecretStoreGVK_def by (rule resolvePreferredGVK_kind)

lemma ensureExternalSecret_writes:
  assumes "retry_law K \<and> g_kind gvk = ''ExternalSecret''"
  shows "only_writes (ensures (is_kind ''ExternalSecret'') appDef [externalSecretName appDef es])
    (ensureExternalSecret gvk K appDef es)"
  unfolding ensureExternalSecret_def Let_def
  using assms
  by (auto intro!: hoare only_writes_upsert split: sum.split dest!: own_unstructured_frame simp: desiredExternalSecret_def)

interpretation ess: optional_child_kind "is_kind ''ExternalSecret''" "\<lambda>a. spec_ExternalSecrets (ad_spec a)"
  externalSecretName ensureExternalSecret "\<lambda>gvk K. retry_law K \<and> g_kind gvk = ''ExternalSecret''"
  by unfold_locales (rule ensureExternalSecret_writes)

lemma only_writes_reconcileExternalSecrets:
  assumes "retry_law K" and "rest_mapping_law K"
  shows "only_writes (child_write K appDef (is_kind ''ExternalSecret'')
    (map (externalSecretName appDef) (spec_ExternalSecrets (ad_spec appDef)))) (reconcileExternalSecrets K appDef)"
  unfolding reconcileExternalSecrets_def
proof (rule wo.eff_bind_result)
  show "only_writes (child_write K appDef (is_kind ''ExternalSecret'')
    (map (externalSecretName appDef) (spec_ExternalSecrets (ad_spec appDef)))) (resolveExternalSecretGVK K)"
    unfolding resolveExternalSecretGVK_def by (rule only_writes_resolve)
  fix r and s s' :: "'a st" assume r: "run_state (resolveExternalSecretGVK K) s = (r, s')"
  let ?P = "child_write K appDef (is_kind ''ExternalSecret'') (map (externalSecretName appDef) (spec_ExternalSecrets (ad_spec appDef)))"
  show "only_writes ?P (case r of
       Inl e \<Rightarrow> if is_no_match e then ret () else fail (Wrap ''resolving ExternalSecret API version'' e)
     | Inr gvk \<Rightarrow>
         tryM (each_flow (ensureExternalSecret gvk K appDef) (spec_ExternalSecrets (ad_spec appDef))) id (\<lambda>c. case c of
           ReturnNil \<Rightarrow> ret ()
         | Continue \<Rightarrow>
             pruneExternalSecrets K appDef gvk
               (map (externalSecretName appDef) (spec_ExternalSecrets (ad_spec appDef)))))"
  proof (cases r)
    case (Inr gvk)
    then have kind: "g_kind gvk = ''ExternalSecret''" using resolveExternalSecretGVK_kind [OF assms(2)] r by blast
    have "only_writes (child_write K appDef (is_kind ''ExternalSecret'') (ess.names appDef))
        (pruneExternalSecrets K appDef gvk (map (externalSecretName appDef) (spec_ExternalSecrets (ad_spec appDef))))"
      unfolding pruneExternalSecrets_def by (auto intro!: hoare simp: kind ess.names_def)
    then show ?thesis using ess.reconcile_writes [where x = gvk and K = K] assms(1) kind Inr by (simp add: ess.names_def)
  qed (auto intro!: hoare)
qed

lemma own_if_frame:
  "own_if owned K appDef m = Inr m' \<Longrightarrow> m_name m' = m_name m \<and> m_namespace m' = m_namespace m
   \<and> (\<not> owned \<longrightarrow> m' = m)"
  by (auto simp: own_if_def split: if_splits dest: set_controller_reference_frame)

text \<open>What provisioning the store may write: creations only.\<close>

definition store_write :: "AppDefinition \<Rightarrow> api_write \<Rightarrow> bool" where
  "store_write appDef e =
     (case (spec_SecretStore (ad_spec appDef), e) of
        (Some store, WCreate k m) \<Rightarrow>
          m_namespace m = ad_namespace appDef
          \<and> (k = ServiceAccountK \<and> m_name m = secretStoreServiceAccountName appDef store
             \<or> is_kind ''SecretStore'' k \<and> m_name m = ss_Name store)
          \<and> (secretStoreScope store \<noteq> ''App'' \<longrightarrow> m_ownerRefs m = [])
      | _ \<Rightarrow> False)"

lemma only_writes_reconcileSecretStore:
  assumes "rest_mapping_law K"
  shows "only_writes (store_write appDef) (reconcileSecretStore K appDef)"
proof (cases "spec_SecretStore (ad_spec appDef)")
  case None
  then show ?thesis by (auto simp: reconcileSecretStore_def intro!: hoare)
next
  case (Some store)
  have sa: "only_writes (store_write appDef) (ensureSecretStoreServiceAccount K appDef store (secretStoreScope store = ''App''))"
  proof (cases "own_if (secretStoreScope store = ''App'') K appDef
      (object_meta (secretStoreServiceAccountName appDef store) (ad_namespace appDef))")
    case (Inl e)
    then show ?thesis unfolding ensureSecretStoreServiceAccount_def Let_def
      by (auto intro!: hoare split: sum.split)
  next
    case (Inr m)
    have "store_write appDef (WCreate ServiceAccountK m)"
      using own_if_frame [OF Inr] by (simp add: store_write_def Some)
    then show ?thesis unfolding ensureSecretStoreServiceAccount_def Let_def Inr
      by (auto intro!: hoare split: sum.split)
  qed
  have create: "only_writes (store_write appDef) (createSecretStore K appDef store (secretStoreScope store = ''App'') gvk)"
    if "g_kind gvk = ''SecretStore''" for gvk
  proof (cases "own_if (secretStoreScope store = ''App'') K appDef (u_meta (buildSecretStore appDef store gvk))")
    case (Inl e)
    then show ?thesis unfolding createSecretStore_def Let_def by (auto intro!: hoare)
  next
    case (Inr m)
    have "store_write appDef (WCreate (UnstructuredK gvk) m)"
      using own_if_frame [OF Inr] by (simp add: store_write_def Some that buildSecretStore_def Let_def)
    then show ?thesis unfolding createSecretStore_def Let_def Inr
      by (auto intro!: hoare split: sum.split)
  qed
  have rest: "only_writes (store_write appDef) (do {
      r \<leftarrow> resolveSecretStoreGVK K;
      case r of
        Inl e \<Rightarrow> if is_no_match e then ret () else fail (Wrap ''resolving SecretStore API version'' e)
      | Inr gvk \<Rightarrow> do {
          g \<leftarrow> lift (rget_live (k_unstructured K gvk) (ad_namespace appDef) (ss_Name store));
          case g of
            Inr _ \<Rightarrow> ret ()
          | Inl e \<Rightarrow>
              if is_no_match e then ret ()
              else if \<not> is_not_found e then fail (Wrap (''getting SecretStore '' @ ss_Name store) e)
              else createSecretStore K appDef store (secretStoreScope store = ''App'') gvk } })"
  proof (rule wo.eff_bind_result)
    show "only_writes (store_write appDef) (resolveSecretStoreGVK K)"
      unfolding resolveSecretStoreGVK_def by (rule only_writes_resolve)
  qed (auto intro!: hoare create split: sum.split dest: resolveSecretStoreGVK_kind [OF assms])
  show ?thesis unfolding reconcileSecretStore_def Some option.case Let_def by (intro hoare sa rest)
qed

section \<open>Properties\<close>

text \<open>
  C31. A store is only ever created: reconciling \<open>spec.secretStore\<close> requests creations and nothing
  else, of the ServiceAccount and of the SecretStore the spec names, in the application's
  namespace; with the scope \<open>Namespace\<close> neither has an owner, so that the deletion of one
  application does not collect what the others use. An existing object is never written: with both
  there, whatever they hold, the reconcile succeeds and requests nothing at all. (So a change of
  theirs is not reverted, as a comment in \<open>SetupWithManager\<close> has it; only a missing one comes back.)
\<close>

theorem secret_store_create_only:
  assumes "rest_mapping_law K"
  shows "list_all (store_write appDef) (new_writes s (snd (run_state (reconcileSecretStore K appDef) s)))
    \<and> (spec_SecretStore (ad_spec appDef) = Some store
        \<and> run_state (rget (k_serviceAccounts K) (ad_namespace appDef) (secretStoreServiceAccountName appDef store)) (world s) = (Inr sa, w)
        \<and> run_state (resolveSecretStoreGVK K) (s\<lparr>world := w\<rparr>) = (Inr gvk, s')
        \<and> run_state (rget_live (k_unstructured K gvk) (ad_namespace appDef) (ss_Name store)) (world s') = (Inr obj, w') \<longrightarrow>
       run_state (reconcileSecretStore K appDef) s = (Inr (), s'\<lparr>world := w'\<rparr>) \<and> writes s' = writes s)"
proof (intro conjI impI)
  show "list_all (store_write appDef) (new_writes s (snd (run_state (reconcileSecretStore K appDef) s)))"
    using only_writes_reconcileSecretStore [OF assms, of appDef]
    by (auto simp: state_io_rel_def writes_only_def new_writes_def dest!: spec [where x = s])
next
  assume here: "spec_SecretStore (ad_spec appDef) = Some store
        \<and> run_state (rget (k_serviceAccounts K) (ad_namespace appDef) (secretStoreServiceAccountName appDef store)) (world s) = (Inr sa, w)
        \<and> run_state (resolveSecretStoreGVK K) (s\<lparr>world := w\<rparr>) = (Inr gvk, s')
        \<and> run_state (rget_live (k_unstructured K gvk) (ad_namespace appDef) (ss_Name store)) (world s') = (Inr obj, w')"
  then show "run_state (reconcileSecretStore K appDef) s = (Inr (), s'\<lparr>world := w'\<rparr>)"
    by (simp add: reconcileSecretStore_def ensureSecretStoreServiceAccount_def Let_def run_tryM)
  have "writes_only (\<lambda>_. False) (s\<lparr>world := w\<rparr>) s'"
    using here by (intro only_writesD [OF only_writes_resolve]) (auto simp: resolveSecretStoreGVK_def)
  then show "writes s' = writes s" by (auto simp: writes_only_def list_all_iff)
qed

text \<open>
  The conditions of the type \<open>Ready\<close>, read off the object: those members of the list
  \<open>status.conditions\<close> that are objects with that type.
\<close>

definition ready_conditions :: "Unstructured \<Rightarrow> (string \<times> gojson) list list" where
  "ready_conditions u =
     (case map_of (u_fields u) ''status'' of
        Some (JObj st) \<Rightarrow>
          (case map_of st ''conditions'' of
             Some (JList cs) \<Rightarrow>
               concat (map (\<lambda>c. case c of
                 JObj o' \<Rightarrow> if map_of o' ''type'' = Some (JStr ''Ready'') then [o'] else [] | _ \<Rightarrow> []) cs)
           | _ \<Rightarrow> [])
      | _ \<Rightarrow> [])"

lemma json_get_JStr: "json_get c k = JStr v \<longleftrightarrow> map_of c k = Some (JStr v)"
  by (simp add: json_get_def split: option.split)

lemma esoReadyStatus_conditions:
  "esoReadyStatus obj =
     (case ready_conditions obj of [] \<Rightarrow> (False, False) | c # _ \<Rightarrow> (True, map_of c ''status'' = Some (JStr ''True'')))"
proof -
  have "ready_condition cs =
      (case concat (map (\<lambda>c. case c of
          JObj o' \<Rightarrow> if map_of o' ''type'' = Some (JStr ''Ready'') then [o'] else [] | _ \<Rightarrow> []) cs) of
         [] \<Rightarrow> (False, False) | c # _ \<Rightarrow> (True, map_of c ''status'' = Some (JStr ''True'')))" for cs
    by (induction cs rule: ready_condition.induct) (simp_all add: json_get_JStr)
  then show ?thesis
    by (simp add: esoReadyStatus_def eso_conditions_def ready_conditions_def split: option.split gojson.split)
qed

text \<open>
  C29. The decision to nudge, on every branch. An object that is missing, or of a kind that is not
  installed, is settled; any other failed read is an error. What the first of its conditions of
  type \<open>Ready\<close> says decides the rest: with the status \<open>True\<close> the object is settled, and without such
  a condition it is pending, and nothing is written; with any other status it is pending, and nothing
  is written if its annotation \<open>appdefinition.abexamir.me/revalidate-at\<close> is a time less than 30
  seconds ago. Only otherwise (an older stamp, none, or one that is no time) is it patched, once, with
  that annotation set to the time now.
\<close>

theorem retry_decision:
  "case run_state (rget_live (k_unstructured K gvk) ns name) (world s) of (r, w) \<Rightarrow>
     (case r of
        Inl e \<Rightarrow>
          run_state (retryIfNotReady K gvk ns name now) s =
            (if is_not_found e \<or> is_no_match e then Inr False
             else Inl (Wrap (''getting '' @ g_kind gvk @ '' '' @ name) e), s\<lparr>world := w\<rparr>)
      | Inr obj \<Rightarrow>
          (case ready_conditions obj of
             [] \<Rightarrow> run_state (retryIfNotReady K gvk ns name now) s = (Inr True, s\<lparr>world := w\<rparr>)
           | c # _ \<Rightarrow>
               if map_of c ''status'' = Some (JStr ''True'') then
                 run_state (retryIfNotReady K gvk ns name now) s = (Inr False, s\<lparr>world := w\<rparr>)
               else if \<exists>stamp t. map_of (m_annotations (u_meta obj)) ''appdefinition.abexamir.me/revalidate-at'' = Some stamp
                      \<and> k_parseRFC3339 K stamp = Some t \<and> now - t < 30 * 1000000000 then
                 run_state (retryIfNotReady K gvk ns name now) s = (Inr True, s\<lparr>world := w\<rparr>)
               else
                 (let obj' = obj\<lparr>u_meta := (u_meta obj)\<lparr>m_annotations :=
                        map_put ''appdefinition.abexamir.me/revalidate-at'' (k_formatRFC3339 K now) (m_annotations (u_meta obj))\<rparr>\<rparr>
                  in case run_state (rpatch (k_unstructured K gvk) obj obj') w of (p, w') \<Rightarrow>
                       run_state (retryIfNotReady K gvk ns name now) s =
                         (case p of
                            Inl e \<Rightarrow> if is_not_found e then Inr True
                              else Inl (Wrap (''annotating '' @ g_kind gvk @ '' '' @ name @ '' for revalidation'') e)
                          | Inr _ \<Rightarrow> Inr True,
                          s\<lparr>world := w', writes := writes s @ [WPatch (UnstructuredK gvk) (u_meta obj')]\<rparr>))))"
proof -
  obtain r w where read: "run_state (rget_live (k_unstructured K gvk) ns name) (world s) = (r, w)" by fastforce
  show ?thesis
  proof (cases r)
    case (Inr obj)
    have due: "(\<exists>stamp t. map_of (m_annotations (u_meta obj)) ''appdefinition.abexamir.me/revalidate-at'' = Some stamp
          \<and> k_parseRFC3339 K stamp = Some t \<and> now - t < 30 * 1000000000) \<longleftrightarrow> \<not> revalidationDue K obj now"
      by (auto simp: revalidationDue_def revalidateAnnotation_def externalSecretsRetryInterval_def second_def
          split: option.splits)
    show ?thesis
      unfolding read Inr prod.case sum.case due using read Inr
      by (auto simp: retryIfNotReady_def Let_def do_patch_def esoReadyStatus_conditions nudged_def revalidateAnnotation_def
          ignore_not_found_def split: list.split sum.split prod.split)
  qed (use read in \<open>simp add: retryIfNotReady_def Let_def\<close>)
qed

text \<open>
  C30. Throttling: with a clock stamp that RFC 3339 keeps to the second, an object nudged at \<open>now\<close>
  and otherwise untouched is due again exactly when the interval has passed since the start of
  that second, so never within 29 seconds and always after 30. The nudge sets one annotation to the
  stamp and changes nothing else of the object: no other annotation, and no label, owner reference,
  finalizer or other metadata, nor its kind, API version or fields.
\<close>

theorem nudge_throttle:
  assumes "k_parseRFC3339 K (k_formatRFC3339 K now) = Some (now - now mod second)"
  shows "(revalidationDue K (nudged K now obj) later \<longleftrightarrow> later - now \<ge> 30 * second - now mod second)
    \<and> (later - now \<ge> 30 * second \<longrightarrow> revalidationDue K (nudged K now obj) later)
    \<and> (later - now \<le> 29 * second \<longrightarrow> \<not> revalidationDue K (nudged K now obj) later)
    \<and> nudged K now obj = obj\<lparr>u_meta := (u_meta obj)\<lparr>m_annotations := m_annotations (u_meta (nudged K now obj))\<rparr>\<rparr>
    \<and> map_of (m_annotations (u_meta (nudged K now obj))) = (map_of (m_annotations (u_meta obj)))
        (''appdefinition.abexamir.me/revalidate-at'' \<mapsto> k_formatRFC3339 K now)"
proof -
  have due: "revalidationDue K (nudged K now obj) later \<longleftrightarrow> later - now \<ge> 30 * second - now mod second"
    using assms by (auto simp: revalidationDue_def nudged_def externalSecretsRetryInterval_def)
  have "0 \<le> now mod second" "now mod second < second" by (simp_all add: second_def)
  then show ?thesis unfolding due by (auto simp: nudged_def revalidateAnnotation_def)
qed

definition drops_annotations :: "'w k8s \<Rightarrow> api_write \<Rightarrow> bool" where
  "drops_annotations K e =
     (case e of
        WCreate k m \<Rightarrow> m_annotations m = [] \<and> (\<forall>u now. u_meta u = m \<longrightarrow> revalidationDue K u now)
      | WUpdate k m \<Rightarrow> m_annotations m = [] \<and> (\<forall>u now. u_meta u = m \<longrightarrow> revalidationDue K u now)
      | WDelete k m \<Rightarrow> True
      | _ \<Rightarrow> False)"

lemma retry_first:
  assumes "retry_law K" and "run_state m s = (Inr (), s')"
  shows "run_state (k_retryOnConflict K m) s = (Inr (), s')"
proof -
  obtain n where "run_state (k_retryOnConflict K m) s = run_state (attempts is_conflict n m) s"
    using assms(1) by (auto simp: retry_law_def)
  then show ?thesis using attempts_first [OF assms(2)] by simp
qed


section \<open>Concrete instances\<close>

lemma mem_rest_mapping_law: "rest_mapping_law mem"
  by (auto simp: rest_mapping_law_def mem_def find_Some_iff split: option.splits)

text \<open>A cluster where the External Secrets Operator is installed, and an application with a store.\<close>

definition store_gvk :: GVK where
  "store_gvk = \<lparr>g_group = ''external-secrets.io'', g_version = ''v1'', g_kind = ''SecretStore''\<rparr>"

definition eso_gvk :: GVK where
  "eso_gvk = \<lparr>g_group = ''external-secrets.io'', g_version = ''v1'', g_kind = ''ExternalSecret''\<rparr>"

definition eso_cluster :: cluster where
  "eso_cluster = empty_cluster\<lparr>cl_kinds := [store_gvk, eso_gvk]\<rparr>"

definition example_store :: SecretStoreSpec where
  "example_store = \<lparr>ss_Name = ''vault'', ss_Scope = '''', ss_Vault =
     \<lparr>va_Server = ''https://vault'', va_Path = '''', va_Version = '''', va_AuthMountPath = '''', va_Role = ''''\<rparr>\<rparr>"

definition example_store_app :: AppDefinition where
  "example_store_app = (zero_app ''web'' ''prod'')\<lparr>ad_spec := zero_spec\<lparr>spec_SecretStore := Some example_store\<rparr>\<rparr>"

lemma secret_store_create_only_witness:
  "new_writes (mem_st eso_cluster) (snd (run_state (reconcileSecretStore mem example_store_app) (mem_st eso_cluster)))
     = [WCreate ServiceAccountK (object_meta ''prod'' ''prod''), WCreate (UnstructuredK store_gvk) (object_meta ''vault'' ''prod'')]
   \<and> store_write example_store_app (WCreate (UnstructuredK store_gvk) (object_meta ''vault'' ''prod''))"
proof -
  have made: "new_writes (mem_st eso_cluster) (snd (run_state (reconcileSecretStore mem example_store_app) (mem_st eso_cluster)))
     = [WCreate ServiceAccountK (object_meta ''prod'' ''prod''), WCreate (UnstructuredK store_gvk) (object_meta ''vault'' ''prod'')]"
    by code_simp
  have "list_all (store_write example_store_app)
      (new_writes (mem_st eso_cluster) (snd (run_state (reconcileSecretStore mem example_store_app) (mem_st eso_cluster))))"
    using secret_store_create_only [OF mem_rest_mapping_law] by blast
  then show ?thesis unfolding made by simp
qed

text \<open>The ExternalSecret of an application, there already, nudged and not Ready.\<close>

definition example_mount :: ExternalSecretMount where
  "example_mount = \<lparr>es_Name = ''db'', es_Store = ''vault'', es_StoreKind = '''', es_RefreshInterval = '''',
     es_MountPath = '''', es_AsEnvVars = True, es_Data = [], es_DataFrom = []\<rparr>"

definition example_nudged :: Unstructured where
  "example_nudged = \<lparr>u_apiVersion = ''external-secrets.io/v1'', u_kind = ''ExternalSecret'',
     u_meta = (object_meta ''web-db'' ''prod'')\<lparr>m_annotations := [(''appdefinition.abexamir.me/revalidate-at'', ''7'')]\<rparr>,
     u_fields = [(''status'', JObj [(''conditions'', JList [JObj [(''type'', JStr ''Ready''), (''status'', JStr ''False'')]])])]\<rparr>"

definition nudged_cluster :: cluster where
  "nudged_cluster = eso_cluster\<lparr>cl_others := [example_nudged]\<rparr>"


definition whole_seconds :: "cluster k8s" where
  "whole_seconds = mem\<lparr>k_formatRFC3339 := (\<lambda>t. show_int (t div second)),
     k_parseRFC3339 := (\<lambda>s. map_option (\<lambda>n. n * second) (parse_int64 s))\<rparr>"

lemma nudge_throttle_witness:
  "\<not> revalidationDue whole_seconds (nudged whole_seconds (90 * second + 5)
       \<lparr>u_apiVersion = ''v1'', u_kind = ''ExternalSecret'', u_meta = object_meta ''web-db'' ''prod'', u_fields = []\<rparr>)
     (100 * second)"
proof -
  have "parse_int64 (show_int 90) = Some 90" by (rule parse_show_int) simp_all
  then have "k_parseRFC3339 whole_seconds (k_formatRFC3339 whole_seconds (90 * second + 5))
      = Some ((90 * second + 5) - (90 * second + 5) mod second)"
    by (simp add: whole_seconds_def second_def)
  from nudge_throttle [OF this] show ?thesis by (simp add: second_def)
qed

end
