(* ===== verification/Ingresses.thy ===== *)
theory Ingresses
  imports ExternalSecrets
begin

text \<open>
  \<open>reconcile_ingress.go\<close>: one Ingress per domain entry, with the chain of its middlewares in the
  annotation Traefik reads.
\<close>

section \<open>The annotation\<close>

definition routerMiddlewares :: string where
  "routerMiddlewares = ''traefik.ingress.kubernetes.io/router.middlewares''"

text \<open>\<open>strings.Split(..., ",")\<close>, trimmed, without the empty ones.\<close>

definition explicitRefs :: "string \<Rightarrow> string list" where
  "explicitRefs v = filter (\<lambda>ref. ref \<noteq> '''') (map trim_space (split_on (CHR '','') v))"

definition nativeRef :: "AppDefinition \<Rightarrow> DomainSpec \<Rightarrow> string \<Rightarrow> string" where
  "nativeRef appDef domain knd =
     ad_namespace appDef @ ''-'' @ middlewareName (ad_name appDef) (dom_Name domain) (dom_Path domain) knd
     @ ''@kubernetescrd''"

definition middlewareRefs :: "AppDefinition \<Rightarrow> DomainSpec \<Rightarrow> string \<Rightarrow> string list" where
  "middlewareRefs appDef domain v =
     dedup [] (explicitRefs v @ map (nativeRef appDef domain) (enabledMiddlewareKinds domain))"

definition ingressAnnotations :: "AppDefinition \<Rightarrow> DomainSpec \<Rightarrow> gomap" where
  "ingressAnnotations appDef domain =
     (let a = map_merge (map_merge [] (spec_IngressAnnotations (ad_spec appDef))) (dom_Annotations domain);
          a = (if dom_TLS domain \<and> dom_CertIssuer domain \<noteq> ''''
               then map_put ''cert-manager.io/cluster-issuer'' (dom_CertIssuer domain) a else a)
      in if enabledMiddlewareKinds domain \<noteq> []
         then map_put routerMiddlewares
                (join '','' (middlewareRefs appDef domain (map_get a routerMiddlewares))) a
         else a)"

section \<open>The Ingress\<close>

definition ingressName :: "AppDefinition \<Rightarrow> DomainSpec \<Rightarrow> string" where
  "ingressName appDef domain = domainIngressName (ad_name appDef) (dom_Name domain) (dom_Path domain)"

definition empty_ingress :: "ObjectMeta \<Rightarrow> Ingress" where
  "empty_ingress m = \<lparr>ing_meta = m, ing_ClassName = None, ing_TLS = [], ing_Rules = [], ing_rest = JObj [],
     ing_LoadBalancer = []\<rparr>"

definition mutateIngress :: "'w k8s \<Rightarrow> AppDefinition \<Rightarrow> DomainSpec \<Rightarrow> Ingress \<Rightarrow> Ingress result" where
  "mutateIngress K appDef domain ing =
     (let m = (ing_meta ing)\<lparr>m_labels := standardLabels (ad_name appDef),
                             m_annotations := ingressAnnotations appDef domain\<rparr>;
          ing = ing\<lparr>ing_meta := m,
            ing_ClassName := (if spec_IngressClass (ad_spec appDef) \<noteq> '''' then Some (spec_IngressClass (ad_spec appDef))
                              else None),
            ing_TLS := (if dom_TLS domain then
                [\<lparr>it_Hosts = [dom_Name domain],
                  it_SecretName = (if dom_SecretName domain = '''' then tlsSecretName (ad_name appDef) (dom_Name domain)
                                   else dom_SecretName domain)\<rparr>]
              else []),
            ing_Rules :=
              [\<lparr>ir_Host = dom_Name domain,
                ir_Path = (if dom_Path domain = '''' then ''/'' else dom_Path domain),
                ir_PathType = ''Prefix'',
                ir_ServiceName = ad_name appDef,
                ir_ServicePort = (if dom_PortName domain = '''' then ''http'' else dom_PortName domain)\<rparr>]\<rparr>
      in case set_controller_reference K appDef m of
           Inl e \<Rightarrow> Inl e
         | Inr m \<Rightarrow> Inr (ing\<lparr>ing_meta := m\<rparr>))"

definition ensureIngress :: "'w k8s \<Rightarrow> AppDefinition \<Rightarrow> DomainSpec \<Rightarrow> ('w, unit result) prog" where
  "ensureIngress K appDef domain =
     tryM (create_or_update (k_ingresses K) IngressK ing_meta
             (empty_ingress (object_meta (ingressName appDef domain) (ad_namespace appDef)))
             (mutateIngress K appDef domain))
       (Wrap (''failed to reconcile Ingress '' @ ingressName appDef domain)) (\<lambda>_. ret ())"

definition pruneIngresses :: "'w k8s \<Rightarrow> AppDefinition \<Rightarrow> string list \<Rightarrow> ('w, unit result) prog" where
  "pruneIngresses K appDef desiredNames =
     tryM (lift (rlist (k_ingresses K) (ad_namespace appDef) (standardLabels (ad_name appDef))))
       (Wrap ''listing managed Ingresses for pruning'')
       (prune_objects K appDef (k_ingresses K) IngressK ''Ingress'' ing_meta desiredNames)"

definition reconcileIngress :: "'w k8s \<Rightarrow> AppDefinition \<Rightarrow> ('w, unit result) prog" where
  "reconcileIngress K appDef =
     tryM (each (ensureIngress K appDef) (spec_Domains (ad_spec appDef))) id
       (\<lambda>_. pruneIngresses K appDef (map (ingressName appDef) (spec_Domains (ad_spec appDef))))"

interpretation ings: typed_child_kind "\<lambda>k. k = IngressK" "\<lambda>a. spec_Domains (ad_spec a)" ingressName
  "\<lambda>_::unit. ensureIngress" "\<lambda>_ _. True"
  by unfold_locales (auto simp: ensureIngress_def empty_ingress_def intro!: hoare)

lemma only_writes_reconcileIngress:
  "only_writes (child_write K appDef (\<lambda>k. k = IngressK) (map (ingressName appDef) (spec_Domains (ad_spec appDef))))
     (reconcileIngress K appDef)"
  using ings.reconcile_writes [where K = K and k = IngressK and appDef = appDef]
  by (simp add: reconcileIngress_def pruneIngresses_def ings.names_def)

section \<open>Properties\<close>

lemma set_trim_space: "set (trim_space s) \<subseteq> set s"
proof -
  have "set (concat (map snd (trim (\<lambda>(r, _). is_space r) (chunks s)))) \<subseteq> set (concat (map snd (chunks s)))"
    using set_trim [of "\<lambda>(r, _). is_space r" "chunks s"] by auto
  then show ?thesis by (simp only: trim_space_def chunks_concat)
qed

lemma explicitRefs_no_comma: "r \<in> set (explicitRefs v) \<Longrightarrow> CHR '','' \<notin> set r"
  using set_trim_space split_on_elems by (fastforce simp: explicitRefs_def)

lemma distinct_nativeRefs: "distinct (map (nativeRef appDef d) (enabledMiddlewareKinds d))"
proof -
  have "distinct chain_order" by (simp add: chain_order_def)
  then have "distinct (enabledMiddlewareKinds d)" by (simp add: enabled_filter)
  moreover have "inj (nativeRef appDef d)"
    by (auto simp: inj_def nativeRef_def middlewareName_ingress)
  ultimately show ?thesis by (auto simp: distinct_map intro: inj_on_subset)
qed

lemma middlewareRefs_split:
  "middlewareRefs appDef d v =
     dedup [] (explicitRefs v)
     @ filter (\<lambda>r. r \<notin> set (explicitRefs v)) (map (nativeRef appDef d) (enabledMiddlewareKinds d))"
  by (simp add: middlewareRefs_def dedup_append dedup_distinct_filter [OF distinct_nativeRefs] set_dedup)

lemma dns_no_comma: "list_all dns_char s \<Longrightarrow> CHR '','' \<notin> set s"
  by (auto simp: list_all_iff dns_char_def)

lemma chain_order_no_comma: "k \<in> set chain_order \<Longrightarrow> CHR '','' \<notin> set k"
  by (auto simp: chain_order_def)

lemma nativeRef_no_comma:
  assumes "list_all dns_char (ad_name appDef)" and "list_all dns_char (ad_namespace appDef)"
    and "k \<in> set (enabledMiddlewareKinds d)"
  shows "CHR '','' \<notin> set (nativeRef appDef d k)"
proof -
  have "CHR '','' \<notin> set k" using assms(3) chain_order_no_comma by (simp add: enabled_filter)
  moreover have "CHR '','' \<notin> set (sanitizeDNS x)" for x
    using sanitizeDNS_chars [of "CHR '',''" x] by (auto simp: dns_char_def)
  ultimately show ?thesis using assms(1,2) [THEN dns_no_comma]
    by (auto simp: nativeRef_def middlewareName_def Let_def)
qed

text \<open>
  The chain Traefik reads: what the user's own annotations (of the domain before those of the spec)
  refer to explicitly, then the middlewares the operator generates.
\<close>

definition userAnnotation :: "AppDefinition \<Rightarrow> DomainSpec \<Rightarrow> string" where
  "userAnnotation appDef d =
     (case map_of (rev (dom_Annotations d)) routerMiddlewares of
        Some v \<Rightarrow> v
      | None \<Rightarrow> (case map_of (rev (spec_IngressAnnotations (ad_spec appDef))) routerMiddlewares of
                   Some v \<Rightarrow> v | None \<Rightarrow> ''''))"

lemma ingressAnnotations_chain:
  assumes "enabledMiddlewareKinds d \<noteq> []"
  shows "map_of (ingressAnnotations appDef d) routerMiddlewares
    = Some (join '','' (middlewareRefs appDef d (userAnnotation appDef d)))"
  using assms
  by (auto simp: ingressAnnotations_def Let_def userAnnotation_def map_get_def map_of_map_merge map_add_def
      routerMiddlewares_def split: option.splits)

lemma mutateIngress_ok:
  "mutateIngress K appDef d ing = Inr ing' \<Longrightarrow>
   m_annotations (ing_meta ing') = ingressAnnotations appDef d
   \<and> ing_ClassName ing' = (if spec_IngressClass (ad_spec appDef) \<noteq> '''' then Some (spec_IngressClass (ad_spec appDef)) else None)
   \<and> ing_TLS ing' = (if dom_TLS d then
        [\<lparr>it_Hosts = [dom_Name d],
          it_SecretName = (if dom_SecretName d = '''' then tlsSecretName (ad_name appDef) (dom_Name d) else dom_SecretName d)\<rparr>]
        else [])
   \<and> map ir_Host (ing_Rules ing') = [dom_Name d] \<and> map ir_ServiceName (ing_Rules ing') = [ad_name appDef]
   \<and> ing_rest ing' = ing_rest ing \<and> ing_LoadBalancer ing' = ing_LoadBalancer ing"
  by (auto simp: mutateIngress_def Let_def split: sum.splits dest: set_controller_reference_frame)

text \<open>
  C25. The chain of an Ingress, for a domain with at least one middleware enabled, of an application whose
  name and namespace are in DNS form (as the API server requires). Whatever the annotation held before,
  after the edit it lists, in this order, the references the user gave explicitly, each once, and the
  operator's own middlewares of the domain in their fixed order, except those the user already
  placed. Nothing accumulates over reconciles, nothing is listed twice, and no configured middleware is
  missing. (With no middleware enabled the user's annotation is kept as it is.)
\<close>

theorem ingress_chain:
  assumes "list_all dns_char (ad_name appDef)" and "list_all dns_char (ad_namespace appDef)"
    and "enabledMiddlewareKinds d \<noteq> []" and "mutateIngress K appDef d ing = Inr ing'"
  shows "let refs = split_on (CHR '','') (map_get (m_annotations (ing_meta ing')) routerMiddlewares);
             user = explicitRefs (userAnnotation appDef d);
             own = map (nativeRef appDef d) (enabledMiddlewareKinds d)
         in refs = dedup [] user @ filter (\<lambda>r. r \<notin> set user) own
            \<and> distinct refs \<and> set refs = set user \<union> set own"
proof -
  let ?user = "explicitRefs (userAnnotation appDef d)"
  let ?own = "map (nativeRef appDef d) (enabledMiddlewareKinds d)"
  let ?refs = "middlewareRefs appDef d (userAnnotation appDef d)"
  have ne: "?refs \<noteq> []"
  proof -
    have "set ?refs = set ?user \<union> set ?own" by (simp add: middlewareRefs_def set_dedup)
    then show ?thesis using assms(3) by auto
  qed
  have nc: "CHR '','' \<notin> set r" if "r \<in> set ?refs" for r
    using that nativeRef_no_comma [OF assms(1,2)] explicitRefs_no_comma
    by (auto simp: middlewareRefs_def set_dedup)
  have "map_get (m_annotations (ing_meta ing')) routerMiddlewares = join '','' ?refs"
    using mutateIngress_ok [OF assms(4)] ingressAnnotations_chain [OF assms(3), of appDef] by (simp add: map_get_def)
  then have "split_on (CHR '','') (map_get (m_annotations (ing_meta ing')) routerMiddlewares) = ?refs"
    using split_on_join [OF ne nc] by simp
  then show ?thesis
    by (simp add: Let_def middlewareRefs_split set_dedup distinct_dedup distinct_nativeRefs) auto
qed

lemma middleware_names_agree:
  assumes "dk \<in> set (domainMiddlewares appDef)" and "dk' \<in> set (domainMiddlewares appDef)"
  shows "middleware_of appDef dk = middleware_of appDef dk' \<longleftrightarrow>
    ingressName appDef (fst dk) = ingressName appDef (fst dk') \<and> snd dk = snd dk'"
proof -
  have "snd dk \<in> set chain_order" "snd dk' \<in> set chain_order"
    using assms by (auto simp: domainMiddlewares_def enabled_filter)
  then have "CHR ''-'' \<notin> set (snd dk)" "CHR ''-'' \<notin> set (snd dk')"
    using chain_order_no_dash by blast+
  then show ?thesis
    using middlewareName_inj [of "ad_name appDef" "dom_Name (fst dk)" "dom_Path (fst dk)" "snd dk"
        "ad_name appDef" "dom_Name (fst dk')" "dom_Path (fst dk')" "snd dk'"]
    by (auto simp: middleware_of_def ingressName_def middlewareName_ingress)
qed

text \<open>How Traefik's Kubernetes provider names a Middleware object, documented.\<close>

definition traefik_ref :: "ObjectMeta \<Rightarrow> string" where
  "traefik_ref m = m_namespace m @ ''-'' @ m_name m @ ''@kubernetescrd''"

definition puts_ref :: "GVK \<Rightarrow> string \<Rightarrow> api_write \<Rightarrow> bool" where
  "puts_ref gvk ref e \<longleftrightarrow>
     (\<exists>m. (e = WCreate (UnstructuredK gvk) m \<or> e = WUpdate (UnstructuredK gvk) m) \<and> traefik_ref m = ref)"

lemma ensureMiddleware_wrote:
  assumes "retry_law K" and "run_state (ensureMiddleware api K appDef (d, k)) t = (Inr Continue, t')"
  shows "\<exists>tr. writes t' = writes t @ tr \<and> (\<exists>e \<in> set tr. puts_ref (mapi_gvk api) (nativeRef appDef d k) e)"
proof -
  obtain desired where desired: "m_name (u_meta desired) = middleware_of appDef (d, k)"
    "m_namespace (u_meta desired) = ad_namespace appDef"
    and run: "run_state (upsertUnstructured K (mapi_gvk api) ''Middleware'' (ad_namespace appDef)
        (middleware_of appDef (d, k)) desired) t = (Inr Continue, t')"
    using assms(2)
    by (auto simp: ensureMiddleware_def Let_def desiredMiddleware_def split: sum.splits dest!: own_unstructured_frame)
  have "puts_ref (mapi_gvk api) (nativeRef appDef d k) e" if "puts (mapi_gvk api) (u_meta desired) e" for e
    using that desired by (auto simp: puts_def puts_ref_def traefik_ref_def nativeRef_def middleware_of_def)
  then show ?thesis using upsert_wrote [OF assms(1) run] by blast
qed

text \<open>
  C26. The chain refers to Middlewares that are there. When \<open>reconcileMiddlewares\<close> has gone through the
  domains without an error and without missing the CRD, then for every domain and every kind enabled
  in it, it has created or replaced a Middleware, of the API group found, whose Traefik reference
  (namespace, name and provider) is the very one the Ingress of that domain lists for the kind; a
  Middleware it deletes afterwards is one the application controls, and not one that any domain's chain
  refers to. Two domains share a Middleware only if they share the Ingress.
\<close>

theorem refs_name_middlewares:
  assumes "retry_law K" and "run_state (resolveMiddlewareAPI K) s = (Inr api, s1)"
    and "run_state (each_flow (ensureMiddleware api K appDef) (domainMiddlewares appDef)) s1 = (Inr Continue, s2)"
    and "run_state (reconcileMiddlewares K appDef) s = (out, s')"
  shows "(\<forall>d \<in> set (spec_Domains (ad_spec appDef)). \<forall>k \<in> set (enabledMiddlewareKinds d).
        \<exists>e \<in> set (new_writes s s'). puts_ref (mapi_gvk api) (nativeRef appDef d k) e)
    \<and> (\<forall>k m. WDelete k m \<in> set (new_writes s s') \<longrightarrow>
        k_isControlledBy K m (ad_meta appDef)
        \<and> (\<forall>d \<in> set (spec_Domains (ad_spec appDef)). \<forall>k' \<in> set (enabledMiddlewareKinds d).
             m_namespace m = ad_namespace appDef \<longrightarrow> traefik_ref m \<noteq> nativeRef appDef d k'))
    \<and> (\<forall>dk \<in> set (domainMiddlewares appDef). \<forall>dk' \<in> set (domainMiddlewares appDef).
        middleware_of appDef dk = middleware_of appDef dk' \<longleftrightarrow>
          ingressName appDef (fst dk) = ingressName appDef (fst dk') \<and> snd dk = snd dk')"
proof (intro conjI)
  have pair: "(d, k) \<in> set (domainMiddlewares appDef)"
    if "d \<in> set (spec_Domains (ad_spec appDef))" "k \<in> set (enabledMiddlewareKinds d)" for d k
    using that by (auto simp: domainMiddlewares_def)
  obtain tr1 where tr1: "writes s1 = writes s @ tr1"
    using only_writesD [OF only_writes_resolveMiddleware assms(2)] by (auto simp: writes_only_def)
  obtain tr2 where tr2: "writes s2 = writes s1 @ tr2"
    "\<forall>x \<in> set (domainMiddlewares appDef). \<exists>e \<in> set tr2. puts_ref (mapi_gvk api) (nativeRef appDef (fst x) (snd x)) e"
    using each_flow_wrote [OF assms(3), of "\<lambda>x. puts_ref (mapi_gvk api) (nativeRef appDef (fst x) (snd x))"]
      ensureMiddleware_wrote [OF assms(1)] by fastforce
  have rest: "run_state (pruneMiddlewares K appDef (mapi_gvk api) (map (middleware_of appDef) (domainMiddlewares appDef))) s2 = (out, s')"
    using assms(2-4) by (simp add: reconcileMiddlewares_def)
  have "only_writes (\<lambda>_. True) (pruneMiddlewares K appDef (mapi_gvk api) (map (middleware_of appDef) (domainMiddlewares appDef)))"
    unfolding pruneMiddlewares_def by (intro hoare) simp
  from only_writesD [OF this rest] obtain tr3 where "writes s' = writes s2 @ tr3" by (auto simp: writes_only_def)
  then have new: "new_writes s s' = tr1 @ tr2 @ tr3" using tr1 tr2(1) by (simp add: new_writes_def)
  show "\<forall>d \<in> set (spec_Domains (ad_spec appDef)). \<forall>k \<in> set (enabledMiddlewareKinds d).
      \<exists>e \<in> set (new_writes s s'). puts_ref (mapi_gvk api) (nativeRef appDef d k) e"
    using tr2(2) pair unfolding new by fastforce
  have stale: "stale K appDef (map (middleware_of appDef) (domainMiddlewares appDef)) m" if "WDelete k m \<in> set (new_writes s s')" for k m
  proof -
    have "list_all (child_write K appDef (is_kind ''Middleware'') (map (middleware_of appDef) (domainMiddlewares appDef))) (new_writes s s')"
      using only_writesD [OF only_writes_reconcileMiddlewares [OF assms(1)] assms(4)] by (auto simp: writes_only_def new_writes_def)
    then show ?thesis using that by (auto simp: list_all_iff child_write_def)
  qed
  show "\<forall>k m. WDelete k m \<in> set (new_writes s s') \<longrightarrow>
      k_isControlledBy K m (ad_meta appDef)
      \<and> (\<forall>d \<in> set (spec_Domains (ad_spec appDef)). \<forall>k' \<in> set (enabledMiddlewareKinds d).
           m_namespace m = ad_namespace appDef \<longrightarrow> traefik_ref m \<noteq> nativeRef appDef d k')"
  proof (intro allI impI conjI ballI)
    fix k m d k' assume del: "WDelete k m \<in> set (new_writes s s')" and d: "d \<in> set (spec_Domains (ad_spec appDef))"
      and k': "k' \<in> set (enabledMiddlewareKinds d)" and ns: "m_namespace m = ad_namespace appDef"
    have "m_name m \<noteq> middleware_of appDef (d, k')"
      using stale [OF del] pair [OF d k'] by (force simp: stale_def)
    then show "traefik_ref m \<noteq> nativeRef appDef d k'"
      using ns by (simp add: traefik_ref_def nativeRef_def middleware_of_def)
  qed (use stale in \<open>auto simp: stale_def\<close>)
  show "\<forall>dk \<in> set (domainMiddlewares appDef). \<forall>dk' \<in> set (domainMiddlewares appDef).
        middleware_of appDef dk = middleware_of appDef dk' \<longleftrightarrow>
          ingressName appDef (fst dk) = ingressName appDef (fst dk') \<and> snd dk = snd dk'"
    using middleware_names_agree by blast
qed

text \<open>
  Different paths of one host may still share an Ingress: the paths \<open>/a/b\<close>, \<open>/a-b\<close> and \<open>/A/B\<close>
  have one name, for every application and host, so that of such entries the last one reconciled
  overwrites the others.
\<close>

theorem ingress_path_collision:
  "domainIngressName app host ''/a/b'' = domainIngressName app host ''/a-b''
   \<and> domainIngressName app host ''/A/B'' = domainIngressName app host ''/a-b''"
proof -
  have "sanitizeDNS ''/a/b'' = ''a-b'' \<and> sanitizeDNS ''/a-b'' = ''a-b'' \<and> sanitizeDNS ''/A/B'' = ''a-b''"
    using char_of_char [of "CHR ''a''", where ?'a = nat] char_of_char [of "CHR ''b''", where ?'a = nat]
    by (simp add: sanitizeDNS_def dns_rune_def lower_rune_def trim_def)
  then show ?thesis by (simp add: domainIngressName_def Let_def)
qed

section \<open>Concrete instances\<close>

definition example_domain :: DomainSpec where
  "example_domain =
     \<lparr>dom_Name = ''app.example.com'', dom_TLS = True, dom_RedirectTLS = True, dom_CertIssuer = '''', dom_Path = ''/api'',
      dom_Annotations = [(routerMiddlewares, ''auth@file'')], dom_PortName = '''', dom_SecretName = '''',
      dom_Middlewares = None\<rparr>"

lemma ingress_chain_witness:
  "\<exists>ing'. mutateIngress mem (zero_app ''web'' ''prod'') example_domain (empty_ingress (object_meta ''web'' ''prod'')) = Inr ing'
     \<and> distinct (split_on (CHR '','') (map_get (m_annotations (ing_meta ing')) routerMiddlewares))"
proof -
  obtain ing' where ok: "mutateIngress mem (zero_app ''web'' ''prod'') example_domain
      (empty_ingress (object_meta ''web'' ''prod'')) = Inr ing'"
    by (simp add: mutateIngress_def set_controller_reference_def mem_setControllerReference_def empty_ingress_def Let_def)
  have "enabledMiddlewareKinds example_domain \<noteq> []" by (simp add: example_domain_def enabledMiddlewareKinds_def)
  moreover have "list_all dns_char (ad_name (zero_app ''web'' ''prod''))"
    and "list_all dns_char (ad_namespace (zero_app ''web'' ''prod''))" by (simp_all add: dns_char_def)
  ultimately have "distinct (split_on (CHR '','') (map_get (m_annotations (ing_meta ing')) routerMiddlewares))"
    using ingress_chain [OF _ _ _ ok] unfolding Let_def by blast
  then show ?thesis using ok by blast
qed

definition example_ingress_app :: AppDefinition where
  "example_ingress_app = (zero_app ''web'' ''prod'')\<lparr>ad_spec := zero_spec\<lparr>spec_Domains := [example_domain]\<rparr>\<rparr>"

text \<open>A cluster with Traefik.\<close>

definition traefik_gvk :: GVK where
  "traefik_gvk = \<lparr>g_group = ''traefik.io'', g_version = ''v1alpha1'', g_kind = ''Middleware''\<rparr>"

definition traefik_cluster :: cluster where
  "traefik_cluster = empty_cluster\<lparr>cl_kinds := [traefik_gvk]\<rparr>"

lemma refs_name_middlewares_witness:
  "\<exists>e \<in> set (new_writes (mem_st traefik_cluster) (snd (run_state (reconcileMiddlewares mem example_ingress_app) (mem_st traefik_cluster)))).
     puts_ref traefik_gvk ''prod-web-app-example-com-api-redirectscheme@kubernetescrd'' e"
proof -
  have "fst (run_state (resolveMiddlewareAPI mem) (mem_st traefik_cluster))
      = Inr \<lparr>mapi_gvk = traefik_gvk, mapi_ipListKey = ''ipAllowList''\<rparr>"
    by code_simp
  then obtain s1 where 1: "run_state (resolveMiddlewareAPI mem) (mem_st traefik_cluster)
      = (Inr \<lparr>mapi_gvk = traefik_gvk, mapi_ipListKey = ''ipAllowList''\<rparr>, s1)" by (metis prod.collapse)
  have "fst (run_state (each_flow (ensureMiddleware \<lparr>mapi_gvk = traefik_gvk, mapi_ipListKey = ''ipAllowList''\<rparr> mem example_ingress_app)
      (domainMiddlewares example_ingress_app)) (snd (run_state (resolveMiddlewareAPI mem) (mem_st traefik_cluster)))) = Inr Continue"
    by code_simp
  then obtain s2 where 2: "run_state (each_flow (ensureMiddleware \<lparr>mapi_gvk = traefik_gvk, mapi_ipListKey = ''ipAllowList''\<rparr> mem example_ingress_app)
      (domainMiddlewares example_ingress_app)) s1 = (Inr Continue, s2)" using 1 by (metis prod.collapse snd_conv)
  have "example_domain \<in> set (spec_Domains (ad_spec example_ingress_app))" by (simp add: example_ingress_app_def)
  moreover have "''redirectscheme'' \<in> set (enabledMiddlewareKinds example_domain)" by code_simp
  moreover have "nativeRef example_ingress_app example_domain ''redirectscheme''
      = ''prod-web-app-example-com-api-redirectscheme@kubernetescrd''" by code_simp
  moreover note refs_name_middlewares [OF mem_retry_law 1 2 prod.collapse [symmetric], THEN conjunct1]
  ultimately have "\<exists>e \<in> set (new_writes (mem_st traefik_cluster) (snd (run_state (reconcileMiddlewares mem example_ingress_app) (mem_st traefik_cluster)))).
     puts_ref (mapi_gvk \<lparr>mapi_gvk = traefik_gvk, mapi_ipListKey = ''ipAllowList''\<rparr>)
       ''prod-web-app-example-com-api-redirectscheme@kubernetescrd'' e"
    by (metis (lifting))
  then show ?thesis by simp
qed

end
