(* ===== verification/Scaling.thy ===== *)
theory Scaling
  imports Workload
begin

text \<open>
  \<open>reconcile_hpa.go\<close> and \<open>reconcile_pvc.go\<close>: the autoscaler of the Deployment and the disk.
\<close>

section \<open>HorizontalPodAutoscaler\<close>

definition empty_hpa :: "ObjectMeta \<Rightarrow> HorizontalPodAutoscaler" where
  "empty_hpa m =
     \<lparr>hpa_meta = m, hpa_TargetAPIVersion = '''', hpa_TargetKind = '''', hpa_TargetName = '''',
      hpa_MinReplicas = None, hpa_MaxReplicas = 0, hpa_Metrics = [], hpa_CurrentReplicas = 0,
      hpa_DesiredReplicas = 0\<rparr>"

definition hpaMetrics :: "AutoscalingSpec \<Rightarrow> ResourceMetric list" where
  "hpaMetrics as =
     (case as_TargetCPUUtilizationPercentage as of
        None \<Rightarrow> [] | Some n \<Rightarrow> [\<lparr>rm_Resource = ''cpu'', rm_AverageUtilization = n\<rparr>])
     @ (case as_TargetMemoryUtilizationPercentage as of
        None \<Rightarrow> [] | Some n \<Rightarrow> [\<lparr>rm_Resource = ''memory'', rm_AverageUtilization = n\<rparr>])"

definition mutateHPA :: "'w k8s \<Rightarrow> AppDefinition \<Rightarrow> AutoscalingSpec \<Rightarrow> HorizontalPodAutoscaler \<Rightarrow> HorizontalPodAutoscaler result" where
  "mutateHPA K appDef as hpa =
     (let m = (hpa_meta hpa)\<lparr>m_labels := standardLabels (ad_name appDef)\<rparr>;
          hpa = hpa\<lparr>hpa_meta := m, hpa_TargetAPIVersion := ''apps/v1'', hpa_TargetKind := ''Deployment'',
                    hpa_TargetName := ad_name appDef, hpa_MinReplicas := as_MinReplicas as,
                    hpa_MaxReplicas := as_MaxReplicas as, hpa_Metrics := hpaMetrics as\<rparr>
      in case set_controller_reference K appDef m of
           Inl e \<Rightarrow> Inl e
         | Inr m \<Rightarrow> Inr (hpa\<lparr>hpa_meta := m\<rparr>))"

definition autoscaled :: "AppDefinition \<Rightarrow> AutoscalingSpec option" where
  "autoscaled appDef =
     (case spec_Autoscaling (ad_spec appDef) of
        None \<Rightarrow> None | Some as \<Rightarrow> if as_Enabled as then Some as else None)"

definition reconcileHPA :: "'w k8s \<Rightarrow> AppDefinition \<Rightarrow> ('w, unit result) prog" where
  "reconcileHPA K appDef =
     (let hpa = empty_hpa (object_meta (ad_name appDef) (ad_namespace appDef))
      in case autoscaled appDef of
           None \<Rightarrow> do {
             r \<leftarrow> do_delete (k_hpas K) HorizontalPodAutoscalerK hpa_meta hpa;
             case ignore_not_found r of
               Inl e \<Rightarrow> fail (Wrap ''failed to delete HPA'' e)
             | Inr _ \<Rightarrow> ret () }
         | Some as \<Rightarrow>
             tryM (create_or_update (k_hpas K) HorizontalPodAutoscalerK hpa_meta hpa (mutateHPA K appDef as))
               (Wrap ''failed to reconcile HPA'') (\<lambda>_. ret ()))"

lemma only_writes_reconcileHPA:
  "only_writes (\<lambda>e. if autoscaled appDef = None
      then e = WDelete HorizontalPodAutoscalerK (object_meta (ad_name appDef) (ad_namespace appDef))
      else e = WCreateOrUpdate HorizontalPodAutoscalerK (object_meta (ad_name appDef) (ad_namespace appDef)))
     (reconcileHPA K appDef)"
  unfolding reconcileHPA_def Let_def
  by (auto intro!: hoare split: sum.split option.split simp: empty_hpa_def)

section \<open>PersistentVolumeClaim\<close>

definition storage :: "(string \<times> quantity) list \<Rightarrow> quantity option" where
  "storage rl = map_of rl ''storage''"

definition gi :: "int \<Rightarrow> string" where
  "gi n = show_int n @ ''Gi''"

definition empty_pvc :: "ObjectMeta \<Rightarrow> PersistentVolumeClaim" where
  "empty_pvc m =
     \<lparr>pvc_meta = m, pvc_AccessModes = [], pvc_Requests = None, pvc_StorageClassName = None,
      pvc_rest = JObj [], pvc_Phase = '''', pvc_Capacity = []\<rparr>"

text \<open>
  The spec of an existing claim: the request grows or stays. A claim without a \<open>storage\<close> request
  reads as the zero quantity; one with no request map at all cannot be assigned to (the Go map is
  nil, and the assignment panics).
\<close>

definition growRequest :: "'w k8s \<Rightarrow> quantity \<Rightarrow> PersistentVolumeClaim \<Rightarrow> PersistentVolumeClaim result" where
  "growRequest K requested pvc =
     (let rl = (case pvc_Requests pvc of None \<Rightarrow> [] | Some rl \<Rightarrow> rl);
          current = (case storage rl of None \<Rightarrow> k_zeroQuantity K | Some q \<Rightarrow> q)
      in if k_quantityCmp K requested current > 0 then
           (case pvc_Requests pvc of
              None \<Rightarrow> Inl (GoPanic ''assignment to entry in nil map'')
            | Some rl \<Rightarrow> Inr (pvc\<lparr>pvc_Requests := Some (map_put ''storage'' requested rl)\<rparr>))
         else Inr pvc)"

definition newClaim :: "DiskConfig \<Rightarrow> quantity \<Rightarrow> PersistentVolumeClaim \<Rightarrow> PersistentVolumeClaim" where
  "newClaim disk requested pvc =
     pvc\<lparr>pvc_AccessModes := [''ReadWriteOnce''],
         pvc_Requests := Some [(''storage'', requested)],
         pvc_StorageClassName := (if disk_StorageClassName disk \<noteq> '''' then Some (disk_StorageClassName disk) else None),
         pvc_rest := JObj []\<rparr>"

definition mutatePVC :: "'w k8s \<Rightarrow> AppDefinition \<Rightarrow> DiskConfig \<Rightarrow> PersistentVolumeClaim \<Rightarrow> PersistentVolumeClaim result" where
  "mutatePVC K appDef disk pvc =
     (let m = (pvc_meta pvc)\<lparr>m_labels := standardLabels (ad_name appDef),
                             m_annotations := map_merge (m_annotations (pvc_meta pvc)) (disk_Annotations disk)\<rparr>;
          pvc = pvc\<lparr>pvc_meta := m\<rparr>
      in case k_parseQuantity K (gi (disk_SizeInGi disk)) of
           None \<Rightarrow> Inl (GoPanic ''cannot parse quantity'')
         | Some requested \<Rightarrow>
             (case (if m_resourceVersion m = '''' then Inr (newClaim disk requested pvc)
                    else growRequest K requested pvc) of
                Inl e \<Rightarrow> Inl e
              | Inr pvc \<Rightarrow>
                  (case set_controller_reference K appDef m of
                     Inl e \<Rightarrow> Inl e
                   | Inr m \<Rightarrow> Inr (pvc\<lparr>pvc_meta := m\<rparr>))))"

definition ensurePVC :: "'w k8s \<Rightarrow> AppDefinition \<Rightarrow> DiskConfig \<Rightarrow> ('w, unit result) prog" where
  "ensurePVC K appDef disk =
     tryM (create_or_update (k_pvcs K) PersistentVolumeClaimK pvc_meta
             (empty_pvc (object_meta (pvcName (ad_name appDef)) (ad_namespace appDef))) (mutatePVC K appDef disk))
       (Wrap ''failed to reconcile PVC'') (\<lambda>_. ret ())"

definition protectedMessage :: "AppDefinition \<Rightarrow> string" where
  "protectedMessage appDef =
     ''PVC '' @ pvcName (ad_name appDef) @ '' not found; disk.protect is true, operator will not recreate it''"

text \<open>Called with a disk only; without one the Go code would dereference nil.\<close>

definition reconcilePVC :: "'w k8s \<Rightarrow> AppDefinition \<Rightarrow> ('w, unit result) prog" where
  "reconcilePVC K appDef =
     (case spec_Disk (ad_spec appDef) of
        None \<Rightarrow> fail (GoPanic ''nil pointer dereference'')
      | Some disk \<Rightarrow>
          if disk_Protect disk then do {
            r \<leftarrow> lift (rget (k_pvcs K) (ad_namespace appDef) (pvcName (ad_name appDef)));
            case r of
              Inl e \<Rightarrow>
                if is_not_found e then do { record_event ''DiskProtected'' (protectedMessage appDef); ret () }
                else fail (Wrap ''getting PVC'' e)
            | Inr _ \<Rightarrow> ensurePVC K appDef disk }
          else ensurePVC K appDef disk)"

definition pvc_write :: "AppDefinition \<Rightarrow> api_write \<Rightarrow> bool" where
  "pvc_write appDef e \<longleftrightarrow>
     e = WCreateOrUpdate PersistentVolumeClaimK (object_meta (pvcName (ad_name appDef)) (ad_namespace appDef))
     \<or> e = WEvent ''DiskProtected'' (protectedMessage appDef)"

lemma only_writes_reconcilePVC: "only_writes (pvc_write appDef) (reconcilePVC K appDef)"
  unfolding reconcilePVC_def ensurePVC_def
  by (auto intro!: hoare split: sum.split option.split simp: pvc_write_def empty_pvc_def)

section \<open>Properties\<close>

definition disk_request :: "'w k8s \<Rightarrow> PersistentVolumeClaim \<Rightarrow> quantity" where
  "disk_request K pvc =
     (case pvc_Requests pvc of
        None \<Rightarrow> k_zeroQuantity K
      | Some rl \<Rightarrow> (case storage rl of None \<Rightarrow> k_zeroQuantity K | Some q \<Rightarrow> q))"

lemma growRequest_ok:
  assumes "growRequest K requested pvc = Inr pvc'"
  shows "pvc' = pvc \<or>
    (\<exists>rl. pvc_Requests pvc = Some rl \<and> k_quantityCmp K requested (disk_request K pvc) > 0
      \<and> pvc' = pvc\<lparr>pvc_Requests := Some (map_put ''storage'' requested rl)\<rparr>)"
  using assms
  by (auto simp: growRequest_def disk_request_def storage_def Let_def split: if_splits option.splits)

lemma mutatePVC_existing:
  assumes "m_resourceVersion (pvc_meta pvc) \<noteq> ''''" and "mutatePVC K appDef disk pvc = Inr pvc'"
  obtains requested p refs where "k_parseQuantity K (gi (disk_SizeInGi disk)) = Some requested"
    and "growRequest K requested (pvc\<lparr>pvc_meta := (pvc_meta pvc)\<lparr>m_labels := standardLabels (ad_name appDef),
           m_annotations := map_merge (m_annotations (pvc_meta pvc)) (disk_Annotations disk)\<rparr>\<rparr>) = Inr p"
    and "pvc' = p\<lparr>pvc_meta := (pvc_meta pvc)\<lparr>m_labels := standardLabels (ad_name appDef),
           m_annotations := map_merge (m_annotations (pvc_meta pvc)) (disk_Annotations disk), m_ownerRefs := refs\<rparr>\<rparr>"
  using assms
  by (auto simp: mutatePVC_def set_controller_reference_def Let_def split: option.splits sum.splits)

text \<open>
  C17. The disk of an application never shrinks and is never replaced: on an existing claim the
  edit leaves the requested size or replaces it by a greater one, keeps the other requests, the
  access modes, the storage class and the rest of the spec, and keeps every annotation that
  \<open>disk.annotations\<close> does not set (those of the volume controller among them).
\<close>

theorem pvc_never_shrinks:
  assumes "m_resourceVersion (pvc_meta pvc) \<noteq> ''''" and "mutatePVC K appDef disk pvc = Inr pvc'"
  shows "(disk_request K pvc' = disk_request K pvc \<or> k_quantityCmp K (disk_request K pvc') (disk_request K pvc) > 0)
    \<and> (\<forall>r. r \<noteq> ''storage'' \<longrightarrow>
          map_option (\<lambda>rl. map_of rl r) (pvc_Requests pvc') = map_option (\<lambda>rl. map_of rl r) (pvc_Requests pvc))
    \<and> pvc_AccessModes pvc' = pvc_AccessModes pvc \<and> pvc_StorageClassName pvc' = pvc_StorageClassName pvc
    \<and> pvc_rest pvc' = pvc_rest pvc
    \<and> (\<forall>k. k \<notin> fst ` set (disk_Annotations disk) \<longrightarrow>
          map_of (m_annotations (pvc_meta pvc')) k = map_of (m_annotations (pvc_meta pvc)) k)"
proof -
  let ?m = "(pvc_meta pvc)\<lparr>m_labels := standardLabels (ad_name appDef),
           m_annotations := map_merge (m_annotations (pvc_meta pvc)) (disk_Annotations disk)\<rparr>"
  obtain requested p refs where grow: "growRequest K requested (pvc\<lparr>pvc_meta := ?m\<rparr>) = Inr p"
    and pvc': "pvc' = p\<lparr>pvc_meta := ?m\<lparr>m_ownerRefs := refs\<rparr>\<rparr>"
    using mutatePVC_existing [OF assms] by (metis ObjectMeta.update_convs)
  have ann: "map_of (m_annotations (pvc_meta pvc')) k = map_of (m_annotations (pvc_meta pvc)) k"
    if "k \<notin> fst ` set (disk_Annotations disk)" for k
  proof -
    have "map_of (rev (disk_Annotations disk)) k = None" using that by (simp add: map_of_eq_None_iff)
    then show ?thesis by (simp add: pvc' map_of_map_merge map_add_def)
  qed
  show ?thesis using growRequest_ok [OF grow] ann
    by (auto simp: pvc' disk_request_def storage_def)
qed

text \<open>
  A protected disk is never created: with \<open>disk.protect\<close> and no claim to be read, the reconcile
  succeeds, records a warning event and requests no other write, and the cluster is as the read
  left it.
\<close>

theorem protected_disk_not_created:
  assumes "spec_Disk (ad_spec appDef) = Some disk" and "disk_Protect disk"
    and "run_state (rget (k_pvcs K) (ad_namespace appDef) (pvcName (ad_name appDef))) (world s) = (Inl e, w)"
    and "is_not_found e"
  shows "run_state (reconcilePVC K appDef) s =
    (Inr (), s\<lparr>world := w, writes := writes s @ [WEvent ''DiskProtected'' (protectedMessage appDef)]\<rparr>)"
  using assms by (simp add: reconcilePVC_def record_event_def)

text \<open>
  The autoscaler exists only while it is enabled: otherwise the one write requested is the
  deletion of the autoscaler of the application's name, and its absence is no error; when it is
  enabled the one write is the creation or update of the same object.
\<close>

theorem hpa_iff_enabled:
  "case run_state (reconcileHPA K appDef) s of (r, s') \<Rightarrow>
     (case autoscaled appDef of
        None \<Rightarrow>
          new_writes s s' = [WDelete HorizontalPodAutoscalerK (object_meta (ad_name appDef) (ad_namespace appDef))]
          \<and> (r = Inr () \<longleftrightarrow>
               (case fst (run_state (rdelete (k_hpas K) (empty_hpa (object_meta (ad_name appDef) (ad_namespace appDef))))
                  (world s)) of Inl e \<Rightarrow> is_not_found e | Inr _ \<Rightarrow> True))
      | Some as \<Rightarrow>
          new_writes s s' = [WCreateOrUpdate HorizontalPodAutoscalerK (object_meta (ad_name appDef) (ad_namespace appDef))])"
  by (auto simp: reconcileHPA_def new_writes_def run_tryM call_defs empty_hpa_def ignore_not_found_def Let_def
      split: sum.splits prod.splits option.splits)

text \<open>
  The autoscaler scales the Deployment of the application between the bounds of the spec, with
  the processor target before the memory target and no other metric. An unset minimum stays
  unset: it is neither the number of replicas of the spec nor 1.
\<close>

theorem hpa_targets_deployment:
  assumes "mutateHPA K appDef as hpa = Inr hpa'"
  shows "hpa_TargetKind hpa' = ''Deployment'' \<and> hpa_TargetName hpa' = ad_name appDef
    \<and> hpa_MaxReplicas hpa' = as_MaxReplicas as
    \<and> hpa_MinReplicas hpa' = as_MinReplicas as
    \<and> map_of (map (\<lambda>r. (rm_Resource r, rm_AverageUtilization r)) (hpa_Metrics hpa')) ''cpu''
        = as_TargetCPUUtilizationPercentage as
    \<and> map_of (map (\<lambda>r. (rm_Resource r, rm_AverageUtilization r)) (hpa_Metrics hpa')) ''memory''
        = as_TargetMemoryUtilizationPercentage as
    \<and> length (hpa_Metrics hpa') \<le> 2 \<and> distinct (map rm_Resource (hpa_Metrics hpa'))
    \<and> hpa_CurrentReplicas hpa' = hpa_CurrentReplicas hpa"
  using assms
  by (auto simp: mutateHPA_def hpaMetrics_def Let_def split: option.splits sum.splits)

section \<open>Concrete instances\<close>

definition example_disk :: DiskConfig where
  "example_disk = \<lparr>disk_SizeInGi = 20, disk_StorageClassName = '''', disk_SetFsGroup = False,
     disk_Partitions = [\<lparr>dp_SubPath = ''data'', dp_MountPath = ''/data''\<rparr>], disk_Annotations = [(''team'', ''core'')],
     disk_Protect = True\<rparr>"

definition example_stateful :: AppDefinition where
  "example_stateful = (zero_app ''db'' ''prod'')\<lparr>ad_spec := zero_spec\<lparr>spec_Disk := Some example_disk\<rparr>\<rparr>"

definition example_pvc :: PersistentVolumeClaim where
  "example_pvc = (empty_pvc ((object_meta ''db-disk'' ''prod'')\<lparr>m_resourceVersion := ''7''\<rparr>))
     \<lparr>pvc_Requests := Some [(''storage'', JInt 10)]\<rparr>"

lemma example_parse: "k_parseQuantity mem (gi 20) = Some (JInt 20)"
proof -
  have "parse_int64 (show_int 20) = Some 20" by (rule parse_show_int) simp_all
  then show ?thesis by (simp add: mem_def gi_def)
qed

lemma pvc_never_shrinks_witness:
  "\<exists>pvc'. mutatePVC mem example_stateful example_disk example_pvc = Inr pvc'
     \<and> pvc_AccessModes pvc' = pvc_AccessModes example_pvc"
proof -
  have rv: "m_resourceVersion (pvc_meta example_pvc) \<noteq> ''''" by (simp add: example_pvc_def empty_pvc_def)
  have "k_parseQuantity mem (gi (disk_SizeInGi example_disk)) = Some (JInt 20)"
    by (simp add: example_disk_def example_parse)
  moreover have "k_quantityCmp mem (JInt 20) (JInt 10) = 1" by (simp add: mem_def)
  ultimately have "\<exists>pvc'. mutatePVC mem example_stateful example_disk example_pvc = Inr pvc'"
    by (simp add: mutatePVC_def growRequest_def set_controller_reference_def mem_setControllerReference_def
        example_pvc_def empty_pvc_def storage_def Let_def)
  then obtain pvc' where ok: "mutatePVC mem example_stateful example_disk example_pvc = Inr pvc'" by blast
  then show ?thesis using pvc_never_shrinks [OF rv ok] by blast
qed

lemma protected_disk_not_created_witness:
  "run_state (reconcilePVC mem example_stateful) (mem_st empty_cluster)
   = (Inr (), (mem_st empty_cluster)\<lparr>writes := [WEvent ''DiskProtected'' (protectedMessage example_stateful)]\<rparr>)"
proof -
  have read: "run_state (rget (k_pvcs mem) (ad_namespace example_stateful) (pvcName (ad_name example_stateful)))
      (world (mem_st empty_cluster)) = (Inl (not_found (pvcName (ad_name example_stateful))), empty_cluster)"
    by (simp add: mem_def mem_client_def mem_get_def empty_cluster_def)
  show ?thesis
    using protected_disk_not_created [OF _ _ read, of example_disk]
    by (simp add: example_stateful_def example_disk_def not_found_def mem_st_def)
qed

lemma hpa_targets_deployment_witness:
  "\<exists>hpa'. mutateHPA mem (zero_app ''web'' ''prod'')
      \<lparr>as_Enabled = True, as_MinReplicas = None, as_MaxReplicas = 5, as_TargetCPUUtilizationPercentage = Some 70,
       as_TargetMemoryUtilizationPercentage = None\<rparr> (empty_hpa (object_meta ''web'' ''prod'')) = Inr hpa'
    \<and> hpa_MinReplicas hpa' = None"
proof -
  let ?as = "\<lparr>as_Enabled = True, as_MinReplicas = None, as_MaxReplicas = 5, as_TargetCPUUtilizationPercentage = Some 70,
       as_TargetMemoryUtilizationPercentage = None\<rparr>"
  obtain hpa' where ok: "mutateHPA mem (zero_app ''web'' ''prod'') ?as (empty_hpa (object_meta ''web'' ''prod'')) = Inr hpa'"
    by (simp add: mutateHPA_def set_controller_reference_def mem_setControllerReference_def empty_hpa_def Let_def)
  then show ?thesis using hpa_targets_deployment [OF ok] by simp
qed

end
