(* ===== verification/Status.thy ===== *)
theory Status
  imports Ingresses Scaling
begin

text \<open>
  \<open>reconcile_status.go\<close>: the phase and the conditions of an application, computed after every
  reconcile from the outcome of its steps and from what the cluster holds.
\<close>

section \<open>Conditions\<close>

definition mk_condition :: "string \<Rightarrow> string \<Rightarrow> string \<Rightarrow> string \<Rightarrow> int \<Rightarrow> AppDefinition \<Rightarrow> Condition" where
  "mk_condition typ status reason msg now fresh =
     \<lparr>cond_type = typ, cond_status = status, cond_reason = reason, cond_message = msg,
      cond_lastTransitionTime = now, cond_observedGeneration = m_generation (ad_meta fresh)\<rparr>"

definition map_conditions :: "(Condition list \<Rightarrow> Condition list) \<Rightarrow> AppDefinition \<Rightarrow> AppDefinition" where
  "map_conditions f a = a\<lparr>ad_status := (ad_status a)\<lparr>st_Conditions := f (st_Conditions (ad_status a))\<rparr>\<rparr>"

definition set_condition :: "'w k8s \<Rightarrow> Condition \<Rightarrow> AppDefinition \<Rightarrow> AppDefinition" where
  "set_condition K c = map_conditions (k_setStatusCondition K c)"

definition remove_condition :: "'w k8s \<Rightarrow> string \<Rightarrow> AppDefinition \<Rightarrow> AppDefinition" where
  "remove_condition K t = map_conditions (k_removeStatusCondition K t)"

section \<open>Phase\<close>

record decision =
  dc_ready :: string
  dc_reason :: string
  dc_msg :: string
  dc_phase :: string
  dc_lastError :: string

text \<open>The \<open>switch\<close>: paused before failed before available; everything else is progressing.\<close>

definition decide :: "AppDefinition \<Rightarrow> error option \<Rightarrow> bool \<Rightarrow> int \<Rightarrow> decision" where
  "decide appDef reconcileErr deploymentFound readyReplicas =
     (let desiredReplicas = wantedReplicas appDef;
          readyMsg = show_int readyReplicas @ ''/'' @ show_int desiredReplicas @ '' replicas ready''
      in if spec_Paused (ad_spec appDef) then
           \<lparr>dc_ready = ''False'', dc_reason = ''Paused'', dc_msg = ''Reconciliation is paused'',
            dc_phase = ''Paused'', dc_lastError = ''''\<rparr>
         else
           (case reconcileErr of
              Some e \<Rightarrow>
                \<lparr>dc_ready = ''False'', dc_reason = ''ReconcileError'', dc_msg = err_msg e,
                 dc_phase = ''Failed'', dc_lastError = err_msg e\<rparr>
            | None \<Rightarrow>
                if deploymentFound \<and> readyReplicas \<ge> desiredReplicas then
                  \<lparr>dc_ready = ''True'', dc_reason = ''DeploymentAvailable'', dc_msg = readyMsg,
                   dc_phase = ''Available'', dc_lastError = ''''\<rparr>
                else
                  \<lparr>dc_ready = ''False'', dc_reason = ''Progressing'', dc_msg = readyMsg,
                   dc_phase = ''Progressing'', dc_lastError = ''''\<rparr>))"

definition set_phase :: "'w k8s \<Rightarrow> AppDefinition \<Rightarrow> decision \<Rightarrow> int \<Rightarrow> int \<Rightarrow> AppDefinition \<Rightarrow> AppDefinition" where
  "set_phase K appDef dec readyReplicas now fresh =
     set_condition K (mk_condition ConditionTypeReady (dc_ready dec) (dc_reason dec) (dc_msg dec) now fresh)
       (fresh\<lparr>ad_status := (ad_status fresh)
          \<lparr>st_Phase := dc_phase dec, st_Replicas := wantedReplicas appDef, st_ReadyReplicas := readyReplicas,
           st_ObservedGeneration := m_generation (ad_meta fresh), st_LastError := dc_lastError dec\<rparr>\<rparr>)"

section \<open>Disk\<close>

definition quantity_or_zero :: "'w k8s \<Rightarrow> (string \<times> quantity) list \<Rightarrow> quantity" where
  "quantity_or_zero K rl = (case storage rl of None \<Rightarrow> k_zeroQuantity K | Some q \<Rightarrow> q)"

text \<open>Status, reason and message of \<open>DiskReady\<close> from the read of the claim.\<close>

definition diskState :: "'w k8s \<Rightarrow> AppDefinition \<Rightarrow> DiskConfig \<Rightarrow> PersistentVolumeClaim result \<Rightarrow> string \<times> string \<times> string" where
  "diskState K appDef disk r =
     (let name = pvcName (ad_name appDef)
      in case r of
           Inl e \<Rightarrow>
             if is_not_found e \<and> disk_Protect disk
             then (''False'', ''Protected'', protectedMessage appDef)
             else (''False'', ''Provisioning'', ''PVC is being provisioned'')
         | Inr pvc \<Rightarrow>
             if pvc_Phase pvc = ''Bound'' then
               (let actual = quantity_or_zero K (pvc_Capacity pvc);
                    requested = quantity_or_zero K (case pvc_Requests pvc of None \<Rightarrow> [] | Some rl \<Rightarrow> rl)
                in if k_quantityCmp K actual requested < 0
                   then (''True'', ''Bound'', ''PVC '' @ name @ '' is bound ('' @ k_quantityString K actual
                           @ '', expanding to '' @ k_quantityString K requested @ '')'')
                   else (''True'', ''Bound'', ''PVC '' @ name @ '' is bound ('' @ k_quantityString K actual @ '')''))
             else (''False'', ''Provisioning'', ''PVC phase: '' @ pvc_Phase pvc))"

definition updateDiskStatus :: "'w k8s \<Rightarrow> AppDefinition \<Rightarrow> int \<Rightarrow> AppDefinition \<Rightarrow> ('w, AppDefinition) prog" where
  "updateDiskStatus K appDef now fresh =
     (case spec_Disk (ad_spec appDef) of
        None \<Rightarrow> State_Monad.return (remove_condition K ConditionTypeDiskReady fresh)
      | Some disk \<Rightarrow> do {
          r \<leftarrow> lift (rget_live (k_pvcs K) (ad_namespace appDef) (pvcName (ad_name appDef)));
          (let (status, reason, msg) = diskState K appDef disk r
           in State_Monad.return
                (set_condition K (mk_condition ConditionTypeDiskReady status reason msg now fresh) fresh)) })"

section \<open>Ingress\<close>

text \<open>The addresses of one Ingress, labelled with its host; none if it cannot be read.\<close>

definition lb_addr :: "DomainSpec \<Rightarrow> string \<times> string \<Rightarrow> string list" where
  "lb_addr domain lb =
     (if fst lb \<noteq> [] then [dom_Name domain @ '': '' @ fst lb]
      else if snd lb \<noteq> [] then [dom_Name domain @ '': '' @ snd lb] else [])"

lemma lb_addr_Nil: "lb_addr d lb = [] \<longleftrightarrow> fst lb = [] \<and> snd lb = []"
  by (simp add: lb_addr_def)

definition lb_addrs :: "DomainSpec \<Rightarrow> Ingress result \<Rightarrow> string list" where
  "lb_addrs domain r =
     (case r of Inl _ \<Rightarrow> [] | Inr ing \<Rightarrow> concat (map (lb_addr domain) (ing_LoadBalancer ing)))"

fun ingressAddrs :: "'w k8s \<Rightarrow> AppDefinition \<Rightarrow> string list \<Rightarrow> nat \<Rightarrow> DomainSpec list \<Rightarrow> ('w, string list \<times> nat) prog" where
  "ingressAddrs K appDef addrs pending [] = State_Monad.return (addrs, pending)"
| "ingressAddrs K appDef addrs pending (d # ds) = do {
     r \<leftarrow> lift (rget (k_ingresses K) (ad_namespace appDef) (ingressName appDef d));
     ingressAddrs K appDef (addrs @ lb_addrs d r) (if lb_addrs d r = [] then Suc pending else pending) ds }"

definition ingressState :: "AppDefinition \<Rightarrow> string list \<Rightarrow> nat \<Rightarrow> string \<times> string \<times> string" where
  "ingressState appDef addrs pending =
     (if pending > 0 then (''False'', ''Pending'', show_nat pending @ ''/''
        @ show_nat (length (spec_Domains (ad_spec appDef))) @ '' domains pending address assignment'')
      else (''True'', ''Assigned'', join '', '' addrs))"

definition updateIngressStatus :: "'w k8s \<Rightarrow> AppDefinition \<Rightarrow> int \<Rightarrow> AppDefinition \<Rightarrow> ('w, AppDefinition) prog" where
  "updateIngressStatus K appDef now fresh =
     (if spec_Domains (ad_spec appDef) = [] then
        State_Monad.return (remove_condition K ConditionTypeIngressReady fresh)
      else do {
        (addrs, pending) \<leftarrow> ingressAddrs K appDef [] 0 (spec_Domains (ad_spec appDef));
        (let (status, reason, msg) = ingressState appDef addrs pending
         in State_Monad.return
              (set_condition K (mk_condition ConditionTypeIngressReady status reason msg now fresh) fresh)) })"

section \<open>Autoscaler\<close>

text \<open>The minimum is dereferenced; the API server defaults it, an object without it panics.\<close>

definition updateHPAStatus :: "'w k8s \<Rightarrow> AppDefinition \<Rightarrow> int \<Rightarrow> AppDefinition \<Rightarrow> ('w, AppDefinition result) prog" where
  "updateHPAStatus K appDef now fresh =
     (if autoscaled appDef = None then ret (remove_condition K ConditionTypeHPAActive fresh)
      else do {
        r \<leftarrow> lift (rget (k_hpas K) (ad_namespace appDef) (ad_name appDef));
        case r of
          Inl _ \<Rightarrow> ret (set_condition K
            (mk_condition ConditionTypeHPAActive ''False'' ''Creating'' ''HPA is being created'' now fresh) fresh)
        | Inr hpa \<Rightarrow>
            (case hpa_MinReplicas hpa of
               None \<Rightarrow> fail (GoPanic ''nil pointer dereference'')
             | Some lo \<Rightarrow> ret (set_condition K
                 (mk_condition ConditionTypeHPAActive ''True'' ''Active''
                    (''scaling '' @ show_int (hpa_CurrentReplicas hpa) @ ''/'' @ show_int (hpa_DesiredReplicas hpa)
                     @ '' replicas (min '' @ show_int lo @ '', max '' @ show_int (hpa_MaxReplicas hpa) @ '')'')
                    now fresh) fresh)) })"

section \<open>Optional kinds\<close>

text \<open>How many of the named objects can be read.\<close>

fun countReady :: "('w, Unstructured) rclient \<Rightarrow> string \<Rightarrow> nat \<Rightarrow> string list \<Rightarrow> ('w, nat) prog" where
  "countReady rc ns ready [] = State_Monad.return ready"
| "countReady rc ns ready (name # names) = do {
     r \<leftarrow> lift (rget_live rc ns name);
     countReady rc ns (case r of Inr _ \<Rightarrow> Suc ready | Inl _ \<Rightarrow> ready) names }"

definition createdState :: "string \<Rightarrow> nat \<Rightarrow> nat \<Rightarrow> string \<times> string \<times> string" where
  "createdState label ready wanted =
     (if ready = wanted then (''True'', ''ResourcesCreated'', show_nat ready @ '' '' @ label @ '' resources created'')
      else (''False'', ''ResourcesPending'', show_nat ready @ ''/'' @ show_nat wanted @ '' '' @ label @ '' resources created''))"

definition discoveryState :: "string \<Rightarrow> error \<Rightarrow> string \<times> string \<times> string" where
  "discoveryState label e =
     (if is_no_match e then (''False'', ''CRDUnavailable'', label @ '' CRD is not installed'')
      else (''Unknown'', ''DiscoveryFailed'', err_msg e))"

definition updateExternalSecretsStatus :: "'w k8s \<Rightarrow> int \<Rightarrow> AppDefinition \<Rightarrow> ('w, AppDefinition) prog" where
  "updateExternalSecretsStatus K now appDef =
     (let names = map (externalSecretName appDef) (spec_ExternalSecrets (ad_spec appDef))
      in if spec_ExternalSecrets (ad_spec appDef) = [] then
           State_Monad.return (remove_condition K ConditionTypeExternalSecretsReady appDef)
         else do {
           r \<leftarrow> resolveExternalSecretGVK K;
           s \<leftarrow> (case r of
                  Inl e \<Rightarrow> State_Monad.return (discoveryState ''ExternalSecret'' e)
                | Inr gvk \<Rightarrow> do {
                    ready \<leftarrow> countReady (k_unstructured K gvk) (ad_namespace appDef) 0 names;
                    State_Monad.return (createdState ''ExternalSecret'' ready (length names)) });
           (case s of (status, reason, msg) \<Rightarrow> State_Monad.return
              (set_condition K (mk_condition ConditionTypeExternalSecretsReady status reason msg now appDef) appDef)) })"

definition monitorState :: "Unstructured result \<Rightarrow> string \<times> string \<times> string" where
  "monitorState r =
     (case r of
        Inr _ \<Rightarrow> (''True'', ''ResourceCreated'', ''ServiceMonitor resource created'')
      | Inl e \<Rightarrow>
          if is_no_match e then (''False'', ''CRDUnavailable'', ''ServiceMonitor CRD is not installed'')
          else if is_not_found e then (''False'', ''ResourcePending'', ''ServiceMonitor resource is being created'')
          else (''Unknown'', ''ReadFailed'', err_msg e))"

definition updateMonitoringStatus :: "'w k8s \<Rightarrow> int \<Rightarrow> AppDefinition \<Rightarrow> ('w, AppDefinition) prog" where
  "updateMonitoringStatus K now appDef =
     (if buildSMEndpoints appDef = [] then
        State_Monad.return (remove_condition K ConditionTypeMonitoringReady appDef)
      else do {
        r \<leftarrow> lift (rget_live (k_unstructured K serviceMonitorGVK) (ad_namespace appDef)
               (serviceMonitorName (ad_name appDef)));
        (case monitorState r of (status, reason, msg) \<Rightarrow> State_Monad.return
           (set_condition K (mk_condition ConditionTypeMonitoringReady status reason msg now appDef) appDef)) })"

definition updateMiddlewaresStatus :: "'w k8s \<Rightarrow> int \<Rightarrow> AppDefinition \<Rightarrow> ('w, AppDefinition) prog" where
  "updateMiddlewaresStatus K now appDef =
     (let names = map (middleware_of appDef) (domainMiddlewares appDef)
      in if domainMiddlewares appDef = [] then
           State_Monad.return (remove_condition K ConditionTypeMiddlewaresReady appDef)
         else do {
           r \<leftarrow> resolveMiddlewareAPI K;
           s \<leftarrow> (case r of
                  Inl e \<Rightarrow> State_Monad.return
                    (if is_no_match e then (''False'', ''CRDUnavailable'', ''Traefik Middleware CRD is not installed'')
                     else (''Unknown'', ''DiscoveryFailed'', err_msg e))
                | Inr api \<Rightarrow> do {
                    ready \<leftarrow> countReady (k_unstructured K (mapi_gvk api)) (ad_namespace appDef) 0 names;
                    State_Monad.return (createdState ''Middleware'' ready (length names)) });
           (case s of (status, reason, msg) \<Rightarrow> State_Monad.return
              (set_condition K (mk_condition ConditionTypeMiddlewaresReady status reason msg now appDef) appDef)) })"

section \<open>The update\<close>

definition writeStatus :: "'w k8s \<Rightarrow> decision \<Rightarrow> AppDefinition \<Rightarrow> ('w, unit result) prog" where
  "writeStatus K dec fresh =
     tryM (status_update K fresh) (Wrap ''failed to update AppDefinition status'') (\<lambda>_. do {
       recordAppStatus (ad_namespace fresh) (ad_name fresh) (dc_ready dec = ''True'') (m_generation (ad_meta fresh));
       ret () })"

definition refreshStatus :: "'w k8s \<Rightarrow> AppDefinition \<Rightarrow> decision \<Rightarrow> int \<Rightarrow> int \<Rightarrow> AppDefinition \<Rightarrow> ('w, unit result) prog" where
  "refreshStatus K appDef dec readyReplicas now fresh = do {
     fresh \<leftarrow> updateDiskStatus K appDef now (set_phase K appDef dec readyReplicas now fresh);
     fresh \<leftarrow> updateIngressStatus K appDef now fresh;
     tryM (updateHPAStatus K appDef now fresh) id (\<lambda>fresh. do {
       fresh \<leftarrow> updateExternalSecretsStatus K now fresh;
       fresh \<leftarrow> updateMonitoringStatus K now fresh;
       fresh \<leftarrow> updateMiddlewaresStatus K now fresh;
       writeStatus K dec fresh }) }"

definition readyReplicasOf :: "Deployment option \<Rightarrow> int" where
  "readyReplicasOf dep = (case dep of None \<Rightarrow> 0 | Some d \<Rightarrow> dep_ReadyReplicas d)"

definition updateStatusOnce :: "'w k8s \<Rightarrow> AppDefinition \<Rightarrow> error option \<Rightarrow> ('w, unit result) prog" where
  "updateStatusOnce K appDef reconcileErr = do {
     d \<leftarrow> lift (rget (k_deployments K) (ad_namespace appDef) (ad_name appDef));
     case (case d of Inl e \<Rightarrow> if is_not_found e then Inr None else Inl e | Inr dep \<Rightarrow> Inr (Some dep)) of
       Inl e \<Rightarrow> fail (Wrap ''failed to get Deployment for status'' e)
     | Inr dep \<Rightarrow> do {
         now \<leftarrow> lift (k_now K);
         tryM (lift (rget (k_appDefinitions K) (ad_namespace appDef) (ad_name appDef)))
           (Wrap ''failed to re-fetch AppDefinition for status update'')
           (refreshStatus K appDef (decide appDef reconcileErr (dep \<noteq> None) (readyReplicasOf dep))
              (readyReplicasOf dep) now) } }"

definition updateStatus :: "'w k8s \<Rightarrow> AppDefinition \<Rightarrow> error option \<Rightarrow> ('w, unit result) prog" where
  "updateStatus K appDef reconcileErr = k_retryOnConflict K (updateStatusOnce K appDef reconcileErr)"

section \<open>What each part of the status does\<close>

definition condition_of :: "string \<Rightarrow> AppDefinition \<Rightarrow> Condition option" where
  "condition_of t a = find (\<lambda>c. cond_type c = t) (st_Conditions (ad_status a))"

text \<open>\<open>meta.SetStatusCondition\<close> and \<open>meta.RemoveStatusCondition\<close>, documented.\<close>

definition condition_laws :: "'w k8s \<Rightarrow> bool" where
  "condition_laws K \<longleftrightarrow>
     (\<forall>c cs. (\<exists>d. find (\<lambda>d. cond_type d = cond_type c) (k_setStatusCondition K c cs) = Some d
                \<and> cond_status d = cond_status c \<and> cond_reason d = cond_reason c \<and> cond_message d = cond_message c)
        \<and> (\<forall>t. t \<noteq> cond_type c \<longrightarrow>
             find (\<lambda>d. cond_type d = t) (k_setStatusCondition K c cs) = find (\<lambda>d. cond_type d = t) cs))
     \<and> (\<forall>t cs. find (\<lambda>d. cond_type d = t) (k_removeStatusCondition K t cs) = None
        \<and> (\<forall>t'. t' \<noteq> t \<longrightarrow>
             find (\<lambda>d. cond_type d = t') (k_removeStatusCondition K t cs) = find (\<lambda>d. cond_type d = t') cs))"

text \<open>The step from \<open>a\<close> to \<open>b\<close> decides whether the condition \<open>t\<close> is there and touches nothing else.\<close>

definition touches :: "string \<Rightarrow> bool \<Rightarrow> AppDefinition \<Rightarrow> AppDefinition \<Rightarrow> bool" where
  "touches t present a b \<longleftrightarrow>
     ad_meta b = ad_meta a \<and> ad_spec b = ad_spec a
     \<and> st_Phase (ad_status b) = st_Phase (ad_status a) \<and> st_LastError (ad_status b) = st_LastError (ad_status a)
     \<and> st_Replicas (ad_status b) = st_Replicas (ad_status a)
     \<and> st_ReadyReplicas (ad_status b) = st_ReadyReplicas (ad_status a)
     \<and> st_ObservedGeneration (ad_status b) = st_ObservedGeneration (ad_status a)
     \<and> (condition_of t b \<noteq> None \<longleftrightarrow> present) \<and> (\<forall>t'. t' \<noteq> t \<longrightarrow> condition_of t' b = condition_of t' a)"

lemma touches_set:
  assumes "condition_laws K"
  shows "touches (cond_type c) True a (set_condition K c a)"
proof -
  let ?cs = "st_Conditions (ad_status a)"
  obtain d where "find (\<lambda>d. cond_type d = cond_type c) (k_setStatusCondition K c ?cs) = Some d"
    using assms unfolding condition_laws_def by blast
  moreover have "find (\<lambda>d. cond_type d = t) (k_setStatusCondition K c ?cs) = find (\<lambda>d. cond_type d = t) ?cs"
    if "t \<noteq> cond_type c" for t
    using assms that unfolding condition_laws_def by blast
  ultimately show ?thesis by (simp add: touches_def set_condition_def map_conditions_def condition_of_def)
qed

lemma touches_remove: "condition_laws K \<Longrightarrow> touches t False a (remove_condition K t a)"
  by (auto simp: touches_def remove_condition_def map_conditions_def condition_of_def condition_laws_def)

lemma touches_mk:
  "condition_laws K \<Longrightarrow> touches t True a (set_condition K (mk_condition t status reason msg now fresh) a)"
  using touches_set [of K "mk_condition t status reason msg now fresh" a] by (simp add: mk_condition_def)

lemmas touch_intros = touches_mk touches_remove

lemma updateDiskStatus_touches:
  "condition_laws K \<Longrightarrow> run_state (updateDiskStatus K appDef now a) s = (b, s') \<Longrightarrow>
   touches ConditionTypeDiskReady (spec_Disk (ad_spec appDef) \<noteq> None) a b"
  by (auto simp: updateDiskStatus_def Let_def touch_intros split: option.splits prod.splits)

lemma updateIngressStatus_touches:
  "condition_laws K \<Longrightarrow> run_state (updateIngressStatus K appDef now a) s = (b, s') \<Longrightarrow>
   touches ConditionTypeIngressReady (spec_Domains (ad_spec appDef) \<noteq> []) a b"
  by (auto simp: updateIngressStatus_def Let_def touch_intros split: if_splits prod.splits)

lemma updateHPAStatus_touches:
  "condition_laws K \<Longrightarrow> run_state (updateHPAStatus K appDef now a) s = (Inr b, s') \<Longrightarrow>
   touches ConditionTypeHPAActive (autoscaled appDef \<noteq> None) a b"
  by (auto simp: updateHPAStatus_def touch_intros split: if_splits option.splits sum.splits)

lemma updateExternalSecretsStatus_touches:
  "condition_laws K \<Longrightarrow> run_state (updateExternalSecretsStatus K now a) s = (b, s') \<Longrightarrow>
   touches ConditionTypeExternalSecretsReady (spec_ExternalSecrets (ad_spec a) \<noteq> []) a b"
  by (auto simp: updateExternalSecretsStatus_def Let_def touch_intros split: if_splits prod.splits)

lemma updateMonitoringStatus_touches:
  "condition_laws K \<Longrightarrow> run_state (updateMonitoringStatus K now a) s = (b, s') \<Longrightarrow>
   touches ConditionTypeMonitoringReady (buildSMEndpoints a \<noteq> []) a b"
  by (auto simp: updateMonitoringStatus_def Let_def touch_intros split: if_splits prod.splits)

lemma updateMiddlewaresStatus_touches:
  "condition_laws K \<Longrightarrow> run_state (updateMiddlewaresStatus K now a) s = (b, s') \<Longrightarrow>
   touches ConditionTypeMiddlewaresReady (domainMiddlewares a \<noteq> []) a b"
  by (auto simp: updateMiddlewaresStatus_def Let_def touch_intros split: if_splits prod.splits)

section \<open>Reads only\<close>

lemma only_writes_ingressAddrs [hoare]: "only_writes P (ingressAddrs K appDef addrs pending ds)"
  by (induction ds arbitrary: addrs pending) (auto intro!: hoare)

lemma only_writes_countReady [hoare]: "only_writes P (countReady rc ns n names)"
  by (induction names arbitrary: n) (auto intro!: hoare)

lemma only_writes_status_parts [hoare]:
  "only_writes P (updateDiskStatus K appDef now a)" "only_writes P (updateIngressStatus K appDef now a)"
  "only_writes P (updateHPAStatus K appDef now a)" "only_writes P (updateExternalSecretsStatus K now a)"
  "only_writes P (updateMonitoringStatus K now a)" "only_writes P (updateMiddlewaresStatus K now a)"
  unfolding updateDiskStatus_def updateIngressStatus_def updateHPAStatus_def updateExternalSecretsStatus_def
    updateMonitoringStatus_def updateMiddlewaresStatus_def Let_def resolveExternalSecretGVK_def
  by (auto intro!: hoare split: option.split sum.split prod.split)

section \<open>What a status says\<close>

text \<open>
  What a status written for \<open>appDef\<close> after the outcome \<open>reconcileErr\<close> has to say, when the Deployment
  was found (or not) with that many ready replicas; \<open>fresh\<close> is the AppDefinition it is written to.
\<close>

definition phase_spec :: "AppDefinition \<Rightarrow> error option \<Rightarrow> bool \<Rightarrow> int \<Rightarrow> string" where
  "phase_spec appDef reconcileErr found ready =
     (if spec_Paused (ad_spec appDef) then ''Paused''
      else if reconcileErr \<noteq> None then ''Failed''
      else if found \<and> wantedReplicas appDef \<le> ready then ''Available'' else ''Progressing'')"

definition last_error_spec :: "AppDefinition \<Rightarrow> error option \<Rightarrow> string" where
  "last_error_spec appDef reconcileErr =
     (case reconcileErr of Some e \<Rightarrow> if spec_Paused (ad_spec appDef) then [] else err_msg e | None \<Rightarrow> [])"

definition status_ok :: "AppDefinition \<Rightarrow> error option \<Rightarrow> bool \<Rightarrow> int \<Rightarrow> AppDefinition \<Rightarrow> AppDefinition \<Rightarrow> bool" where
  "status_ok appDef reconcileErr found ready fresh a \<longleftrightarrow>
     ad_meta a = ad_meta fresh \<and> ad_spec a = ad_spec fresh
     \<and> st_Phase (ad_status a) = phase_spec appDef reconcileErr found ready
     \<and> st_LastError (ad_status a) = last_error_spec appDef reconcileErr
     \<and> st_Replicas (ad_status a) = wantedReplicas appDef \<and> st_ReadyReplicas (ad_status a) = ready
     \<and> st_ObservedGeneration (ad_status a) = m_generation (ad_meta fresh)
     \<and> map_option cond_status (condition_of ConditionTypeReady a)
         = Some (if phase_spec appDef reconcileErr found ready = ''Available'' then ''True'' else ''False'')
     \<and> (condition_of ConditionTypeDiskReady a \<noteq> None \<longleftrightarrow> spec_Disk (ad_spec appDef) \<noteq> None)
     \<and> (condition_of ConditionTypeIngressReady a \<noteq> None \<longleftrightarrow> spec_Domains (ad_spec appDef) \<noteq> [])
     \<and> (condition_of ConditionTypeHPAActive a \<noteq> None \<longleftrightarrow> autoscaled appDef \<noteq> None)
     \<and> (condition_of ConditionTypeExternalSecretsReady a \<noteq> None \<longleftrightarrow> spec_ExternalSecrets (ad_spec a) \<noteq> [])
     \<and> (condition_of ConditionTypeMonitoringReady a \<noteq> None \<longleftrightarrow> buildSMEndpoints a \<noteq> [])
     \<and> (condition_of ConditionTypeMiddlewaresReady a \<noteq> None \<longleftrightarrow> domainMiddlewares a \<noteq> [])"

lemma decide_spec:
  "dc_phase (decide appDef err found ready) = phase_spec appDef err found ready"
  "dc_lastError (decide appDef err found ready) = last_error_spec appDef err"
  "dc_ready (decide appDef err found ready)
     = (if phase_spec appDef err found ready = ''Available'' then ''True'' else ''False'')"
  by (auto simp: decide_def Let_def phase_spec_def last_error_spec_def split: option.splits)

lemma spec_determines:
  "ad_spec a = ad_spec b \<Longrightarrow> buildSMEndpoints a = buildSMEndpoints b"
  "ad_spec a = ad_spec b \<Longrightarrow> domainMiddlewares a = domainMiddlewares b"
  by (simp_all add: buildSMEndpoints_def monitoredPorts_def all_ports_def domainMiddlewares_def)

lemma set_phase_says:
  assumes "condition_laws K"
  shows "let a = set_phase K appDef dec ready now fresh in
     ad_spec a = ad_spec fresh \<and> ad_meta a = ad_meta fresh
     \<and> st_Phase (ad_status a) = dc_phase dec \<and> st_LastError (ad_status a) = dc_lastError dec
     \<and> st_Replicas (ad_status a) = wantedReplicas appDef \<and> st_ReadyReplicas (ad_status a) = ready
     \<and> st_ObservedGeneration (ad_status a) = m_generation (ad_meta fresh)
     \<and> map_option cond_status (condition_of ConditionTypeReady a) = Some (dc_ready dec)"
proof -
  let ?c = "mk_condition ConditionTypeReady (dc_ready dec) (dc_reason dec) (dc_msg dec) now fresh"
  let ?cs = "st_Conditions (ad_status fresh)"
  obtain d where "find (\<lambda>d. cond_type d = cond_type ?c) (k_setStatusCondition K ?c ?cs) = Some d
      \<and> cond_status d = cond_status ?c"
    using assms unfolding condition_laws_def by blast
  then show ?thesis
    by (simp add: Let_def set_phase_def set_condition_def map_conditions_def condition_of_def mk_condition_def)
qed

lemma status_chain:
  assumes "condition_laws K" and "touches ConditionTypeDiskReady (spec_Disk (ad_spec appDef) \<noteq> None)
      (set_phase K appDef (decide appDef err found ready) ready now fresh) a1"
    and "touches ConditionTypeIngressReady (spec_Domains (ad_spec appDef) \<noteq> []) a1 a2"
    and "touches ConditionTypeHPAActive (autoscaled appDef \<noteq> None) a2 a3"
    and "touches ConditionTypeExternalSecretsReady (spec_ExternalSecrets (ad_spec a3) \<noteq> []) a3 a4"
    and "touches ConditionTypeMonitoringReady (buildSMEndpoints a4 \<noteq> []) a4 a5"
    and "touches ConditionTypeMiddlewaresReady (domainMiddlewares a5 \<noteq> []) a5 a6"
  shows "status_ok appDef err found ready fresh a6"
  unfolding status_ok_def
proof (intro conjI)
  note ts = assms(2-7) [unfolded touches_def]
  note start = set_phase_says [OF assms(1), of appDef "decide appDef err found ready" ready now fresh,
      unfolded Let_def decide_spec]
  show "ad_meta a6 = ad_meta fresh" "ad_spec a6 = ad_spec fresh"
    "st_Phase (ad_status a6) = phase_spec appDef err found ready"
    "st_LastError (ad_status a6) = last_error_spec appDef err"
    "st_Replicas (ad_status a6) = wantedReplicas appDef" "st_ReadyReplicas (ad_status a6) = ready"
    "st_ObservedGeneration (ad_status a6) = m_generation (ad_meta fresh)"
    using ts start by simp_all
  have "condition_of ConditionTypeReady a6 = condition_of ConditionTypeReady
      (set_phase K appDef (decide appDef err found ready) ready now fresh)"
    using ts by (simp add: condition_types)
  then show "map_option cond_status (condition_of ConditionTypeReady a6)
      = Some (if phase_spec appDef err found ready = ''Available'' then ''True'' else ''False'')"
    using start by simp
  have specs: "ad_spec a3 = ad_spec a6" "ad_spec a4 = ad_spec a6" "ad_spec a5 = ad_spec a6" using ts by simp_all
  note same = spec_determines(1) [OF specs(2)] spec_determines(2) [OF specs(3)] specs(1)
  show "condition_of ConditionTypeDiskReady a6 \<noteq> None \<longleftrightarrow> spec_Disk (ad_spec appDef) \<noteq> None"
    using ts by (simp add: condition_types)
  show "condition_of ConditionTypeIngressReady a6 \<noteq> None \<longleftrightarrow> spec_Domains (ad_spec appDef) \<noteq> []"
    using ts by (simp add: condition_types)
  show "condition_of ConditionTypeHPAActive a6 \<noteq> None \<longleftrightarrow> autoscaled appDef \<noteq> None"
    using ts by (simp add: condition_types)
  have "condition_of ConditionTypeExternalSecretsReady a6 = condition_of ConditionTypeExternalSecretsReady a4"
    using ts by (simp add: condition_types)
  then show "condition_of ConditionTypeExternalSecretsReady a6 \<noteq> None \<longleftrightarrow> spec_ExternalSecrets (ad_spec a6) \<noteq> []"
    using ts(4) unfolding same by simp
  have "condition_of ConditionTypeMonitoringReady a6 = condition_of ConditionTypeMonitoringReady a5"
    using ts by (simp add: condition_types)
  then show "condition_of ConditionTypeMonitoringReady a6 \<noteq> None \<longleftrightarrow> buildSMEndpoints a6 \<noteq> []"
    using ts(5) unfolding same by simp
  show "condition_of ConditionTypeMiddlewaresReady a6 \<noteq> None \<longleftrightarrow> domainMiddlewares a6 \<noteq> []"
    using ts(6) unfolding same by simp
qed

text \<open>A status written to the application itself, whatever the Deployment.\<close>

definition status_write :: "AppDefinition \<Rightarrow> error option \<Rightarrow> api_write \<Rightarrow> bool" where
  "status_write appDef err e =
     (case e of
        WStatus a \<Rightarrow> \<exists>found ready fresh. status_ok appDef err found ready fresh a
          \<and> ad_namespace a = ad_namespace appDef \<and> ad_name a = ad_name appDef
      | _ \<Rightarrow> False)"

section \<open>What one attempt writes\<close>

text \<open>The parts of the status only read.\<close>

lemma reads_writes:
  "only_writes (\<lambda>_. False) m \<Longrightarrow> run_state m s = (a, s') \<Longrightarrow> writes s' = writes s"
  by (auto dest!: only_writesD simp: writes_only_def list_all_iff)

text \<open>
  One refresh writes at most the status it has computed, and writes it when it succeeds.
\<close>

definition attempt_writes :: "AppDefinition \<Rightarrow> error option \<Rightarrow> bool \<Rightarrow> int \<Rightarrow> AppDefinition \<Rightarrow> unit result \<Rightarrow> api_write list \<Rightarrow> bool" where
  "attempt_writes appDef err found ready fresh out tr \<longleftrightarrow>
     (\<exists>a. status_ok appDef err found ready fresh a \<and> tr = [WStatus a]) \<or> (tr = [] \<and> (\<exists>e. out = Inl e))"

lemma refreshStatus_writes:
  assumes laws: "condition_laws K"
    and run: "run_state (refreshStatus K appDef (decide appDef err found ready) ready now fresh) s = (out, s')"
  shows "\<exists>tr. writes s' = writes s @ tr \<and> attempt_writes appDef err found ready fresh out tr"
proof -
  note none = only_writes_status_parts [of "\<lambda>_. False"]
  obtain a1 s1 where 1: "run_state (updateDiskStatus K appDef now
      (set_phase K appDef (decide appDef err found ready) ready now fresh)) s = (a1, s1)" by fastforce
  obtain a2 s2 where 2: "run_state (updateIngressStatus K appDef now a1) s1 = (a2, s2)" by fastforce
  obtain r s3 where 3: "run_state (updateHPAStatus K appDef now a2) s2 = (r, s3)" by fastforce
  have w3: "writes s3 = writes s"
    using reads_writes [OF none(1) 1] reads_writes [OF none(2) 2] reads_writes [OF none(3) 3] by simp
  show ?thesis
  proof (cases r)
    case (Inl e)
    then have "out = Inl e" "s' = s3" using run 1 2 3 by (simp_all add: refreshStatus_def)
    then show ?thesis using w3 by (simp add: attempt_writes_def)
  next
    case (Inr a3)
    obtain a4 s4 where 4: "run_state (updateExternalSecretsStatus K now a3) s3 = (a4, s4)" by fastforce
    obtain a5 s5 where 5: "run_state (updateMonitoringStatus K now a4) s4 = (a5, s5)" by fastforce
    obtain a6 s6 where 6: "run_state (updateMiddlewaresStatus K now a5) s5 = (a6, s6)" by fastforce
    have w6: "writes s6 = writes s"
      using w3 reads_writes [OF none(4) 4] reads_writes [OF none(5) 5] reads_writes [OF none(6) 6] by simp
    have "run_state (writeStatus K (decide appDef err found ready) a6) s6 = (out, s')"
      using run 1 2 3 4 5 6 Inr by (simp add: refreshStatus_def)
    then have "writes s' = writes s6 @ [WStatus a6]"
      by (auto simp: writeStatus_def status_update_def recordAppStatus_def run_tryM split: prod.splits sum.splits)
    moreover have "status_ok appDef err found ready fresh a6"
      using 3 Inr by (intro status_chain [OF laws updateDiskStatus_touches [OF laws 1] updateIngressStatus_touches [OF laws 2]
            updateHPAStatus_touches [OF laws] updateExternalSecretsStatus_touches [OF laws 4]
            updateMonitoringStatus_touches [OF laws 5] updateMiddlewaresStatus_touches [OF laws 6]]) simp
    ultimately show ?thesis using w6 by (auto simp: attempt_writes_def)
  qed
qed

text \<open>The three reads of an attempt: the Deployment, the clock, the AppDefinition.\<close>

definition read_deployment :: "'w k8s \<Rightarrow> AppDefinition \<Rightarrow> 'w \<Rightarrow> Deployment result \<times> 'w" where
  "read_deployment K appDef w = run_state (rget (k_deployments K) (ad_namespace appDef) (ad_name appDef)) w"

definition read_fresh :: "'w k8s \<Rightarrow> AppDefinition \<Rightarrow> 'w \<Rightarrow> AppDefinition result \<times> 'w" where
  "read_fresh K appDef w =
     run_state (rget (k_appDefinitions K) (ad_namespace appDef) (ad_name appDef))
       (snd (run_state (k_now K) (snd (read_deployment K appDef w))))"

definition found_of :: "Deployment result \<Rightarrow> bool" where
  "found_of d = (case d of Inr _ \<Rightarrow> True | Inl _ \<Rightarrow> False)"

definition ready_of :: "Deployment result \<Rightarrow> int" where
  "ready_of d = (case d of Inr dep \<Rightarrow> dep_ReadyReplicas dep | Inl _ \<Rightarrow> 0)"

text \<open>What one attempt from the state \<open>s\<close> may do, by what it reads there.\<close>

definition attempt_report :: "'w k8s \<Rightarrow> AppDefinition \<Rightarrow> error option \<Rightarrow> 'w st \<Rightarrow> unit result \<Rightarrow> api_write list \<Rightarrow> bool" where
  "attempt_report K appDef err s out tr =
     (case (fst (read_deployment K appDef (world s)), fst (read_fresh K appDef (world s))) of
        (d, Inr fresh) \<Rightarrow>
          if \<exists>e. d = Inl e \<and> \<not> is_not_found e then tr = [] \<and> (\<exists>e. out = Inl e)
          else attempt_writes appDef err (found_of d) (ready_of d) fresh out tr
      | (d, Inl _) \<Rightarrow> tr = [] \<and> (\<exists>e. out = Inl e))"

lemma updateStatusOnce_report:
  assumes "condition_laws K" and "run_state (updateStatusOnce K appDef err) s = (out, s')"
  shows "\<exists>tr. writes s' = writes s @ tr \<and> attempt_report K appDef err s out tr"
proof -
  define d where "d = fst (read_deployment K appDef (world s))"
  define s2 where "s2 = s\<lparr>world := snd (run_state (k_now K) (snd (read_deployment K appDef (world s))))\<rparr>"
  define now where "now = fst (run_state (k_now K) (snd (read_deployment K appDef (world s))))"
  define fresh where "fresh = fst (read_fresh K appDef (world s))"
  define s3 where "s3 = s\<lparr>world := snd (read_fresh K appDef (world s))\<rparr>"
  note defs = d_def s2_def now_def fresh_def s3_def read_deployment_def read_fresh_def
  show ?thesis
  proof (cases "\<exists>e. d = Inl e \<and> \<not> is_not_found e")
    case True
    then show ?thesis using assms(2)
      by (auto simp: updateStatusOnce_def attempt_report_def defs split: sum.splits)
  next
    case False
    let ?dep = "case d of Inr dep \<Rightarrow> Some dep | Inl _ \<Rightarrow> None"
    have found: "(?dep \<noteq> None) = found_of d" "readyReplicasOf ?dep = ready_of d"
      by (simp_all add: found_of_def ready_of_def readyReplicasOf_def split: sum.split)
    have run: "run_state (updateStatusOnce K appDef err) s =
        (case fresh of
           Inl e \<Rightarrow> (Inl (Wrap ''failed to re-fetch AppDefinition for status update'' e), s3)
         | Inr a \<Rightarrow> run_state (refreshStatus K appDef (decide appDef err (?dep \<noteq> None) (readyReplicasOf ?dep))
               (readyReplicasOf ?dep) now a) s3)"
      using False by (auto simp: updateStatusOnce_def run_tryM defs split: sum.splits prod.splits)
    show ?thesis
    proof (cases fresh)
      case (Inl e)
      then show ?thesis using assms(2) run by (auto simp: attempt_report_def s3_def simp flip: fresh_def)
    next
      case (Inr a)
      have "run_state (refreshStatus K appDef (decide appDef err (found_of d) (ready_of d)) (ready_of d) now a) s3 = (out, s')"
        using assms(2) run Inr found by simp
      from refreshStatus_writes [OF assms(1) this] show ?thesis
        using False Inr by (auto simp: attempt_report_def s3_def simp flip: d_def fresh_def)
    qed
  qed
qed

lemma only_writes_updateStatusOnce:
  assumes "condition_laws K" and "keyed (k_appDefinitions K) ad_meta"
  shows "only_writes (status_write appDef err) (updateStatusOnce K appDef err)"
  unfolding state_io_rel_def
proof
  fix s
  obtain out s' where run: "run_state (updateStatusOnce K appDef err) s = (out, s')" by fastforce
  obtain tr where tr: "writes s' = writes s @ tr" "attempt_report K appDef err s out tr"
    using updateStatusOnce_report [OF assms(1) run] by blast
  have key: "m_namespace (ad_meta fresh) = ad_namespace appDef \<and> m_name (ad_meta fresh) = ad_name appDef"
    if "fst (read_fresh K appDef (world s)) = Inr fresh" for fresh
    using that assms(2) unfolding keyed_def read_fresh_def by (metis prod.collapse)
  have one: "list_all (status_write appDef err) tr"
    if "attempt_writes appDef err found ready fresh out tr" "fst (read_fresh K appDef (world s)) = Inr fresh" for found ready fresh
  proof -
    have "status_write appDef err (WStatus a)" if "status_ok appDef err found ready fresh a" for a
    proof -
      have "ad_meta a = ad_meta fresh" using that by (simp add: status_ok_def)
      then have "ad_namespace a = ad_namespace appDef \<and> ad_name a = ad_name appDef"
        using key [OF \<open>fst (read_fresh K appDef (world s)) = Inr fresh\<close>] by simp
      then show ?thesis using that by (auto simp: status_write_def)
    qed
    then show ?thesis using that(1) by (auto simp: attempt_writes_def)
  qed
  have "list_all (status_write appDef err) tr"
    using tr(2) one by (auto simp: attempt_report_def split: sum.splits if_splits)
  then show "writes_only (status_write appDef err) s (snd (run_state (updateStatusOnce K appDef err) s))"
    using tr(1) run by (auto simp: writes_only_def)
qed

lemma only_writes_updateStatus:
  assumes "condition_laws K" and "retry_law K" and "keyed (k_appDefinitions K) ad_meta"
  shows "only_writes (status_write appDef err) (updateStatus K appDef err)"
  unfolding updateStatus_def by (rule only_writes_retry [OF assms(2) only_writes_updateStatusOnce [OF assms(1,3)]])

section \<open>Properties\<close>

text \<open>
  C21. The status never lies. An update is one attempt or several, each next one only after a
  conflict, and every attempt reports what it has itself read: with the Deployment it reads, and
  the AppDefinition it then reads again, it writes one status, to that AppDefinition, whose phase is
  \<open>Paused\<close> for a paused application, \<open>Failed\<close> (with the error) after an error, \<open>Available\<close> exactly if that
  Deployment exists and has at least the wanted replicas ready, else \<open>Progressing\<close>; it counts that
  Deployment's ready replicas, is \<open>Ready\<close> exactly in the phase \<open>Available\<close>, observes the generation of the
  object it is written to, and has each of the six other conditions exactly when the feature it
  reports on is in the spec. If either read fails (other than that there is no Deployment), the
  attempt fails and writes nothing; one that succeeds has written its status; and nothing else is
  ever written.
\<close>

theorem status_report:
  assumes "condition_laws K" and "retry_law K"
  shows "(\<exists>n. run_state (updateStatus K appDef err) s = run_state (attempts is_conflict n (updateStatusOnce K appDef err)) s)
    \<and> attempt_report K appDef err t (fst (run_state (updateStatusOnce K appDef err) t))
        (new_writes t (snd (run_state (updateStatusOnce K appDef err) t)))"
proof
  show "\<exists>n. run_state (updateStatus K appDef err) s = run_state (attempts is_conflict n (updateStatusOnce K appDef err)) s"
    using assms(2) by (simp add: retry_law_def updateStatus_def)
  show "attempt_report K appDef err t (fst (run_state (updateStatusOnce K appDef err) t))
        (new_writes t (snd (run_state (updateStatusOnce K appDef err) t)))"
    using updateStatusOnce_report [OF assms(1), of appDef err t "fst (run_state (updateStatusOnce K appDef err) t)"
        "snd (run_state (updateStatusOnce K appDef err) t)"] by (auto simp: new_writes_def)
qed

text \<open>
  The decision table: an application is \<open>Available\<close> and \<open>Ready\<close> exactly when it is not paused, the
  reconcile had no error, its Deployment exists and has at least the replicas of the spec ready;
  \<open>Failed\<close> exactly when it is not paused and there was an error, which is then reported; a paused
  application is \<open>Paused\<close> whatever happened.
\<close>

theorem phase_table:
  "(dc_phase (decide appDef err found ready) = ''Available'' \<longleftrightarrow>
      \<not> spec_Paused (ad_spec appDef) \<and> err = None \<and> found \<and> wantedReplicas appDef \<le> ready)
   \<and> (dc_ready (decide appDef err found ready) = ''True'' \<longleftrightarrow> dc_phase (decide appDef err found ready) = ''Available'')
   \<and> (dc_phase (decide appDef err found ready) = ''Failed'' \<longleftrightarrow> \<not> spec_Paused (ad_spec appDef) \<and> err \<noteq> None)
   \<and> (dc_phase (decide appDef err found ready) = ''Paused'' \<longleftrightarrow> spec_Paused (ad_spec appDef))
   \<and> dc_lastError (decide appDef err found ready)
       = (if spec_Paused (ad_spec appDef) then [] else case err of None \<Rightarrow> [] | Some e \<Rightarrow> err_msg e)
   \<and> dc_phase (decide appDef err found ready) \<in> {''Paused'', ''Failed'', ''Available'', ''Progressing''}"
  by (auto simp: decide_def Let_def split: option.splits)

lemma run_ingressAddrs:
  assumes "\<And>d. d \<in> set ds \<Longrightarrow>
      run_state (rget (k_ingresses K) (ad_namespace appDef) (ingressName appDef d)) (world s) = (rd d, world s)"
  shows "run_state (ingressAddrs K appDef addrs pending ds) s =
    ((addrs @ concat (map (\<lambda>d. lb_addrs d (rd d)) ds),
      pending + length (filter (\<lambda>d. lb_addrs d (rd d) = []) ds)), s)"
  using assms
proof (induction ds arbitrary: addrs pending)
  case (Cons d ds)
  have read: "run_state (rget (k_ingresses K) (ad_namespace appDef) (ingressName appDef d)) (world s) = (rd d, world s)"
    by (rule Cons.prems) simp
  have rest: "run_state (ingressAddrs K appDef addrs pending ds) s =
      ((addrs @ concat (map (\<lambda>d. lb_addrs d (rd d)) ds),
        pending + length (filter (\<lambda>d. lb_addrs d (rd d) = []) ds)), s)" for addrs pending
    by (rule Cons.IH, rule Cons.prems) simp
  show ?case by (simp add: read rest)
qed simp

text \<open>
  C34. \<open>IngressReady\<close> counts every domain: if \<open>rd\<close> is what reading each domain's Ingress returns,
  the status is \<open>True\<close> exactly when every Ingress can be read and has an address (an IP or a host
  name), and computing it changes nothing.
\<close>

theorem ingress_ready_iff:
  assumes "\<forall>d \<in> set (spec_Domains (ad_spec appDef)).
      run_state (rget (k_ingresses K) (ad_namespace appDef) (ingressName appDef d)) (world s) = (rd d, world s)"
  shows "\<exists>addrs pending.
      run_state (ingressAddrs K appDef [] 0 (spec_Domains (ad_spec appDef))) s = ((addrs, pending), s)
      \<and> (fst (ingressState appDef addrs pending) = ''True'' \<longleftrightarrow>
           (\<forall>d \<in> set (spec_Domains (ad_spec appDef)). \<exists>ing. rd d = Inr ing \<and>
              (\<exists>lb \<in> set (ing_LoadBalancer ing). fst lb \<noteq> '''' \<or> snd lb \<noteq> '''')))"
proof -
  have addr: "lb_addrs d r = [] \<longleftrightarrow>
      \<not> (\<exists>ing. r = Inr ing \<and> (\<exists>lb \<in> set (ing_LoadBalancer ing). fst lb \<noteq> '''' \<or> snd lb \<noteq> ''''))" for d r
    by (cases r) (auto simp: lb_addrs_def lb_addr_Nil)
  have "run_state (ingressAddrs K appDef [] 0 (spec_Domains (ad_spec appDef))) s =
      ((concat (map (\<lambda>d. lb_addrs d (rd d)) (spec_Domains (ad_spec appDef))),
        length (filter (\<lambda>d. lb_addrs d (rd d) = []) (spec_Domains (ad_spec appDef)))), s)"
    using run_ingressAddrs [of "spec_Domains (ad_spec appDef)" K appDef s rd "[]" 0] assms by simp
  moreover have "fst (ingressState appDef addrs (length (filter (\<lambda>d. lb_addrs d (rd d) = []) (spec_Domains (ad_spec appDef))))) = ''True''
      \<longleftrightarrow> (\<forall>d \<in> set (spec_Domains (ad_spec appDef)). lb_addrs d (rd d) \<noteq> [])" for addrs
    by (simp add: ingressState_def filter_empty_conv)
  ultimately show ?thesis unfolding addr by blast
qed

section \<open>Concrete instances\<close>

lemma mem_condition_laws: "condition_laws mem"
proof -
  have "\<exists>d. find (\<lambda>d. cond_type d = cond_type c) (mem_setStatusCondition c cs) = Some d
      \<and> cond_status d = cond_status c \<and> cond_reason d = cond_reason c \<and> cond_message d = cond_message c" for c cs
    by (induction cs) auto
  moreover have "find (\<lambda>d. cond_type d = t) (mem_setStatusCondition c cs) = find (\<lambda>d. cond_type d = t) cs"
    if "t \<noteq> cond_type c" for t c cs
    using that by (induction cs) auto
  moreover have "find (\<lambda>d. cond_type d = t) (filter (\<lambda>d. cond_type d \<noteq> t) cs) = None" for t and cs :: "Condition list"
    by (simp add: find_None_iff)
  moreover have "find (\<lambda>d. cond_type d = t') (filter (\<lambda>d. cond_type d \<noteq> t) cs) = find (\<lambda>d. cond_type d = t') cs"
    if "t' \<noteq> t" for t t' and cs :: "Condition list"
    using that by (induction cs) auto
  ultimately show ?thesis by (simp add: condition_laws_def mem_def)
qed

text \<open>An application whose Deployment has the one replica it wants ready.\<close>

definition example_ready_cluster :: cluster where
  "example_ready_cluster = empty_cluster\<lparr>cl_apps := [zero_app ''web'' ''prod''],
     cl_deployments := [(empty_deployment (object_meta ''web'' ''prod''))\<lparr>dep_ReadyReplicas := 1\<rparr>]\<rparr>"

lemma status_report_witness:
  "\<exists>a. new_writes (mem_st example_ready_cluster)
        (snd (run_state (updateStatusOnce mem (zero_app ''web'' ''prod'') None) (mem_st example_ready_cluster))) = [WStatus a]
     \<and> st_Phase (ad_status a) = ''Available'' \<and> st_ReadyReplicas (ad_status a) = 1
     \<and> map_option cond_status (condition_of ConditionTypeReady a) = Some ''True''"
proof -
  let ?app = "zero_app ''web'' ''prod''" and ?s = "mem_st example_ready_cluster"
  have read: "fst (read_deployment mem ?app (world ?s))
        = Inr ((empty_deployment (object_meta ''web'' ''prod''))\<lparr>dep_ReadyReplicas := 1\<rparr>)"
      "fst (read_fresh mem ?app (world ?s)) = Inr ?app"
    by code_simp+
  note read = this [simplified]
  have ok: "fst (run_state (updateStatusOnce mem ?app None) ?s) = Inr ()" by code_simp
  have one: "phase_spec ?app None True 1 = ''Available''" by code_simp
  have "attempt_report mem ?app None ?s (Inr ())
      (new_writes ?s (snd (run_state (updateStatusOnce mem ?app None) ?s)))"
    using status_report [OF mem_condition_laws mem_retry_law, of ?app None ?s ?s] unfolding ok by blast
  then have "attempt_writes ?app None True 1 ?app (Inr ())
      (new_writes ?s (snd (run_state (updateStatusOnce mem ?app None) ?s)))"
    using read by (simp add: attempt_report_def found_of_def ready_of_def)
  then show ?thesis using one by (auto simp: attempt_writes_def status_ok_def)
qed

definition example_ingress_cluster :: cluster where
  "example_ingress_cluster = empty_cluster\<lparr>cl_ingresses :=
     [(empty_ingress (object_meta (ingressName example_ingress_app example_domain) ''prod''))
        \<lparr>ing_LoadBalancer := [(''10.0.0.1'', '''')]\<rparr>]\<rparr>"

lemma ingress_ready_iff_witness:
  "\<exists>addrs pending.
     run_state (ingressAddrs mem example_ingress_app [] 0 [example_domain]) (mem_st example_ingress_cluster)
       = ((addrs, pending), mem_st example_ingress_cluster)
     \<and> fst (ingressState example_ingress_app addrs pending) = ''True''"
proof -
  let ?rd = "\<lambda>_. Inr ((empty_ingress (object_meta (ingressName example_ingress_app example_domain) ''prod''))
        \<lparr>ing_LoadBalancer := [(''10.0.0.1'', '''')]\<rparr>) :: Ingress result"
  have "\<forall>d \<in> set (spec_Domains (ad_spec example_ingress_app)).
      run_state (rget (k_ingresses mem) (ad_namespace example_ingress_app) (ingressName example_ingress_app d))
        (world (mem_st example_ingress_cluster)) = (?rd d, world (mem_st example_ingress_cluster))"
    by (simp add: example_ingress_app_def mem_def mem_client_def mem_get_def at_key_def example_ingress_cluster_def
        empty_ingress_def)
  from ingress_ready_iff [OF this] show ?thesis by (simp add: example_ingress_app_def)
qed

end
