(* ===== verification/Controller.thy ===== *)
theory Controller
  imports Status
begin

text \<open>
  \<open>appdefinition_controller.go\<close>: the steps of a reconcile and their order, the finalizer and
  deletion, the requeue decision, and the functions that map events of other objects to the
  applications they concern.
\<close>

section \<open>The steps\<close>

text \<open>\<open>if err := observeReconcileStep(name, f); err != nil { return false, err }\<close>\<close>

definition step :: "string \<Rightarrow> ('w, 'a result) prog \<Rightarrow> ('a \<Rightarrow> ('w, 'b result) prog) \<Rightarrow> ('w, 'b result) prog" where
  "step name m k = tryM (observeReconcileStep name m) id k"

definition reconcileAll :: "'w k8s \<Rightarrow> AppDefinition \<Rightarrow> ('w, bool result) prog" where
  "reconcileAll K appDef =
     (if spec_Paused (ad_spec appDef) then ret False
      else
        step ''configmaps'' (reconcileConfigMaps K appDef) (\<lambda>_.
        step ''secrets'' (reconcileSecrets K appDef) (\<lambda>_.
        step ''secret_store'' (reconcileSecretStore K appDef) (\<lambda>_.
        step ''external_secrets'' (reconcileExternalSecrets K appDef) (\<lambda>_.
        step ''external_secrets_retry'' (retryFailedExternalSecrets K appDef) (\<lambda>externalSecretsPending.
        step ''deployment'' (reconcileDeployment K appDef) (\<lambda>_.
        step ''service'' (reconcileService K appDef) (\<lambda>_.
        (if spec_Disk (ad_spec appDef) \<noteq> None then step ''pvc'' (reconcilePVC K appDef) else (\<lambda>k. k ())) (\<lambda>_.
        step ''middlewares'' (reconcileMiddlewares K appDef) (\<lambda>_.
        step ''ingress'' (reconcileIngress K appDef) (\<lambda>_.
        step ''hpa'' (reconcileHPA K appDef) (\<lambda>_.
        step ''service_monitor'' (reconcileServiceMonitor K appDef) (\<lambda>_.
        ret externalSecretsPending)))))))))))))"

section \<open>Reconcile\<close>

definition finalizer :: string where
  "finalizer = ''appdefinition.abexamir.me/finalizer''"

text \<open>\<open>ctrl.Result\<close>, the delay in nanoseconds.\<close>

datatype requeue = Done | Requeue | RequeueAfter int

definition with_finalizers :: "(string list \<Rightarrow> string list) \<Rightarrow> AppDefinition \<Rightarrow> AppDefinition" where
  "with_finalizers f a = a\<lparr>ad_meta := (ad_meta a)\<lparr>m_finalizers := f (m_finalizers (ad_meta a))\<rparr>\<rparr>"

definition addFinalizer :: "AppDefinition \<Rightarrow> AppDefinition" where
  "addFinalizer = with_finalizers (\<lambda>fs. fs @ [finalizer])"

definition removeFinalizer :: "AppDefinition \<Rightarrow> AppDefinition" where
  "removeFinalizer = with_finalizers (filter (\<lambda>f. f \<noteq> finalizer))"

definition handleDeletion :: "'w k8s \<Rightarrow> AppDefinition \<Rightarrow> ('w, requeue result) prog" where
  "handleDeletion K appDef =
     tryM (do_update (k_appDefinitions K) AppDefinitionK ad_meta (removeFinalizer appDef))
       (Wrap ''failed to remove finalizer'') (\<lambda>_. ret Done)"

text \<open>The end of a reconcile without error.\<close>

definition requeueAfter :: "'w k8s \<Rightarrow> AppDefinition \<Rightarrow> bool \<Rightarrow> ('w, requeue result) prog" where
  "requeueAfter K appDef externalSecretsPending =
     (if spec_Paused (ad_spec appDef) then ret Done
      else if externalSecretsPending then ret (RequeueAfter externalSecretsRetryInterval)
      else do {
        r \<leftarrow> lift (rget (k_appDefinitions K) (ad_namespace appDef) (ad_name appDef));
        case r of
          Inr fresh \<Rightarrow>
            if st_Phase (ad_status fresh) = ''Available'' then ret Done else ret (RequeueAfter (30 * second))
        | Inl _ \<Rightarrow> ret (RequeueAfter (30 * second)) })"

definition error_of :: "'a result \<Rightarrow> error option" where
  "error_of r = (case r of Inl e \<Rightarrow> Some e | Inr _ \<Rightarrow> None)"

definition panicked :: "'a result \<Rightarrow> bool" where
  "panicked r = (case r of Inl e \<Rightarrow> is_panic e | Inr _ \<Rightarrow> False)"

text \<open>
  Reconcile the children, then always the status; the error of the children comes before the error
  of the status. A panic leaves the function on the spot.
\<close>

definition reconcileLive :: "'w k8s \<Rightarrow> AppDefinition \<Rightarrow> ('w, requeue result) prog" where
  "reconcileLive K appDef = do {
     r \<leftarrow> reconcileAll K appDef;
     (if panicked r then State_Monad.return (map_sum id (\<lambda>_. Done) r)
      else do {
        s \<leftarrow> updateStatus K appDef (error_of r);
        (if panicked s then State_Monad.return (map_sum id (\<lambda>_. Done) s)
         else (case r of
                 Inl e \<Rightarrow> fail e
               | Inr pending \<Rightarrow>
                   (case s of
                      Inl e \<Rightarrow> fail e
                    | Inr _ \<Rightarrow> requeueAfter K appDef pending))) }) }"

definition Reconcile :: "'w k8s \<Rightarrow> string \<Rightarrow> string \<Rightarrow> ('w, requeue result) prog" where
  "Reconcile K ns name = do {
     r \<leftarrow> lift (rget (k_appDefinitions K) ns name);
     case r of
       Inl e \<Rightarrow>
         if is_not_found e then do { forgetAppMetrics ns name; ret Done } else fail e
     | Inr appDef \<Rightarrow>
         if finalizer \<notin> set (m_finalizers (ad_meta appDef)) then
           tryM (do_update (k_appDefinitions K) AppDefinitionK ad_meta (addFinalizer appDef))
             (Wrap ''failed to add finalizer'') (\<lambda>_. ret Requeue)
         else if m_deletionTimestamp (ad_meta appDef) \<noteq> None then handleDeletion K appDef
         else reconcileLive K appDef }"

section \<open>Events of other objects\<close>

text \<open>The objects watched with \<open>mapSecretStoreDependencyToAppDefinitions\<close>.\<close>

datatype watched = WatchedServiceAccount ObjectMeta | WatchedUnstructured Unstructured

definition watched_meta :: "watched \<Rightarrow> ObjectMeta" where
  "watched_meta obj = (case obj of WatchedServiceAccount m \<Rightarrow> m | WatchedUnstructured u \<Rightarrow> u_meta u)"

definition is_service_account :: "watched \<Rightarrow> bool" where
  "is_service_account obj = (case obj of WatchedServiceAccount _ \<Rightarrow> True | WatchedUnstructured _ \<Rightarrow> False)"

text \<open>A typed object carries no kind of its own.\<close>

definition watched_kind :: "watched \<Rightarrow> string" where
  "watched_kind obj = (case obj of WatchedServiceAccount _ \<Rightarrow> '''' | WatchedUnstructured u \<Rightarrow> u_kind u)"

definition apiGroup :: string where
  "apiGroup = ''appdefinition.abexamir.me''"

definition declares_store :: "watched \<Rightarrow> AppDefinition \<Rightarrow> bool" where
  "declares_store obj app =
     (case spec_SecretStore (ad_spec app) of
        None \<Rightarrow> False
      | Some store \<Rightarrow>
          secretStoreScope store = ''Namespace''
          \<and> (is_service_account obj \<or> ss_Name store = m_name (watched_meta obj)))"

definition mapSecretStoreDependencyToAppDefinitions :: "'w k8s \<Rightarrow> watched \<Rightarrow> ('w, (string \<times> string) list) prog" where
  "mapSecretStoreDependencyToAppDefinitions K obj =
     (let m = watched_meta obj
      in case k_getControllerOf K m of
           Some owner \<Rightarrow>
             State_Monad.return
               (if or_kind owner = ''AppDefinition'' \<and> has_prefix (or_apiVersion owner) (apiGroup @ ''/'')
                then [(m_namespace m, or_name owner)] else [])
         | None \<Rightarrow>
             if watched_kind obj \<noteq> ''SecretStore'' \<and> (\<not> is_service_account obj \<or> m_name m \<noteq> m_namespace m)
             then State_Monad.return []
             else do {
               r \<leftarrow> lift (rlist (k_appDefinitions K) (m_namespace m) []);
               State_Monad.return (case r of
                 Inl _ \<Rightarrow> []
               | Inr apps \<Rightarrow> map (\<lambda>app. (ad_namespace app, ad_name app)) (filter (declares_store obj) apps)) })"

definition mapManagedSecretToAppDefinition :: "ObjectMeta \<Rightarrow> (string \<times> string) list" where
  "mapManagedSecretToAppDefinition m =
     (if map_get (m_labels m) ''app.kubernetes.io/managed-by'' \<noteq> ''app-operator'' then []
      else let name = map_get (m_labels m) ''app.kubernetes.io/instance''
           in if name = '''' then [] else [(m_namespace m, name)])"

datatype watch_event = CreateEvent watched | DeleteEvent watched | GenericEvent watched | UpdateEvent watched watched

fun esoDependencyPredicate :: "watch_event \<Rightarrow> bool" where
  "esoDependencyPredicate (CreateEvent _) = False"
| "esoDependencyPredicate (DeleteEvent _) = True"
| "esoDependencyPredicate (GenericEvent _) = False"
| "esoDependencyPredicate (UpdateEvent old new) =
     (if m_generation (watched_meta old) \<noteq> m_generation (watched_meta new) then True
      else (case (old, new) of
              (WatchedUnstructured o', WatchedUnstructured n) \<Rightarrow> esoReadyStatus o' \<noteq> esoReadyStatus n
            | _ \<Rightarrow> False))"

section \<open>Writes of the steps\<close>

definition patch_write :: "api_write \<Rightarrow> bool" where
  "patch_write e = (case e of WPatch k m \<Rightarrow> is_kind ''SecretStore'' k \<or> is_kind ''ExternalSecret'' k | _ \<Rightarrow> False)"

lemma only_writes_retryIfNotReady:
  assumes "g_kind gvk = ''SecretStore'' \<or> g_kind gvk = ''ExternalSecret''"
  shows "only_writes patch_write (retryIfNotReady K gvk ns name now)"
  unfolding retryIfNotReady_def Let_def case_prod_unfold
  using assms by (auto intro!: hoare split: sum.split simp: patch_write_def)

lemma only_writes_retryAll:
  assumes "g_kind gvk = ''ExternalSecret''"
  shows "only_writes patch_write (retryAll K appDef gvk now pending ess)"
  by (induction ess arbitrary: pending) (auto intro!: hoare only_writes_retryIfNotReady simp: assms)

lemma only_writes_retryStore:
  assumes "rest_mapping_law K"
  shows "only_writes patch_write (retryStore K appDef now)"
proof (cases "spec_SecretStore (ad_spec appDef)")
  case (Some store)
  show ?thesis unfolding retryStore_def Some option.case
  proof (rule wo.eff_bind_result)
    show "only_writes patch_write (resolveSecretStoreGVK K)"
      unfolding resolveSecretStoreGVK_def by (rule only_writes_resolve)
  qed (auto intro!: hoare only_writes_retryIfNotReady split: sum.split dest: resolveSecretStoreGVK_kind [OF assms])
qed (auto simp: retryStore_def intro!: hoare)

lemma only_writes_retryFailed:
  assumes "rest_mapping_law K"
  shows "only_writes patch_write (retryFailedExternalSecrets K appDef)"
proof -
  have rest: "only_writes patch_write (do {
      r \<leftarrow> resolveExternalSecretGVK K;
      case r of
        Inl e \<Rightarrow> if is_no_match e then ret pending else fail (Wrap ''resolving ExternalSecret API version'' e)
      | Inr gvk \<Rightarrow> retryAll K appDef gvk now pending (spec_ExternalSecrets (ad_spec appDef)) })" for now pending
  proof (rule wo.eff_bind_result)
    show "only_writes patch_write (resolveExternalSecretGVK K)"
      unfolding resolveExternalSecretGVK_def by (rule only_writes_resolve)
  qed (auto intro!: hoare only_writes_retryAll split: sum.split dest: resolveExternalSecretGVK_kind [OF assms])
  show ?thesis unfolding retryFailedExternalSecrets_def
    by (auto intro!: hoare rest only_writes_retryStore [OF assms])
qed

text \<open>The writes of the steps, in the order of the steps, and the laws of the API server they need.\<close>

definition step_writes :: "'w k8s \<Rightarrow> AppDefinition \<Rightarrow> (api_write \<Rightarrow> bool) list" where
  "step_writes K appDef =
     [child_write K appDef (\<lambda>k. k = ConfigMapK) (map (\<lambda>cm. childName appDef (cmm_Name cm)) (spec_ConfigMaps (ad_spec appDef))),
      child_write K appDef (\<lambda>k. k = SecretK) (map (\<lambda>sec. childName appDef (sec_Name sec)) (inlineSecrets appDef)),
      store_write appDef,
      child_write K appDef (is_kind ''ExternalSecret'') (map (externalSecretName appDef) (spec_ExternalSecrets (ad_spec appDef))),
      patch_write,
      own_write DeploymentK (ad_name appDef) (ad_namespace appDef),
      own_object ServiceK (ad_name appDef) (ad_namespace appDef),
      pvc_write appDef,
      child_write K appDef (is_kind ''Middleware'') (map (middleware_of appDef) (domainMiddlewares appDef)),
      child_write K appDef (\<lambda>k. k = IngressK) (map (ingressName appDef) (spec_Domains (ad_spec appDef))),
      own_object HorizontalPodAutoscalerK (ad_name appDef) (ad_namespace appDef),
      own_object (UnstructuredK serviceMonitorGVK) (serviceMonitorName (ad_name appDef)) (ad_namespace appDef)]"

definition api_laws :: "'w k8s \<Rightarrow> bool" where
  "api_laws K \<longleftrightarrow> retry_law K \<and> rest_mapping_law K \<and> keyed (k_services K) svc_meta
     \<and> keyed (k_unstructured K serviceMonitorGVK) u_meta"

section \<open>Traces in order\<close>

text \<open>
  The writes of a program are those of the predicates from \<open>i\<close> on, in the order of the list: each
  write belongs to a predicate at or after that of the write before it.
\<close>

fun in_order :: "(api_write \<Rightarrow> bool) list \<Rightarrow> api_write list \<Rightarrow> bool" where
  "in_order Ps [] = True"
| "in_order [] (e # tr) = False"
| "in_order (P # Ps) (e # tr) = ((P e \<and> in_order (P # Ps) tr) \<or> in_order Ps (e # tr))"

lemma in_order_skip: "in_order Ps tr \<Longrightarrow> in_order (P # Ps) tr"
  by (cases tr) auto

lemma in_order_append: "list_all P tr \<Longrightarrow> in_order (P # Ps) tr' \<Longrightarrow> in_order (P # Ps) (tr @ tr')"
  by (induction tr) auto

lemma in_order_step: "list_all P tr \<Longrightarrow> in_order Ps tr' \<Longrightarrow> in_order (P # Ps) (tr @ tr')"
  by (intro in_order_append in_order_skip)

lemma in_order_mem: "in_order Ps tr \<Longrightarrow> e \<in> set tr \<Longrightarrow> \<exists>P \<in> set Ps. P e"
proof (induction Ps tr rule: in_order.induct)
  case (3 P Ps e' tr)
  then show ?case by auto
qed auto

definition ordered_writes :: "(api_write \<Rightarrow> bool) list \<Rightarrow> ('w, 'a) prog \<Rightarrow> bool" where
  "ordered_writes Ps m \<longleftrightarrow> (\<forall>s. \<exists>tr. writes (snd (run_state m s)) = writes s @ tr \<and> in_order Ps tr)"

lemma ordered_ret: "ordered_writes Ps (State_Monad.return a)"
  by (auto simp: ordered_writes_def)

lemma ordered_skip: "ordered_writes Ps m \<Longrightarrow> ordered_writes (P # Ps) m"
  unfolding ordered_writes_def by (meson in_order_skip)

text \<open>One step, then the rest: an error of the step ends the trace there.\<close>

lemma ordered_step:
  assumes "only_writes P m" and "\<And>a. ordered_writes Ps (k a)"
  shows "ordered_writes (P # Ps) (step name m k)"
  unfolding ordered_writes_def
proof
  fix s
  obtain r s1 where m: "run_state (observeReconcileStep name m) s = (r, s1)"
    by (cases "run_state (observeReconcileStep name m) s")
  obtain tr where tr: "writes s1 = writes s @ tr" "list_all P tr"
    using only_writesD [OF only_writes_observe [OF assms(1)] m] by (auto simp: writes_only_def)
  show "\<exists>tr. writes (snd (run_state (step name m k) s)) = writes s @ tr \<and> in_order (P # Ps) tr"
  proof (cases r)
    case (Inl e)
    then show ?thesis using m tr in_order_step [OF tr(2), of Ps "[]"] by (simp add: step_def run_tryM)
  next
    case (Inr a)
    obtain tr' where "writes (snd (run_state (k a) s1)) = writes s1 @ tr'" "in_order Ps tr'"
      using assms(2) [of a] unfolding ordered_writes_def by meson
    then show ?thesis using m tr in_order_step [OF tr(2), of Ps tr'] Inr by (simp add: step_def)
  qed
qed

lemma ordered_reconcileAll:
  assumes "api_laws K"
  shows "ordered_writes (step_writes K appDef) (reconcileAll K appDef)"
proof -
  have laws: "retry_law K" "rest_mapping_law K" "keyed (k_services K) svc_meta"
    "keyed (k_unstructured K serviceMonitorGVK) u_meta" using assms by (auto simp: api_laws_def)
  have hpa: "only_writes (own_object HorizontalPodAutoscalerK (ad_name appDef) (ad_namespace appDef)) (reconcileHPA K appDef)"
    by (rule only_writes_mono [OF only_writes_reconcileHPA]) (auto simp: own_object_def split: if_splits)
  have "ordered_writes (pvc_write appDef # Ps) ((if spec_Disk (ad_spec appDef) \<noteq> None
      then step ''pvc'' (reconcilePVC K appDef) else (\<lambda>k. k ())) k)" if "ordered_writes Ps (k ())" for Ps and k :: "unit \<Rightarrow> ('a, bool result) prog"
    by (cases "spec_Disk (ad_spec appDef) = None")
      (simp_all add: that ordered_skip ordered_step [OF only_writes_reconcilePVC])
  note ws = this only_writes_reconcileConfigMaps only_writes_reconcileSecrets only_writes_reconcileSecretStore [OF laws(2)]
    only_writes_reconcileExternalSecrets [OF laws(1,2)] only_writes_retryFailed [OF laws(2)]
    only_writes_reconcileDeployment [OF laws(1)] only_writes_reconcileService [OF laws(3)]
    only_writes_reconcileMiddlewares [OF laws(1)] only_writes_reconcileIngress hpa
    only_writes_reconcileServiceMonitor [OF laws(4)]
  show ?thesis
    unfolding reconcileAll_def step_writes_def
    by (cases "spec_Paused (ad_spec appDef)") (simp_all only: if_True if_False, rule ordered_ret, intro ordered_step ws ordered_ret)
qed

section \<open>Properties\<close>

lemma requeueAfter_writes [simp]:
  "writes (snd (run_state (requeueAfter K appDef pending) s)) = writes s"
  "mx (snd (run_state (requeueAfter K appDef pending) s)) = mx s"
  by (auto simp: requeueAfter_def split: sum.split)

lemma new_writes_append: "writes s' = writes s @ tr \<Longrightarrow> new_writes s s' = tr"
  by (simp add: new_writes_def)

lemma reconcileAll_in_order:
  "api_laws K \<Longrightarrow> in_order (step_writes K appDef) (new_writes s (snd (run_state (reconcileAll K appDef) s)))"
  using ordered_reconcileAll [of K appDef] new_writes_append unfolding ordered_writes_def by metis

text \<open>
  What a sequence of steps is: each is run, measured under its name, in the state the one before has
  left, and everything it writes is of its own kind; the first error is the outcome, and no later
  step changes anything.
\<close>

fun staged ::
  "(string \<times> (api_write \<Rightarrow> bool) \<times> ('w, unit result) prog) list \<Rightarrow> 'w st \<Rightarrow> error option \<Rightarrow> 'w st \<Rightarrow> bool" where
  "staged [] s out s' = (out = None \<and> s' = s)"
| "staged ((name, P, m) # steps) s out s' =
     (case run_state (observeReconcileStep name m) s of
        (Inl e, t) \<Rightarrow> writes_only P s t \<and> out = Some e \<and> s' = t
      | (Inr _, t) \<Rightarrow> writes_only P s t \<and> staged steps t out s')"

text \<open>A step of which only the error matters here.\<close>

definition outcome :: "('w, 'a result) prog \<Rightarrow> ('w, unit result) prog" where
  "outcome m = do { r \<leftarrow> m; State_Monad.return (map_sum id (\<lambda>_. ()) r) }"

definition reconcile_steps :: "'w k8s \<Rightarrow> AppDefinition \<Rightarrow> (string \<times> (api_write \<Rightarrow> bool) \<times> ('w, unit result) prog) list" where
  "reconcile_steps K appDef =
     [(''configmaps'', child_write K appDef (\<lambda>k. k = ConfigMapK)
         (map (\<lambda>cm. childName appDef (cmm_Name cm)) (spec_ConfigMaps (ad_spec appDef))), outcome (reconcileConfigMaps K appDef)),
      (''secrets'', child_write K appDef (\<lambda>k. k = SecretK)
         (map (\<lambda>sec. childName appDef (sec_Name sec)) (inlineSecrets appDef)), outcome (reconcileSecrets K appDef)),
      (''secret_store'', store_write appDef, outcome (reconcileSecretStore K appDef)),
      (''external_secrets'', child_write K appDef (is_kind ''ExternalSecret'')
         (map (externalSecretName appDef) (spec_ExternalSecrets (ad_spec appDef))), outcome (reconcileExternalSecrets K appDef)),
      (''external_secrets_retry'', patch_write, outcome (retryFailedExternalSecrets K appDef)),
      (''deployment'', own_write DeploymentK (ad_name appDef) (ad_namespace appDef), outcome (reconcileDeployment K appDef)),
      (''service'', own_object ServiceK (ad_name appDef) (ad_namespace appDef), outcome (reconcileService K appDef))]
     @ (if spec_Disk (ad_spec appDef) \<noteq> None then [(''pvc'', pvc_write appDef, outcome (reconcilePVC K appDef))] else [])
     @ [(''middlewares'', child_write K appDef (is_kind ''Middleware'')
         (map (middleware_of appDef) (domainMiddlewares appDef)), outcome (reconcileMiddlewares K appDef)),
      (''ingress'', child_write K appDef (\<lambda>k. k = IngressK)
         (map (ingressName appDef) (spec_Domains (ad_spec appDef))), outcome (reconcileIngress K appDef)),
      (''hpa'', own_object HorizontalPodAutoscalerK (ad_name appDef) (ad_namespace appDef), outcome (reconcileHPA K appDef)),
      (''service_monitor'', own_object (UnstructuredK serviceMonitorGVK) (serviceMonitorName (ad_name appDef))
         (ad_namespace appDef), outcome (reconcileServiceMonitor K appDef))]"

lemma observe_outcome:
  "run_state (observeReconcileStep name (outcome m)) s =
     (map_sum id (\<lambda>_. ()) (fst (run_state (observeReconcileStep name m) s)), snd (run_state (observeReconcileStep name m) s))"
  by (cases "run_state m s"; cases "fst (run_state m s)") (auto simp: observeReconcileStep_def outcome_def)

lemma staged_step:
  assumes "only_writes P m"
    and "\<And>a t. staged steps t (error_of (fst (run_state (k a) t))) (snd (run_state (k a) t))"
  shows "staged ((name, P, outcome m) # steps) s (error_of (fst (run_state (step name m k) s))) (snd (run_state (step name m k) s))"
proof -
  obtain r t where run: "run_state (observeReconcileStep name m) s = (r, t)" by fastforce
  have "writes_only P s t" using only_writesD [OF only_writes_observe [OF assms(1)] run] .
  then show ?thesis using assms(2) run by (cases r) (simp_all add: observe_outcome step_def error_of_def)
qed

lemma staged_done: "staged [] s (error_of (fst (run_state (ret a) s))) (snd (run_state (ret a) s))"
  by (simp add: error_of_def)

lemma staged_reconcileAll:
  assumes "api_laws K" and "\<not> spec_Paused (ad_spec appDef)"
  shows "staged (reconcile_steps K appDef) s (error_of (fst (run_state (reconcileAll K appDef) s)))
    (snd (run_state (reconcileAll K appDef) s))"
proof -
  have laws: "retry_law K" "rest_mapping_law K" "keyed (k_services K) svc_meta"
    "keyed (k_unstructured K serviceMonitorGVK) u_meta" using assms(1) by (auto simp: api_laws_def)
  have hpa: "only_writes (own_object HorizontalPodAutoscalerK (ad_name appDef) (ad_namespace appDef)) (reconcileHPA K appDef)"
    by (rule only_writes_mono [OF only_writes_reconcileHPA]) (auto simp: own_object_def split: if_splits)
  note ws = only_writes_reconcileConfigMaps only_writes_reconcileSecrets only_writes_reconcileSecretStore [OF laws(2)]
    only_writes_reconcileExternalSecrets [OF laws(1,2)] only_writes_retryFailed [OF laws(2)]
    only_writes_reconcileDeployment [OF laws(1)] only_writes_reconcileService [OF laws(3)] only_writes_reconcilePVC
    only_writes_reconcileMiddlewares [OF laws(1)] only_writes_reconcileIngress hpa
    only_writes_reconcileServiceMonitor [OF laws(4)]
  show ?thesis
    using assms(2) unfolding reconcileAll_def reconcile_steps_def
    by (cases "spec_Disk (ad_spec appDef) = None")
      (simp_all only: if_True if_False not_True_eq_False not_False_eq_True append_Cons append_Nil simp_thms,
        (intro staged_step ws staged_done)+)
qed


definition safe_delete :: "'w k8s \<Rightarrow> AppDefinition \<Rightarrow> api_write \<Rightarrow> bool" where
  "safe_delete K appDef e =
     (case e of
        WDelete k m \<Rightarrow>
          (k = ConfigMapK \<and> stale K appDef (map (\<lambda>cm. childName appDef (cmm_Name cm)) (spec_ConfigMaps (ad_spec appDef))) m)
          \<or> (k = SecretK \<and> stale K appDef (map (\<lambda>sec. childName appDef (sec_Name sec)) (inlineSecrets appDef)) m)
          \<or> (is_kind ''ExternalSecret'' k \<and> stale K appDef (map (externalSecretName appDef) (spec_ExternalSecrets (ad_spec appDef))) m)
          \<or> (is_kind ''Middleware'' k \<and> stale K appDef (map (middleware_of appDef) (domainMiddlewares appDef)) m)
          \<or> (k = IngressK \<and> stale K appDef (map (ingressName appDef) (spec_Domains (ad_spec appDef))) m)
          \<or> (k \<in> {ServiceK, HorizontalPodAutoscalerK} \<and> m_name m = ad_name appDef \<and> m_namespace m = ad_namespace appDef)
          \<or> (k = UnstructuredK serviceMonitorGVK \<and> m_name m = serviceMonitorName (ad_name appDef)
             \<and> m_namespace m = ad_namespace appDef)
      | _ \<Rightarrow> True)"

lemma step_deletes_safely:
  assumes "P \<in> set (step_writes K appDef)" and "P e"
  shows "safe_delete K appDef e"
proof (cases e)
  case (WDelete k m)
  have "list_all (\<lambda>P. P (WDelete k m) \<longrightarrow> safe_delete K appDef (WDelete k m)) (step_writes K appDef)"
    unfolding step_writes_def list.pred_inject
    by (intro conjI impI TrueI)
      (simp_all add: safe_delete_def store_write_def patch_write_def own_write_def own_object_def pvc_write_def
        split: option.splits)
  then show ?thesis using assms WDelete unfolding list_all_iff by blast
qed (simp_all add: safe_delete_def)

text \<open>
  A paused application is left alone: reconciling its children does nothing at all, not even a
  read, and a whole \<open>Reconcile\<close> of it writes nothing but its status and is not repeated.
\<close>

theorem paused_does_nothing:
  assumes "spec_Paused (ad_spec appDef)" and "condition_laws K" and "retry_law K" and "keyed (k_appDefinitions K) ad_meta"
  shows "run_state (reconcileAll K appDef) s = (Inr False, s)
    \<and> list_all (status_write appDef None) (new_writes s (snd (run_state (reconcileLive K appDef) s)))
    \<and> (fst (run_state (reconcileLive K appDef) s) = Inr Done
        \<longleftrightarrow> fst (run_state (updateStatus K appDef None) s) = Inr ())"
proof -
  have all: "run_state (reconcileAll K appDef) s = (Inr False, s)"
    using assms(1) by (simp add: reconcileAll_def)
  obtain r s1 where u: "run_state (updateStatus K appDef None) s = (r, s1)"
    by (cases "run_state (updateStatus K appDef None) s")
  obtain tr where tr: "writes s1 = writes s @ tr" "list_all (status_write appDef None) tr"
    using only_writesD [OF only_writes_updateStatus [OF assms(2-4)] u] by (auto simp: writes_only_def)
  have live: "run_state (reconcileLive K appDef) s = (case r of Inl e \<Rightarrow> Inl e | Inr _ \<Rightarrow> Inr Done, s1)"
    using all u assms(1) by (cases r) (simp_all add: reconcileLive_def panicked_def error_of_def requeueAfter_def)
  show ?thesis using all live tr u by (cases r) (simp_all add: new_writes_append)
qed

text \<open>Each of the three ways through \<open>Reconcile\<close>.\<close>

lemma run_addFinalizer:
  "case run_state (rupdate (k_appDefinitions K)
       (a\<lparr>ad_meta := (ad_meta a)\<lparr>m_finalizers := m_finalizers (ad_meta a) @ [''appdefinition.abexamir.me/finalizer'']\<rparr>\<rparr>)) w of
     (u, w') \<Rightarrow>
       snd (run_state (tryM (do_update (k_appDefinitions K) AppDefinitionK ad_meta (addFinalizer a))
             (Wrap ''failed to add finalizer'') (\<lambda>_. ret Requeue)) (s\<lparr>world := w\<rparr>))
         = s\<lparr>world := w', writes := writes s @ [WUpdate AppDefinitionK
             (ad_meta (a\<lparr>ad_meta := (ad_meta a)\<lparr>m_finalizers := m_finalizers (ad_meta a) @ [''appdefinition.abexamir.me/finalizer'']\<rparr>\<rparr>))]\<rparr>
       \<and> fst (run_state (tryM (do_update (k_appDefinitions K) AppDefinitionK ad_meta (addFinalizer a))
             (Wrap ''failed to add finalizer'') (\<lambda>_. ret Requeue)) (s\<lparr>world := w\<rparr>))
         = (case u of Inl e \<Rightarrow> Inl (Wrap ''failed to add finalizer'' e) | Inr _ \<Rightarrow> Inr Requeue)"
  by (auto simp: do_update_def run_tryM addFinalizer_def with_finalizers_def finalizer_def split: prod.split sum.split)

lemma run_handleDeletion:
  "case run_state (rupdate (k_appDefinitions K)
       (a\<lparr>ad_meta := (ad_meta a)\<lparr>m_finalizers :=
          filter (\<lambda>f. f \<noteq> ''appdefinition.abexamir.me/finalizer'') (m_finalizers (ad_meta a))\<rparr>\<rparr>)) w of
     (u, w') \<Rightarrow>
       snd (run_state (handleDeletion K a) (s\<lparr>world := w\<rparr>))
         = s\<lparr>world := w', writes := writes s @ [WUpdate AppDefinitionK (ad_meta (a\<lparr>ad_meta := (ad_meta a)\<lparr>m_finalizers :=
             filter (\<lambda>f. f \<noteq> ''appdefinition.abexamir.me/finalizer'') (m_finalizers (ad_meta a))\<rparr>\<rparr>))]\<rparr>
       \<and> fst (run_state (handleDeletion K a) (s\<lparr>world := w\<rparr>))
         = (case u of Inl e \<Rightarrow> Inl (Wrap ''failed to remove finalizer'' e) | Inr _ \<Rightarrow> Inr Done)"
  by (auto simp: handleDeletion_def do_update_def run_tryM removeFinalizer_def with_finalizers_def finalizer_def
      split: prod.split sum.split)

lemma reconcileLive_outcome:
  "case run_state (reconcileAll K a) s of (r, t) \<Rightarrow>
     if \<exists>e. r = Inl e \<and> is_panic e
     then snd (run_state (reconcileLive K a) s) = t \<and> error_of (fst (run_state (reconcileLive K a) s)) = error_of r
     else (case run_state (updateStatus K a (error_of r)) t of (u, t') \<Rightarrow>
       writes (snd (run_state (reconcileLive K a) s)) = writes t' \<and> mx (snd (run_state (reconcileLive K a) s)) = mx t'
       \<and> (case (r, u) of
            (Inl e, _) \<Rightarrow> error_of (fst (run_state (reconcileLive K a) s))
                = (if \<exists>p. u = Inl p \<and> is_panic p then error_of u else Some e)
          | (Inr _, Inl e) \<Rightarrow> fst (run_state (reconcileLive K a) s) = Inl e
          | (Inr pending, Inr _) \<Rightarrow>
              (fst (run_state (reconcileLive K a) s), snd (run_state (reconcileLive K a) s))
                = run_state (requeueAfter K a pending) t'))"
proof -
  obtain r t where all: "run_state (reconcileAll K a) s = (r, t)" by fastforce
  obtain u t' where st: "run_state (updateStatus K a (error_of r)) t = (u, t')" by fastforce
  show ?thesis
  proof (cases r)
    case (Inl e)
    then show ?thesis using all st by (cases u) (auto simp: reconcileLive_def panicked_def error_of_def)
  next
    case (Inr pending)
    then show ?thesis using all st by (cases u) (auto simp: reconcileLive_def panicked_def error_of_def)
  qed
qed

text \<open>
  C4. The life cycle of an application, by what the first read returns. One that is gone has its two
  metrics forgotten, nothing is written and no error returned; any other failed read is returned. One
  without the finalizer is updated once: the object sent is the one read with
  \<open>appdefinition.abexamir.me/finalizer\<close> appended to its finalizers and nothing else changed, and the
  request is queued again at once. One with the finalizer that is being deleted is updated once: the
  object sent is the one read without that finalizer, every other finalizer kept in order and nothing
  else changed, and its children are left to the garbage collector. Any other has its children
  reconciled and then, unless the Go code panicked, its status updated with the outcome; the error of
  the children is returned before that of the status.
\<close>

theorem reconcile_life_cycle:
  "case run_state (rget (k_appDefinitions K) ns name) (world s) of (r, w) \<Rightarrow>
     let s' = snd (run_state (Reconcile K ns name) s); out = fst (run_state (Reconcile K ns name) s)
     in case r of
          Inl e \<Rightarrow>
            world s' = w \<and> writes s' = writes s
            \<and> (if is_not_found e then out = Inr Done \<and> mx_appReady (mx s') = (mx_appReady (mx s))((ns, name) := None)
                  \<and> mx_appObservedGeneration (mx s') = (mx_appObservedGeneration (mx s))((ns, name) := None)
               else out = Inl e \<and> mx s' = mx s)
        | Inr a \<Rightarrow>
            if ''appdefinition.abexamir.me/finalizer'' \<notin> set (m_finalizers (ad_meta a)) then
              (let a' = a\<lparr>ad_meta := (ad_meta a)\<lparr>m_finalizers :=
                     m_finalizers (ad_meta a) @ [''appdefinition.abexamir.me/finalizer'']\<rparr>\<rparr>
               in case run_state (rupdate (k_appDefinitions K) a') w of (u, w') \<Rightarrow>
                    s' = s\<lparr>world := w', writes := writes s @ [WUpdate AppDefinitionK (ad_meta a')]\<rparr>
                    \<and> out = (case u of Inl e \<Rightarrow> Inl (Wrap ''failed to add finalizer'' e) | Inr _ \<Rightarrow> Inr Requeue))
            else if m_deletionTimestamp (ad_meta a) \<noteq> None then
              (let a' = a\<lparr>ad_meta := (ad_meta a)\<lparr>m_finalizers :=
                     filter (\<lambda>f. f \<noteq> ''appdefinition.abexamir.me/finalizer'') (m_finalizers (ad_meta a))\<rparr>\<rparr>
               in case run_state (rupdate (k_appDefinitions K) a') w of (u, w') \<Rightarrow>
                    s' = s\<lparr>world := w', writes := writes s @ [WUpdate AppDefinitionK (ad_meta a')]\<rparr>
                    \<and> out = (case u of Inl e \<Rightarrow> Inl (Wrap ''failed to remove finalizer'' e) | Inr _ \<Rightarrow> Inr Done))
            else
              (case run_state (reconcileAll K a) (s\<lparr>world := w\<rparr>) of
                 (r, t) \<Rightarrow>
                   if \<exists>e. r = Inl e \<and> is_panic e then s' = t \<and> error_of out = error_of r
                   else (case run_state (updateStatus K a (error_of r)) t of (u, t') \<Rightarrow>
                     writes s' = writes t' \<and> mx s' = mx t'
                     \<and> (case (r, u) of
                          (Inl e, _) \<Rightarrow> error_of out = (if \<exists>p. u = Inl p \<and> is_panic p then error_of u else Some e)
                        | (Inr _, Inl e) \<Rightarrow> out = Inl e
                        | (Inr pending, Inr _) \<Rightarrow> (out, s') = run_state (requeueAfter K a pending) t')))"
proof -
  obtain r w where read: "run_state (rget (k_appDefinitions K) ns name) (world s) = (r, w)" by fastforce
  show ?thesis
  proof (cases r)
    case (Inl e)
    then show ?thesis using read by (simp add: Reconcile_def forgetAppMetrics_def Let_def)
  next
    case (Inr a)
    note a = Inr
    have run: "run_state (Reconcile K ns name) s = run_state
        (if finalizer \<notin> set (m_finalizers (ad_meta a)) then
           tryM (do_update (k_appDefinitions K) AppDefinitionK ad_meta (addFinalizer a))
             (Wrap ''failed to add finalizer'') (\<lambda>_. ret Requeue)
         else if m_deletionTimestamp (ad_meta a) \<noteq> None then handleDeletion K a
         else reconcileLive K a) (s\<lparr>world := w\<rparr>)"
      using read Inr by (simp add: Reconcile_def)
    show ?thesis
    proof (cases "finalizer \<in> set (m_finalizers (ad_meta a))")
      case False
      show ?thesis
        unfolding read a prod.case sum.case Let_def run if_P [OF False] if_P [OF False [unfolded finalizer_def]]
        by (rule run_addFinalizer)
    next
      case True
      then have has: "\<not> finalizer \<notin> set (m_finalizers (ad_meta a))" by simp
      show ?thesis
      proof (cases "m_deletionTimestamp (ad_meta a) = None")
        case False
        show ?thesis
          unfolding read a prod.case sum.case Let_def run if_not_P [OF has] if_not_P [OF has [unfolded finalizer_def]] if_P [OF False]
          by (rule run_handleDeletion)
      next
        case True
        then have live: "\<not> m_deletionTimestamp (ad_meta a) \<noteq> None" by simp
        show ?thesis
          unfolding read a prod.case sum.case Let_def run if_not_P [OF has] if_not_P [OF has [unfolded finalizer_def]] if_not_P [OF live]
          using reconcileLive_outcome [of K a "s\<lparr>world := w\<rparr>"] unfolding prod.case .
      qed
    qed
  qed
qed

text \<open>
  When a reconcile succeeds, it asks to be repeated as long as there is something to wait for:
  after 30 seconds while an external secret is pending, and after 30 seconds while the phase just
  written is not \<open>Available\<close>; only an available or a paused application waits for the next event.
\<close>

theorem requeue_decision:
  "fst (run_state (requeueAfter K appDef pending) s) =
     Inr (if spec_Paused (ad_spec appDef) then Done
          else if pending then RequeueAfter (30 * second)
          else (case fst (run_state (rget (k_appDefinitions K) (ad_namespace appDef) (ad_name appDef)) (world s)) of
                  Inr fresh \<Rightarrow> if st_Phase (ad_status fresh) = ''Available'' then Done else RequeueAfter (30 * second)
                | Inl _ \<Rightarrow> RequeueAfter (30 * second)))
   \<and> new_writes s (snd (run_state (requeueAfter K appDef pending) s)) = []"
  by (auto simp: requeueAfter_def externalSecretsRetryInterval_def new_writes_def split: sum.split)

text \<open>
  C33. Events find their application. A Secret that carries the standard labels of an application,
  whatever other labels it has, inline or synced from outside, maps to that application in its own
  namespace and to no other; one that is not labelled as the operator's maps to none. A watched
  object with a controller maps to that controller if it is an AppDefinition of the operator's own
  group, in the object's namespace, and to nothing if the controller is of any other kind or group. A
  watched object without a controller is a shared one: the ServiceAccount named like its namespace
  maps to the applications of that namespace that declare a namespaced store, a SecretStore to
  those that declare a namespaced store of its name, and any other object to nothing.
\<close>

theorem events_find_application:
  "(n \<noteq> '''' \<longrightarrow> labels_match (standardLabels n) (m_labels m) \<longrightarrow> mapManagedSecretToAppDefinition m = [(m_namespace m, n)])
   \<and> (map_of (m_labels m) ''app.kubernetes.io/managed-by'' \<noteq> Some ''app-operator'' \<longrightarrow> mapManagedSecretToAppDefinition m = [])
   \<and> (k_getControllerOf K (watched_meta obj) = Some owner \<longrightarrow>
        run_state (mapSecretStoreDependencyToAppDefinitions K obj) s =
          (if or_kind owner = ''AppDefinition'' \<and> (\<exists>v. or_apiVersion owner = ''appdefinition.abexamir.me/'' @ v)
           then [(m_namespace (watched_meta obj), or_name owner)] else [], s))
   \<and> (k_getControllerOf K (watched_meta obj) = None \<longrightarrow>
        run_state (rlist (k_appDefinitions K) (m_namespace (watched_meta obj)) []) (world s) = (Inr apps, w) \<longrightarrow>
        set (fst (run_state (mapSecretStoreDependencyToAppDefinitions K obj) s))
          = {(ad_namespace a, ad_name a) | a store. a \<in> set apps \<and> spec_SecretStore (ad_spec a) = Some store
               \<and> secretStoreScope store = ''Namespace''
               \<and> (case obj of
                    WatchedServiceAccount sa \<Rightarrow> m_name sa = m_namespace sa
                  | WatchedUnstructured u \<Rightarrow> u_kind u = ''SecretStore'' \<and> ss_Name store = m_name (u_meta u))})"
proof (intro conjI impI)
  assume "n \<noteq> ''''" and "labels_match (standardLabels n) (m_labels m)"
  then show "mapManagedSecretToAppDefinition m = [(m_namespace m, n)]"
    by (simp add: mapManagedSecretToAppDefinition_def standardLabels_def labels_match_def map_get_def)
next
  assume "map_of (m_labels m) ''app.kubernetes.io/managed-by'' \<noteq> Some ''app-operator''"
  then show "mapManagedSecretToAppDefinition m = []"
    by (auto simp: mapManagedSecretToAppDefinition_def map_get_def split: option.split)
next
  assume "k_getControllerOf K (watched_meta obj) = Some owner"
  then show "run_state (mapSecretStoreDependencyToAppDefinitions K obj) s =
      (if or_kind owner = ''AppDefinition'' \<and> (\<exists>v. or_apiVersion owner = ''appdefinition.abexamir.me/'' @ v)
       then [(m_namespace (watched_meta obj), or_name owner)] else [], s)"
    by (simp add: mapSecretStoreDependencyToAppDefinitions_def apiGroup_def has_prefix_conv)
next
  assume none: "k_getControllerOf K (watched_meta obj) = None"
    and list: "run_state (rlist (k_appDefinitions K) (m_namespace (watched_meta obj)) []) (world s) = (Inr apps, w)"
  have "fst (run_state (mapSecretStoreDependencyToAppDefinitions K obj) s)
      = (if watched_kind obj \<noteq> ''SecretStore'' \<and> (\<not> is_service_account obj \<or> m_name (watched_meta obj) \<noteq> m_namespace (watched_meta obj))
         then [] else map (\<lambda>app. (ad_namespace app, ad_name app)) (filter (declares_store obj) apps))"
    using none list by (simp add: mapSecretStoreDependencyToAppDefinitions_def Let_def)
  then show "set (fst (run_state (mapSecretStoreDependencyToAppDefinitions K obj) s))
      = {(ad_namespace a, ad_name a) | a store. a \<in> set apps \<and> spec_SecretStore (ad_spec a) = Some store
           \<and> secretStoreScope store = ''Namespace''
           \<and> (case obj of
                WatchedServiceAccount sa \<Rightarrow> m_name sa = m_namespace sa
              | WatchedUnstructured u \<Rightarrow> u_kind u = ''SecretStore'' \<and> ss_Name store = m_name (u_meta u))}"
    by (cases obj)
      (auto simp: declares_store_def is_service_account_def watched_kind_def watched_meta_def split: option.splits)
qed

section \<open>Concrete instances\<close>

lemma keyed_mem_client: "keyed (mem_client objs put meta upd) meta"
  by (auto simp: keyed_def mem_client_def mem_get_def at_key_def find_Some_iff split: option.splits)

lemma mem_api_laws: "api_laws mem"
proof -
  have "keyed (k_services mem) svc_meta" by (simp add: mem_def keyed_mem_client)
  moreover have "keyed (k_unstructured mem serviceMonitorGVK) u_meta"
    by (simp add: mem_def mem_unstructured_def keyed_mem_client)
  ultimately show ?thesis by (simp add: api_laws_def mem_retry_law mem_rest_mapping_law)
qed

lemma mem_keyed_apps: "keyed (k_appDefinitions mem) ad_meta"
  by (simp add: mem_def keyed_mem_client)


definition example_paused :: AppDefinition where
  "example_paused = (zero_app ''web'' ''prod'')\<lparr>ad_spec := zero_spec\<lparr>spec_Paused := True\<rparr>\<rparr>"

lemma paused_does_nothing_witness:
  "run_state (reconcileAll mem example_paused) (mem_st empty_cluster) = (Inr False, mem_st empty_cluster)"
  using paused_does_nothing [OF _ mem_condition_laws mem_retry_law mem_keyed_apps, of example_paused "mem_st empty_cluster"]
  by (simp add: example_paused_def)

lemma events_find_application_witness:
  "mapManagedSecretToAppDefinition ((object_meta ''web-db'' ''prod'')\<lparr>m_labels := (''team'', ''a'') # standardLabels ''web''\<rparr>)
     = [(''prod'', ''web'')]
   \<and> set (fst (run_state (mapSecretStoreDependencyToAppDefinitions mem
        (WatchedServiceAccount (object_meta ''prod'' ''prod''))) (mem_st (empty_cluster\<lparr>cl_apps := [example_store_app]\<rparr>))))
       = {(''prod'', ''web'')}"
proof -
  let ?m = "object_meta ''prod'' ''prod''" and ?w = "empty_cluster\<lparr>cl_apps := [example_store_app]\<rparr>"
  have list: "run_state (rlist (k_appDefinitions mem) (m_namespace (watched_meta (WatchedServiceAccount ?m))) [])
      (world (mem_st ?w)) = (Inr [example_store_app], ?w)"
    by (simp add: mem_def mem_client_def mem_list_def watched_meta_def at_key_def labels_match_def example_store_app_def)
  have none: "k_getControllerOf mem (watched_meta (WatchedServiceAccount ?m)) = None"
    by (simp add: mem_def watched_meta_def object_meta_def)
  have labels: "labels_match (standardLabels ''web'')
      (m_labels ((object_meta ''web-db'' ''prod'')\<lparr>m_labels := (''team'', ''a'') # standardLabels ''web''\<rparr>))"
    by (simp add: labels_match_def standardLabels_def)
  have store: "spec_SecretStore (ad_spec example_store_app) = Some example_store" "secretStoreScope example_store = ''Namespace''"
    "ad_namespace example_store_app = ''prod''" "ad_name example_store_app = ''web''"
    by (simp_all add: example_store_app_def example_store_def secretStoreScope_def)
  show ?thesis
    using events_find_application [of "''web''" "(object_meta ''web-db'' ''prod'')\<lparr>m_labels := (''team'', ''a'') # standardLabels ''web''\<rparr>"
        mem "WatchedServiceAccount ?m" _ "mem_st ?w" "[example_store_app]" ?w] labels none list store
    by (simp add: object_meta_def)
qed

end
