(* ===== verification/ControlLoop.thy ===== *)
theory ControlLoop
  imports Controller
begin

text \<open>
  The controller over time: a run is any sequence of reconciles, of any applications in any order
  and with any outcome, between which anyone may change the cluster in any way. (Changes during a
  reconcile are those of the operations of \<open>k8s\<close>, about which nothing is assumed but the laws.)
\<close>

section \<open>Runs\<close>

text \<open>
  Each request is recorded: whom it was for, what its first read returned, and what it wrote.
\<close>

record request_log =
  rq_key :: "string \<times> string"
  rq_read :: "AppDefinition result"
  rq_writes :: "api_write list"

definition read_app :: "'w k8s \<Rightarrow> string \<Rightarrow> string \<Rightarrow> 'w st \<Rightarrow> AppDefinition result" where
  "read_app K ns name t = fst (run_state (rget (k_appDefinitions K) ns name) (world t))"

inductive loop_run :: "'w k8s \<Rightarrow> 'w st \<Rightarrow> request_log list \<Rightarrow> 'w st \<Rightarrow> bool" for K :: "'w k8s" and s :: "'w st" where
  Begin: "loop_run K s [] s"
| Environment: "loop_run K s log t \<Longrightarrow> loop_run K s log (t\<lparr>world := w\<rparr>)"
| Request: "loop_run K s log t \<Longrightarrow> run_state (Reconcile K ns name) t = (r, u) \<Longrightarrow>
    loop_run K s (log @ [\<lparr>rq_key = (ns, name), rq_read = read_app K ns name t, rq_writes = new_writes t u\<rparr>]) u"

text \<open>
  What one reconcile may write, by the application it has read: the finalizer is added to one that
  lacks it, and removed from one that is being deleted; the children are written for one that is
  neither paused nor being deleted, each write one of a step; the status of one that is not being deleted.
\<close>

definition in_charge :: "AppDefinition \<Rightarrow> bool" where
  "in_charge a \<longleftrightarrow> finalizer \<in> set (m_finalizers (ad_meta a)) \<and> m_deletionTimestamp (ad_meta a) = None"

definition justified :: "'w k8s \<Rightarrow> AppDefinition \<Rightarrow> api_write \<Rightarrow> bool" where
  "justified K a e \<longleftrightarrow>
     (finalizer \<notin> set (m_finalizers (ad_meta a)) \<and> e = WUpdate AppDefinitionK (ad_meta (addFinalizer a)))
     \<or> (finalizer \<in> set (m_finalizers (ad_meta a)) \<and> m_deletionTimestamp (ad_meta a) \<noteq> None
        \<and> e = WUpdate AppDefinitionK (ad_meta (removeFinalizer a)))
     \<or> (in_charge a \<and> \<not> spec_Paused (ad_spec a) \<and> (\<exists>P \<in> set (step_writes K a). P e))
     \<or> (in_charge a \<and> (\<exists>err. status_write a err e))"

text \<open>One request: without an application nothing is written, else what the one read justifies.\<close>

definition request_ok :: "'w k8s \<Rightarrow> request_log \<Rightarrow> bool" where
  "request_ok K q =
     (case rq_read q of
        Inl _ \<Rightarrow> rq_writes q = []
      | Inr a \<Rightarrow> (ad_namespace a, ad_name a) = rq_key q \<and> list_all (justified K a) (rq_writes q))"

lemma only_writes_reconcileAll:
  assumes "api_laws K"
  shows "only_writes (\<lambda>e. \<not> spec_Paused (ad_spec a) \<and> (\<exists>P \<in> set (step_writes K a). P e)) (reconcileAll K a)"
proof (cases "spec_Paused (ad_spec a)")
  case True
  then show ?thesis by (simp add: reconcileAll_def only_writes_lift hoare)
next
  case False
  show ?thesis
    using ordered_reconcileAll [OF assms, of a] False
    unfolding ordered_writes_def state_io_rel_def writes_only_def list_all_iff by (meson in_order_mem)
qed

lemma only_writes_requeueAfter: "only_writes P (requeueAfter K a pending)"
  unfolding requeueAfter_def by (auto intro!: hoare split: sum.split)

lemma only_writes_reconcileLive:
  assumes "api_laws K" and "condition_laws K" and "keyed (k_appDefinitions K) ad_meta" and "in_charge a"
  shows "only_writes (justified K a) (reconcileLive K a)"
proof -
  have "retry_law K" using assms(1) by (simp add: api_laws_def)
  have all: "only_writes (justified K a) (reconcileAll K a)"
    by (rule only_writes_mono [OF only_writes_reconcileAll [OF assms(1)]]) (simp add: justified_def assms(4))
  have status: "only_writes (justified K a) (updateStatus K a err)" for err
    by (rule only_writes_mono [OF only_writes_updateStatus [OF assms(2) \<open>retry_law K\<close> assms(3), of a err]])
      (use assms(4) in \<open>auto simp: justified_def\<close>)
  show ?thesis
    unfolding reconcileLive_def by (auto intro!: hoare all status only_writes_requeueAfter split: sum.split)
qed

lemma writes_only_world [simp]:
  "writes_only P s (t\<lparr>world := w\<rparr>) = writes_only P s t" "writes_only P (s\<lparr>world := w\<rparr>) t = writes_only P s t"
  by (simp_all add: writes_only_def)

text \<open>The writes of a request are those that the application it has read justifies.\<close>

lemma Reconcile_writes:
  assumes "api_laws K" and "condition_laws K" and "keyed (k_appDefinitions K) ad_meta"
    and "run_state (Reconcile K ns name) s = (out, s')"
  shows "case read_app K ns name s of
      Inl _ \<Rightarrow> writes s' = writes s
    | Inr a \<Rightarrow> ad_namespace a = ns \<and> ad_name a = name \<and> writes_only (justified K a) s s'"
proof -
  obtain r w where read: "run_state (rget (k_appDefinitions K) ns name) (world s) = (r, w)" by fastforce
  show ?thesis
  proof (cases r)
    case (Inl e)
    then show ?thesis using read assms(4)
      by (auto simp: Reconcile_def read_app_def forgetAppMetrics_def split: if_splits)
  next
    case (Inr a)
    let ?m = "if finalizer \<notin> set (m_finalizers (ad_meta a)) then
        tryM (do_update (k_appDefinitions K) AppDefinitionK ad_meta (addFinalizer a))
          (Wrap ''failed to add finalizer'') (\<lambda>_. ret Requeue)
      else if m_deletionTimestamp (ad_meta a) \<noteq> None then handleDeletion K a else reconcileLive K a"
    have "only_writes (justified K a) ?m"
      using only_writes_reconcileLive [OF assms(1-3), of a]
      by (auto simp: handleDeletion_def justified_def in_charge_def intro!: hoare)
    moreover have "run_state ?m (s\<lparr>world := w\<rparr>) = (out, s')"
      using read Inr assms(4) by (simp add: Reconcile_def)
    ultimately have "writes_only (justified K a) s s'" by (auto dest: only_writesD)
    moreover have "ad_namespace a = ns \<and> ad_name a = name"
      using assms(3) read Inr by (auto simp: keyed_def)
    ultimately show ?thesis using read Inr by (simp add: read_app_def)
  qed
qed

section \<open>Properties\<close>

lemma loop_run_ok:
  assumes "api_laws K" and "condition_laws K" and "keyed (k_appDefinitions K) ad_meta" and "loop_run K s log t"
  shows "list_all (request_ok K) log \<and> writes t = writes s @ concat (map rq_writes log)"
  using assms(4)
proof (induction rule: loop_run.induct)
  case (Request log t ns name r u)
  have "writes_only (\<lambda>_. True) t u"
    using Reconcile_writes [OF assms(1-3) Request.hyps(2)]
    by (auto simp: writes_only_def list_all_iff split: sum.splits)
  then have "writes u = writes t @ new_writes t u" by (auto simp: writes_only_def new_writes_def)
  moreover have "request_ok K \<lparr>rq_key = (ns, name), rq_read = read_app K ns name t, rq_writes = new_writes t u\<rparr>"
    using Reconcile_writes [OF assms(1-3) Request.hyps(2)]
    by (auto simp: request_ok_def writes_only_def new_writes_def split: sum.splits)
  ultimately show ?case using Request.IH by simp
qed simp_all


text \<open>
  C1. What a whole \<open>Reconcile\<close> may delete, by the application it reads: ConfigMaps, Secrets,
  ExternalSecrets, Middlewares and Ingresses that this application controls and its spec no longer
  names, and the Service, the autoscaler and the ServiceMonitor of the application's own name. It never
  deletes a Deployment, a disk, a SecretStore, a ServiceAccount or an AppDefinition; and it deletes
  nothing at all if there is no application, or if the application is paused, is being deleted or
  lacks the finalizer.
\<close>

theorem reconcile_deletes_safely:
  assumes "api_laws K" and "condition_laws K" and "keyed (k_appDefinitions K) ad_meta"
  shows "case fst (run_state (rget (k_appDefinitions K) ns name) (world s)) of
      Inl _ \<Rightarrow> new_writes s (snd (run_state (Reconcile K ns name) s)) = []
    | Inr a \<Rightarrow>
        list_all (safe_delete K a) (new_writes s (snd (run_state (Reconcile K ns name) s)))
        \<and> (if spec_Paused (ad_spec a) \<or> m_deletionTimestamp (ad_meta a) \<noteq> None
              \<or> ''appdefinition.abexamir.me/finalizer'' \<notin> set (m_finalizers (ad_meta a))
           then \<forall>k m. WDelete k m \<notin> set (new_writes s (snd (run_state (Reconcile K ns name) s))) else True)"
proof -
  obtain out s' where run: "run_state (Reconcile K ns name) s = (out, s')" by fastforce
  have safe: "safe_delete K a e" if "justified K a e" for a e
    using that by (auto simp: justified_def safe_delete_def status_write_def split: api_write.splits
        dest: step_deletes_safely)
  have none: "\<not> justified K a (WDelete k m)"
    if "spec_Paused (ad_spec a) \<or> m_deletionTimestamp (ad_meta a) \<noteq> None
        \<or> ''appdefinition.abexamir.me/finalizer'' \<notin> set (m_finalizers (ad_meta a))" for a k m
    using that by (auto simp: justified_def in_charge_def finalizer_def status_write_def)
  note did = Reconcile_writes [OF assms run, unfolded read_app_def]
  show ?thesis
  proof (cases "fst (run_state (rget (k_appDefinitions K) ns name) (world s))")
    case (Inl e)
    then show ?thesis using did run by (simp add: new_writes_def)
  next
    case (Inr a)
    then have "\<forall>e \<in> set (new_writes s s'). justified K a e"
      using did by (auto simp: writes_only_def new_writes_def list_all_iff)
    then show ?thesis using safe none run Inr by (simp add: list_all_iff) metis
  qed
qed

section \<open>Concrete instances\<close>

text \<open>An application new to the controller, and one with a ConfigMap it no longer names.\<close>

definition example_app_cluster :: cluster where
  "example_app_cluster = empty_cluster\<lparr>cl_apps := [zero_app ''web'' ''prod'']\<rparr>"


text \<open>What the first step writes, the whole reconcile has written.\<close>

lemma staged_appends: "staged steps s out s' \<Longrightarrow> writes_only (\<lambda>_. True) s s'"
proof (induction steps arbitrary: s)
  case (Cons x steps)
  obtain name P m where x: "x = (name, P, m)" by (cases x)
  obtain r t where run: "run_state (observeReconcileStep name m) s = (r, t)" by fastforce
  have "writes_only P s t" and "s' = t \<or> writes_only (\<lambda>_. True) t s'"
    using Cons x run by (cases r; auto)+
  then show ?case by (auto simp: writes_only_def list_all_iff)
qed (simp add: wo.R_refl)

lemma first_step_writes:
  assumes "api_laws K" and "condition_laws K" and "keyed (k_appDefinitions K) ad_meta"
    and "run_state (rget (k_appDefinitions K) ns name) (world s) = (Inr a, w)"
    and "in_charge a" and "\<not> spec_Paused (ad_spec a)"
    and "run_state (reconcileConfigMaps K a) (s\<lparr>world := w\<rparr>) = (r, t)"
  shows "\<exists>tr. writes (snd (run_state (Reconcile K ns name) s)) = writes t @ tr"
proof -
  obtain r2 t2 where all: "run_state (reconcileAll K a) (s\<lparr>world := w\<rparr>) = (r2, t2)" by fastforce
  obtain r1 t1 where first: "run_state (observeReconcileStep ''configmaps'' (outcome (reconcileConfigMaps K a))) (s\<lparr>world := w\<rparr>) = (r1, t1)"
    by fastforce
  have "writes t1 = writes t"
    using first assms(7) by (cases r) (auto simp: observeReconcileStep_def outcome_def split: if_splits)
  moreover have "t2 = t1 \<or> writes_only (\<lambda>_. True) t1 t2"
  proof -
    obtain P rest where "reconcile_steps K a = (''configmaps'', P, outcome (reconcileConfigMaps K a)) # rest"
      by (simp add: reconcile_steps_def)
    then show ?thesis
      using staged_reconcileAll [OF assms(1,6), of "s\<lparr>world := w\<rparr>"] all first
      by (cases r1) (auto dest: staged_appends)
  qed
  moreover have "writes_only (\<lambda>_. True) t2 (snd (run_state (reconcileLive K a) (s\<lparr>world := w\<rparr>)))"
  proof -
    have "only_writes (\<lambda>_. True) (updateStatus K a err)" for err
      by (rule only_writes_mono [OF only_writes_updateStatus [OF assms(2) _ assms(3)]])
        (use assms(1) in \<open>simp_all add: api_laws_def\<close>)
    then have "writes_only (\<lambda>_. True) t2 (snd (run_state (updateStatus K a (error_of r2)) t2))"
      by (simp add: state_io_rel_def)
    then show ?thesis
      using reconcileLive_outcome [of K a "s\<lparr>world := w\<rparr>"] all
      by (auto simp: writes_only_def split: if_splits prod.splits sum.splits)
  qed
  moreover have "run_state (Reconcile K ns name) s = run_state (reconcileLive K a) (s\<lparr>world := w\<rparr>)"
    using assms(4,5) by (simp add: Reconcile_def in_charge_def)
  ultimately show ?thesis by (auto simp: writes_only_def)
qed

definition example_owner :: AppDefinition where
  "example_owner = (zero_app ''web'' ''prod'')\<lparr>ad_meta := (object_meta ''web'' ''prod'')
     \<lparr>m_uid := ''u1'', m_finalizers := [finalizer]\<rparr>\<rparr>"

definition example_stale :: ConfigMap where
  "example_stale = \<lparr>cm_meta = (object_meta ''web-old'' ''prod'')
     \<lparr>m_labels := standardLabels ''web'', m_ownerRefs := [mem_owner_ref (ad_meta example_owner)]\<rparr>, cm_data = [], cm_rest = JObj []\<rparr>"

lemma reconcile_deletes_safely_witness:
  "WDelete ConfigMapK (cm_meta example_stale)
     \<in> set (new_writes (mem_st (empty_cluster\<lparr>cl_apps := [example_owner], cl_configMaps := [example_stale]\<rparr>))
         (snd (run_state (Reconcile mem ''prod'' ''web'')
           (mem_st (empty_cluster\<lparr>cl_apps := [example_owner], cl_configMaps := [example_stale]\<rparr>)))))
   \<and> safe_delete mem example_owner (WDelete ConfigMapK (cm_meta example_stale))"
proof -
  let ?s = "mem_st (empty_cluster\<lparr>cl_apps := [example_owner], cl_configMaps := [example_stale]\<rparr>)"
  have read: "fst (run_state (rget (k_appDefinitions mem) ''prod'' ''web'') (world ?s)) = Inr example_owner" by code_simp
  have step: "run_state (rget (k_appDefinitions mem) ''prod'' ''web'') (world ?s) = (Inr example_owner, world ?s)"
    using read by (simp add: mem_def mem_client_def mem_get_def split: option.splits)
  have charge: "in_charge example_owner" "\<not> spec_Paused (ad_spec example_owner)" by code_simp+
  obtain r t where run: "run_state (reconcileConfigMaps mem example_owner) ?s = (r, t)" by fastforce
  have same: "?s\<lparr>world := world ?s\<rparr> = ?s" by simp
  have "writes (snd (run_state (reconcileConfigMaps mem example_owner) ?s)) = [WDelete ConfigMapK (cm_meta example_stale)]"
    by code_simp
  then have "writes t = [WDelete ConfigMapK (cm_meta example_stale)]" using run by simp
  moreover obtain tr where "writes (snd (run_state (Reconcile mem ''prod'' ''web'') ?s)) = writes t @ tr"
    using first_step_writes [OF mem_api_laws mem_condition_laws mem_keyed_apps step charge, unfolded same, OF run] by blast
  ultimately have here: "WDelete ConfigMapK (cm_meta example_stale) \<in> set (new_writes ?s (snd (run_state (Reconcile mem ''prod'' ''web'') ?s)))"
    by (simp add: new_writes_def)
  have "list_all (safe_delete mem example_owner) (new_writes ?s (snd (run_state (Reconcile mem ''prod'' ''web'') ?s)))"
    using reconcile_deletes_safely [OF mem_api_laws mem_condition_laws mem_keyed_apps, where ns = "''prod''" and name = "''web''" and s = ?s] unfolding read by simp
  then show ?thesis using here unfolding list_all_iff by blast
qed

end
