(* ===== verification/Converge.thy ===== *)
theory Converge
  imports Ingresses
begin

text \<open>
  What reconciling a list of children achieves, not only what it requests: the objects of the
  cluster, as a map from namespace and name, before and after. The promises of the API server are
  the law \<open>stores\<close>; the loop over the children and the pruning refine an update of that map, and a
  second reconcile leaves it as it is. The locale \<open>converging_kind\<close> proves it once for ConfigMaps,
  Secrets and Ingresses.
\<close>

section \<open>The cluster as a map\<close>

type_synonym 'o store = "string \<times> string \<Rightarrow> 'o option"

definition key_of :: "ObjectMeta \<Rightarrow> string \<times> string" where
  "key_of m = (m_namespace m, m_name m)"

text \<open>
  The API server and its cache for one kind, documented, while no one else writes to that kind and
  the cache is up to date. An object is stored under its own namespace and name.
\<close>

definition store_keys :: "('o \<Rightarrow> ObjectMeta) \<Rightarrow> ('w \<Rightarrow> 'o store) \<Rightarrow> bool" where
  "store_keys meta objs \<longleftrightarrow> (\<forall>w k obj. objs w k = Some obj \<longrightarrow> key_of (meta obj) = k)"

text \<open>A list changes nothing and is the set of the objects that match.\<close>

definition store_lists :: "('w, 'o) rclient \<Rightarrow> ('o \<Rightarrow> ObjectMeta) \<Rightarrow> ('w \<Rightarrow> 'o store) \<Rightarrow> bool" where
  "store_lists rc meta objs \<longleftrightarrow>
     (\<forall>w ns sel. snd (run_state (rlist rc ns sel) w) = w)
     \<and> (\<forall>w ns sel os w'. run_state (rlist rc ns sel) w = (Inr os, w') \<longrightarrow> w' = w \<and>
          set os = {obj. \<exists>n. objs w (ns, n) = Some obj \<and> labels_match sel (m_labels (meta obj))})"

text \<open>
  \<open>CreateOrUpdate\<close> gives the function the stored object, or the one handed in if there is none, and
  stores the result, in which the server may fill in fields outside \<open>view\<close>. When the function
  changes nothing, nothing is written.
\<close>

definition store_upserts :: "('w, 'o) rclient \<Rightarrow> ('o \<Rightarrow> ObjectMeta) \<Rightarrow> ('o \<Rightarrow> 'v) \<Rightarrow> ('w \<Rightarrow> 'o store) \<Rightarrow> bool" where
  "store_upserts rc meta view objs \<longleftrightarrow>
     (\<forall>w obj f op w'. run_state (rcreate_or_update rc obj f) w = (Inr op, w') \<longrightarrow>
        (\<exists>new stored. f (case objs w (key_of (meta obj)) of None \<Rightarrow> obj | Some x \<Rightarrow> x) = Inr new
           \<and> view stored = view new \<and> objs w' = (objs w)(key_of (meta obj) \<mapsto> stored)))
     \<and> (\<forall>w obj f x. objs w (key_of (meta obj)) = Some x \<longrightarrow> f x = Inr x \<longrightarrow>
          snd (run_state (rcreate_or_update rc obj f) w) = w)"

text \<open>A deletion that succeeds, or finds nothing, leaves no object.\<close>

definition store_deletes :: "('w, 'o) rclient \<Rightarrow> ('o \<Rightarrow> ObjectMeta) \<Rightarrow> ('w \<Rightarrow> 'o store) \<Rightarrow> bool" where
  "store_deletes rc meta objs \<longleftrightarrow>
     (\<forall>w obj r w'. run_state (rdelete rc obj) w = (r, w') \<longrightarrow> ignore_not_found r = Inr () \<longrightarrow>
        objs w' = (objs w)(key_of (meta obj) := None))"

definition stores :: "('w, 'o) rclient \<Rightarrow> ('o \<Rightarrow> ObjectMeta) \<Rightarrow> ('o \<Rightarrow> 'v) \<Rightarrow> ('w \<Rightarrow> 'o store) \<Rightarrow> bool" where
  "stores rc meta view objs \<longleftrightarrow>
     store_keys meta objs \<and> store_lists rc meta objs \<and> store_upserts rc meta view objs \<and> store_deletes rc meta objs"

lemma stores_key: "stores rc meta view objs \<Longrightarrow> objs w k = Some obj \<Longrightarrow> key_of (meta obj) = k"
  by (cases k) (simp add: stores_def store_keys_def)

lemma stores_list:
  "stores rc meta view objs \<Longrightarrow> snd (run_state (rlist rc ns sel) w) = w"
  "stores rc meta view objs \<Longrightarrow> run_state (rlist rc ns sel) w = (Inr os, w') \<Longrightarrow> w' = w
   \<and> set os = {obj. \<exists>n. objs w (ns, n) = Some obj \<and> labels_match sel (m_labels (meta obj))}"
  by (simp_all add: stores_def store_lists_def)

lemma stores_create_or_update:
  "stores rc meta view objs \<Longrightarrow> run_state (rcreate_or_update rc obj f) w = (Inr op, w') \<Longrightarrow>
   \<exists>new stored. f (case objs w (key_of (meta obj)) of None \<Rightarrow> obj | Some x \<Rightarrow> x) = Inr new
     \<and> view stored = view new \<and> objs w' = (objs w)(key_of (meta obj) \<mapsto> stored)"
  by (simp add: stores_def store_upserts_def)

lemma stores_unchanged:
  "stores rc meta view objs \<Longrightarrow> objs w (key_of (meta obj)) = Some x \<Longrightarrow> f x = Inr x \<Longrightarrow>
   snd (run_state (rcreate_or_update rc obj f) w) = w"
  by (simp add: stores_def store_upserts_def)

lemma stores_delete:
  "stores rc meta view objs \<Longrightarrow> run_state (rdelete rc obj) w = (r, w') \<Longrightarrow> ignore_not_found r = Inr () \<Longrightarrow>
   objs w' = (objs w)(key_of (meta obj) := None)"
  by (simp add: stores_def store_deletes_def)

text \<open>
  \<open>IsControlledBy\<close>, documented:
  it looks at the owner references only, and what
  \<open>SetControllerReference\<close> has set for an owner is controlled by it.
\<close>

definition ownership_law :: "'w k8s \<Rightarrow> bool" where
  "ownership_law K \<longleftrightarrow>
     (\<forall>owner m m'. m_ownerRefs m = m_ownerRefs m' \<longrightarrow> k_isControlledBy K m owner = k_isControlledBy K m' owner)
     \<and> (\<forall>owner m m' refs. k_setControllerReference K owner m = Inr refs \<and> m_ownerRefs m' = refs \<longrightarrow>
          k_isControlledBy K m' owner)"

section \<open>The abstract specification\<close>

text \<open>An object that pruning takes for the application's own.\<close>

definition managed :: "'w k8s \<Rightarrow> AppDefinition \<Rightarrow> ObjectMeta \<Rightarrow> bool" where
  "managed K appDef m \<longleftrightarrow>
     m_namespace m = ad_namespace appDef \<and> labels_match (standardLabels (ad_name appDef)) (m_labels m)
     \<and> k_isControlledBy K m (ad_meta appDef)"

text \<open>
  From one state of a kind to the next: under every declared name there is an object that is as
  declared; elsewhere what the application manages is gone and everything else is as it was.
\<close>

definition brought_to ::
  "'w k8s \<Rightarrow> AppDefinition \<Rightarrow> ('o \<Rightarrow> ObjectMeta) \<Rightarrow> (string \<times> 'i) list \<Rightarrow> ('i \<Rightarrow> 'o \<Rightarrow> bool) \<Rightarrow> 'o store \<Rightarrow> 'o store \<Rightarrow> bool" where
  "brought_to K appDef meta declared as_declared before after \<longleftrightarrow>
     (\<forall>(n, i) \<in> set declared. \<exists>obj. after (ad_namespace appDef, n) = Some obj \<and> as_declared i obj)
     \<and> (\<forall>ns n. \<not> (ns = ad_namespace appDef \<and> n \<in> fst ` set declared) \<longrightarrow>
          after (ns, n) = (case before (ns, n) of
             None \<Rightarrow> None
           | Some obj \<Rightarrow> if managed K appDef (meta obj) then None else Some obj))"

section \<open>Pruning, on the map\<close>

lemma run_prune_object:
  assumes "run_state (prune_object K appDef rc k label meta desired obj) s = (Inr (), s')"
    and "stores rc meta view objs"
  shows "objs (world s') =
    (if stale K appDef desired (meta obj) then (objs (world s))(key_of (meta obj) := None) else objs (world s))"
proof (cases "stale K appDef desired (meta obj)")
  case False
  then show ?thesis using assms(1) by (auto simp: prune_object_def stale_def split: if_splits)
next
  case True
  obtain r w' where d: "run_state (rdelete rc obj) (world s) = (r, w')" by fastforce
  have "ignore_not_found r = Inr ()" and w: "world s' = w'"
    using assms(1) True d
    by (auto simp: prune_object_def stale_def do_delete_def recordManagedResourcePrune_def split: sum.splits)
  then show ?thesis using stores_delete [OF assms(2) d] True by simp
qed

lemma run_prune_objects:
  assumes "run_state (prune_objects K appDef rc k label meta desired os) s = (Inr (), s')"
    and "stores rc meta view objs"
  shows "objs (world s') key =
    (if \<exists>obj \<in> set os. stale K appDef desired (meta obj) \<and> key_of (meta obj) = key then None else objs (world s) key)"
  using assms(1) unfolding prune_objects_def
proof (induction os arbitrary: s)
  case (Cons obj os)
  obtain r s1 where one: "run_state (prune_object K appDef rc k label meta desired obj) s = (r, s1)" by fastforce
  then have r: "r = Inr ()" using Cons.prems by (cases r) (auto simp: run_tryM)
  then have "objs (world s') key =
      (if \<exists>obj \<in> set os. stale K appDef desired (meta obj) \<and> key_of (meta obj) = key then None else objs (world s1) key)"
    using Cons one by simp
  then show ?case using run_prune_object [OF one [unfolded r] assms(2)] by auto
qed simp

lemma prune_none:
  assumes "\<And>obj. obj \<in> set os \<Longrightarrow> \<not> stale K appDef desired (meta obj)"
  shows "run_state (prune_objects K appDef rc k label meta desired os) s = (Inr (), s)"
  using assms unfolding prune_objects_def
  by (induction os) (auto simp: prune_object_def stale_def)


section \<open>Convergence of a list of children\<close>

locale converging_kind = typed_child_kind isk items child_name ensure usable
  for isk :: "kind \<Rightarrow> bool"
    and items :: "AppDefinition \<Rightarrow> 'i list"
    and child_name :: "AppDefinition \<Rightarrow> 'i \<Rightarrow> string"
    and ensure :: "'x \<Rightarrow> 'w k8s \<Rightarrow> AppDefinition \<Rightarrow> 'i \<Rightarrow> ('w, unit result) prog"
    and usable :: "'x \<Rightarrow> 'w k8s \<Rightarrow> bool" +
  fixes client :: "'w k8s \<Rightarrow> ('w, 'o) rclient"
    and meta :: "'o \<Rightarrow> ObjectMeta"
    and view :: "'o \<Rightarrow> 'v"
    and edit :: "'w k8s \<Rightarrow> AppDefinition \<Rightarrow> 'i \<Rightarrow> 'o \<Rightarrow> 'o result"
    and lawful :: "'w k8s \<Rightarrow> ('w \<Rightarrow> 'o store) \<Rightarrow> bool"
  assumes lawful_stores: "lawful K objs \<Longrightarrow> stores (client K) meta view objs"
    and ensured: "lawful K objs \<Longrightarrow> i \<in> set (items appDef) \<Longrightarrow> run_state (ensure x K appDef i) s = (Inr (), s') \<Longrightarrow>
      \<exists>obj. objs (world s') = (objs (world s))((ad_namespace appDef, child_name appDef i) \<mapsto> obj)
        \<and> edit K appDef i obj = Inr obj"
    and untouched: "lawful K objs \<Longrightarrow> i \<in> set (items appDef) \<Longrightarrow> objs (world s) (ad_namespace appDef, child_name appDef i) = Some obj \<Longrightarrow>
      edit K appDef i obj = Inr obj \<Longrightarrow> world (snd (run_state (ensure x K appDef i) s)) = world s"
begin

definition reconcile :: "'x \<Rightarrow> 'w k8s \<Rightarrow> AppDefinition \<Rightarrow> (error \<Rightarrow> error) \<Rightarrow> kind \<Rightarrow> string \<Rightarrow> ('w, unit result) prog" where
  "reconcile x K appDef wrap k label =
     tryM (each (ensure x K appDef) (items appDef)) id
       (\<lambda>_. tryM (lift (rlist (client K) (ad_namespace appDef) (standardLabels (ad_name appDef)))) wrap
          (prune_objects K appDef (client K) k label meta (names appDef)))"

text \<open>The first loop.\<close>

lemma ensured_all:
  assumes "lawful K objs" and "distinct (map (child_name appDef) xs)" and "set xs \<subseteq> set (items appDef)"
    and "run_state (each (ensure x K appDef) xs) s = (Inr (), s')"
  shows "(\<forall>i \<in> set xs. \<exists>obj. objs (world s') (ad_namespace appDef, child_name appDef i) = Some obj \<and> edit K appDef i obj = Inr obj)
    \<and> (\<forall>ns n. \<not> (ns = ad_namespace appDef \<and> n \<in> child_name appDef ` set xs) \<longrightarrow> objs (world s') (ns, n) = objs (world s) (ns, n))"
  using assms(2-4)
proof (induction xs arbitrary: s)
  case (Cons i xs)
  obtain r s1 where one: "run_state (ensure x K appDef i) s = (r, s1)" by fastforce
  then have r: "r = Inr ()" using Cons.prems by (cases r) (auto simp: run_tryM)
  then have rest: "run_state (each (ensure x K appDef) xs) s1 = (Inr (), s')" using Cons.prems one by simp
  obtain obj where obj: "objs (world s1) = (objs (world s))((ad_namespace appDef, child_name appDef i) \<mapsto> obj)"
    "edit K appDef i obj = Inr obj" using ensured [OF assms(1) _ one [unfolded r]] Cons.prems(2) by auto
  from Cons.prems have ni: "child_name appDef i \<notin> child_name appDef ` set xs" by auto
  from Cons.IH [OF _ _ rest] Cons.prems have ih:
    "\<forall>i \<in> set xs. \<exists>obj. objs (world s') (ad_namespace appDef, child_name appDef i) = Some obj \<and> edit K appDef i obj = Inr obj"
    "\<forall>ns n. \<not> (ns = ad_namespace appDef \<and> n \<in> child_name appDef ` set xs) \<longrightarrow> objs (world s') (ns, n) = objs (world s1) (ns, n)"
    by auto
  show ?case using ih obj ni by (auto split: if_splits)
qed simp

lemma stages:
  assumes "run_state (tryM (each f xs) id (\<lambda>_. tryM (lift m) wrap k)) s = (Inr (), s')"
  obtains s1 os w where "run_state (each f xs) s = (Inr (), s1)" and "run_state m (world s1) = (Inr os, w)"
    and "run_state (k os) (s1\<lparr>world := w\<rparr>) = (Inr (), s')"
proof -
  obtain s1 where 1: "run_state (each f xs) s = (Inr (), s1)"
    and rest: "run_state (tryM (lift m) wrap k) s1 = (Inr (), s')" by (rule run_tryM_Inr [OF assms]) auto
  from rest obtain os s2 where 2: "run_state (lift m) s1 = (Inr os, s2)" "run_state (k os) s2 = (Inr (), s')"
    by (rule run_tryM_Inr)
  obtain q w where m: "run_state m (world s1) = (q, w)" by fastforce
  with 2(1) have "q = Inr os" "s2 = s1\<lparr>world := w\<rparr>" by auto
  then show thesis using that [OF 1] m 2(2) by simp
qed

lemma converges:
  assumes "lawful K objs" and "distinct (names appDef)"
    and "run_state (reconcile x K appDef wrap k label) s = (Inr (), s')"
  shows "brought_to K appDef meta (map (\<lambda>i. (child_name appDef i, i)) (items appDef)) (\<lambda>i obj. edit K appDef i obj = Inr obj)
    (objs (world s)) (objs (world s'))"
proof -
  note law = lawful_stores [OF assms(1)]
  let ?sel = "standardLabels (ad_name appDef)" and ?ns = "ad_namespace appDef"
  obtain s1 os w where loop: "run_state (each (ensure x K appDef) (items appDef)) s = (Inr (), s1)"
    and ls: "run_state (rlist (client K) ?ns ?sel) (world s1) = (Inr os, w)"
    and prune: "run_state (prune_objects K appDef (client K) k label meta (names appDef) os) (s1\<lparr>world := w\<rparr>) = (Inr (), s')"
    by (rule stages [OF assms(3) [unfolded reconcile_def]])
  have w: "s1\<lparr>world := w\<rparr> = s1" and os: "set os = {obj. \<exists>n. objs (world s1) (?ns, n) = Some obj \<and> labels_match ?sel (m_labels (meta obj))}"
    using stores_list(2) [OF law ls] by simp_all
  note all = ensured_all [OF assms(1) assms(2) [unfolded names_def] subset_refl loop]
  have gone: "(\<exists>obj \<in> set os. stale K appDef (names appDef) (meta obj) \<and> key_of (meta obj) = (ns, n)) \<longleftrightarrow>
      (\<exists>obj. objs (world s1) (ns, n) = Some obj \<and> managed K appDef (meta obj)) \<and> n \<notin> set (names appDef)" for ns n
    using stores_key [OF law] by (fastforce simp: os stale_def managed_def key_of_def)
  have after: "objs (world s') (ns, n) =
      (if (\<exists>obj. objs (world s1) (ns, n) = Some obj \<and> managed K appDef (meta obj)) \<and> n \<notin> set (names appDef)
       then None else objs (world s1) (ns, n))" for ns n
    by (simp only: run_prune_objects [OF prune [unfolded w] law] gone)
  have own_ns: "ns = ?ns" if "objs w' (ns, n) = Some obj" "managed K appDef (meta obj)" for w' ns n obj
    using that stores_key [OF law that(1)] by (simp add: managed_def key_of_def)
  show ?thesis
    unfolding brought_to_def
  proof (intro conjI ballI allI impI)
    fix e assume "e \<in> set (map (\<lambda>i. (child_name appDef i, i)) (items appDef))"
    then obtain i where i: "i \<in> set (items appDef)" "e = (child_name appDef i, i)" by auto
    with all obtain obj where "objs (world s1) (?ns, child_name appDef i) = Some obj" "edit K appDef i obj = Inr obj" by blast
    then show "case e of (n, i) \<Rightarrow> \<exists>obj. objs (world s') (?ns, n) = Some obj \<and> edit K appDef i obj = Inr obj"
      using i by (auto simp: after names_def)
  next
    fix ns n assume ni: "\<not> (ns = ?ns \<and> n \<in> fst ` set (map (\<lambda>i. (child_name appDef i, i)) (items appDef)))"
    then have "objs (world s1) (ns, n) = objs (world s) (ns, n)" using all by (auto simp: image_image)
    then show "objs (world s') (ns, n) =
        (case objs (world s) (ns, n) of None \<Rightarrow> None | Some obj \<Rightarrow> if managed K appDef (meta obj) then None else Some obj)"
      using ni own_ns [of "world s" ns n] by (auto simp: after names_def image_image split: option.split)
  qed
qed

text \<open>The second time there is nothing left to do.\<close>

lemma untouched_all:
  assumes "lawful K objs" and "set xs \<subseteq> set (items appDef)"
    and "\<forall>i \<in> set xs. \<exists>obj. objs (world s) (ad_namespace appDef, child_name appDef i) = Some obj
      \<and> edit K appDef i obj = Inr obj"
  shows "world (snd (run_state (each (ensure x K appDef) xs) s)) = world s"
  using assms(2,3)
proof (induction xs arbitrary: s)
  case (Cons i xs)
  then obtain obj where obj: "objs (world s) (ad_namespace appDef, child_name appDef i) = Some obj"
    "edit K appDef i obj = Inr obj" by auto
  obtain r s1 where one: "run_state (ensure x K appDef i) s = (r, s1)" by fastforce
  then have w: "world s1 = world s" using untouched [OF assms(1) _ obj, where x = x] Cons.prems(1) by simp
  then have "world (snd (run_state (each (ensure x K appDef) xs) s1)) = world s1" using Cons by simp
  then show ?case using one w by (simp add: run_tryM split: sum.split)
qed simp

lemma settled:
  assumes "lawful K objs"
    and "brought_to K appDef meta (map (\<lambda>i. (child_name appDef i, i)) (items appDef)) (\<lambda>i obj. edit K appDef i obj = Inr obj)
      before (objs (world s))"
  shows "world (snd (run_state (reconcile x K appDef wrap k label) s)) = world s"
proof -
  note law = lawful_stores [OF assms(1)]
  let ?sel = "standardLabels (ad_name appDef)" and ?ns = "ad_namespace appDef"
  obtain r s1 where loop: "run_state (each (ensure x K appDef) (items appDef)) s = (r, s1)" by fastforce
  have w1: "world s1 = world s"
    using untouched_all [OF assms(1) subset_refl, where appDef = appDef and s = s and x = x] assms(2) loop by (force simp: brought_to_def)
  show ?thesis
  proof (cases "\<exists>os w. r = Inr () \<and> run_state (rlist (client K) ?ns ?sel) (world s1) = (Inr os, w)")
    case False
    then show ?thesis using loop w1 stores_list(1) [OF law, of ?ns ?sel "world s1"]
      by (cases r; cases "run_state (rlist (client K) ?ns ?sel) (world s1)")
        (auto simp: reconcile_def run_tryM split: sum.splits)
  next
    case True
    then obtain os w where r: "r = Inr ()" and ls: "run_state (rlist (client K) ?ns ?sel) (world s1) = (Inr os, w)" by blast
    have w: "w = world s1" and os: "set os = {obj. \<exists>n. objs (world s1) (?ns, n) = Some obj \<and> labels_match ?sel (m_labels (meta obj))}"
      using stores_list(2) [OF law ls] by simp_all
    have "\<not> stale K appDef (names appDef) (meta obj)" if "obj \<in> set os" for obj
    proof
      assume stale: "stale K appDef (names appDef) (meta obj)"
      from that obtain n where n: "objs (world s) (?ns, n) = Some obj" "labels_match ?sel (m_labels (meta obj))"
        using os w1 by auto
      have "managed K appDef (meta obj)" and "n \<notin> set (names appDef)"
        using n stale stores_key [OF law n(1)] by (auto simp: managed_def stale_def key_of_def)
      moreover from this(2) have "n \<notin> fst ` set (map (\<lambda>i. (child_name appDef i, i)) (items appDef))"
        by (auto simp: names_def)
      ultimately have "objs (world s) (?ns, n) =
          (case before (?ns, n) of None \<Rightarrow> None | Some obj \<Rightarrow> if managed K appDef (meta obj) then None else Some obj)"
        using assms(2) by (simp add: brought_to_def)
      then show False using n(1) \<open>managed K appDef (meta obj)\<close> by (auto split: option.splits if_splits)
    qed
    then have "run_state (prune_objects K appDef (client K) k label meta (names appDef) os) (s1\<lparr>world := w\<rparr>) = (Inr (), s1\<lparr>world := w\<rparr>)"
      by (rule prune_none)
    then show ?thesis using loop r ls w w1 by (simp add: reconcile_def run_tryM)
  qed
qed

end

section \<open>One call of \<open>CreateOrUpdate\<close>\<close>

lemma set_controller_reference_again:
  assumes "controller_reference_law K" and "set_controller_reference K appDef m = Inr m1"
    and "m_namespace m' = m_namespace m" and "m_name m' = m_name m" and "m_ownerRefs m' = m_ownerRefs m1"
  shows "set_controller_reference K appDef m' = Inr m'"
proof -
  obtain refs where refs: "k_setControllerReference K (ad_meta appDef) m = Inr refs" "m1 = m\<lparr>m_ownerRefs := refs\<rparr>"
    using assms(2) by (auto simp: set_controller_reference_def split: sum.splits)
  then have m': "m_ownerRefs m' = refs" using assms(5) by simp
  then have "k_setControllerReference K (ad_meta appDef) m' = Inr refs"
    using assms(1,3,4) refs(1) unfolding controller_reference_law_def by blast
  then show ?thesis unfolding set_controller_reference_def by (cases m') (use m' in simp)
qed

text \<open>
  Where the function given to it, applied to what the server stored, would change nothing again,
  \<open>CreateOrUpdate\<close> leaves under the key an object that is a fixed point of the function.
\<close>

lemma create_or_update_ensures:
  assumes "stores rc meta view objs"
    and "run_state (create_or_update rc k meta obj f) s = (Inr op, s')"
    and "\<And>x new stored. key_of (meta x) = key_of (meta obj) \<Longrightarrow> f x = Inr new \<Longrightarrow> view stored = view new \<Longrightarrow>
      key_of (meta stored) = key_of (meta obj) \<Longrightarrow> f stored = Inr stored"
  shows "\<exists>stored. objs (world s') = (objs (world s))(key_of (meta obj) \<mapsto> stored) \<and> f stored = Inr stored"
proof -
  obtain w' where w': "run_state (rcreate_or_update rc obj f) (world s) = (Inr op, w')" "world s' = w'"
    using assms(2) by (auto simp: create_or_update_def prod_eq_iff)
  let ?x = "case objs (world s) (key_of (meta obj)) of None \<Rightarrow> obj | Some x \<Rightarrow> x"
  obtain new stored where n: "f ?x = Inr new" "view stored = view new"
    "objs w' = (objs (world s))(key_of (meta obj) \<mapsto> stored)"
    using stores_create_or_update [OF assms(1) w'(1)] by blast
  have "key_of (meta ?x) = key_of (meta obj)"
    using stores_key [OF assms(1), of "world s" "key_of (meta obj)"] by (auto split: option.split)
  moreover have "key_of (meta stored) = key_of (meta obj)"
    using stores_key [OF assms(1), of w' "key_of (meta obj)" stored] n(3) by simp
  ultimately have "f stored = Inr stored" using assms(3) n(1,2) by blast
  then show ?thesis using n(3) w'(2) by blast
qed

lemma create_or_update_untouched:
  assumes "stores rc meta view objs" and "objs (world s) (key_of (meta obj)) = Some x" and "f x = Inr x"
  shows "world (snd (run_state (create_or_update rc k meta obj f) s)) = world s"
  using stores_unchanged [of rc meta view objs "world s" obj x f] assms by (simp add: create_or_update_def)

lemma world_tryM_ret [simp]: "world (snd (run_state (tryM m wrap (\<lambda>_. ret ())) s)) = world (snd (run_state m s))"
  by (auto simp: run_tryM split: prod.split sum.split)

section \<open>The laws of ownership, and what every child is to be\<close>

definition cluster_law :: "'w k8s \<Rightarrow> bool" where
  "cluster_law K \<longleftrightarrow> controller_reference_law K \<and> ownership_law K"

definition owned_by :: "'w k8s \<Rightarrow> AppDefinition \<Rightarrow> ObjectMeta \<Rightarrow> bool" where
  "owned_by K appDef m \<longleftrightarrow> m_labels m = standardLabels (ad_name appDef) \<and> k_isControlledBy K m (ad_meta appDef)"

lemma set_controller_reference_owned:
  assumes "cluster_law K" and "set_controller_reference K appDef m = Inr m'"
  shows "k_isControlledBy K m' (ad_meta appDef)"
proof -
  obtain refs where "k_setControllerReference K (ad_meta appDef) m = Inr refs" "m' = m\<lparr>m_ownerRefs := refs\<rparr>"
    using assms(2) by (auto simp: set_controller_reference_def split: sum.splits)
  then show ?thesis using assms(1) by (auto simp: cluster_law_def ownership_law_def)
qed

section \<open>ConfigMaps\<close>

definition config_map_view :: "ConfigMap \<Rightarrow> gomap \<times> OwnerReference list \<times> gomap" where
  "config_map_view cm = (m_labels (cm_meta cm), m_ownerRefs (cm_meta cm), cm_data cm)"

lemma mutateConfigMap_fixed:
  assumes "controller_reference_law K" and "mutateConfigMap K appDef c x = Inr new"
    and "config_map_view stored = config_map_view new" and "key_of (cm_meta stored) = key_of (cm_meta x)"
  shows "mutateConfigMap K appDef c stored = Inr stored"
proof -
  obtain m where m: "set_controller_reference K appDef ((cm_meta x)\<lparr>m_labels := standardLabels (ad_name appDef)\<rparr>) = Inr m"
    and new: "new = x\<lparr>cm_meta := m, cm_data := cmm_Data c\<rparr>"
    using assms(2) by (auto simp: mutateConfigMap_def Let_def split: sum.splits)
  have v: "m_labels (cm_meta stored) = standardLabels (ad_name appDef)" "m_ownerRefs (cm_meta stored) = m_ownerRefs m"
    "cm_data stored = cmm_Data c"
    using assms(3) set_controller_reference_frame [OF m] by (simp_all add: new config_map_view_def)
  then have "set_controller_reference K appDef (cm_meta stored) = Inr (cm_meta stored)"
    using set_controller_reference_again [OF assms(1) m] assms(4) by (simp add: key_of_def)
  then show ?thesis using v by (simp add: mutateConfigMap_def Let_def flip: v(1) v(3))
qed

lemma mutateConfigMap_owned:
  assumes "cluster_law K" and "mutateConfigMap K appDef c obj = Inr obj'"
  shows "owned_by K appDef (cm_meta obj') \<and> cm_data obj' = cmm_Data c"
proof -
  obtain m where m: "set_controller_reference K appDef ((cm_meta obj)\<lparr>m_labels := standardLabels (ad_name appDef)\<rparr>) = Inr m"
    and "obj' = obj\<lparr>cm_meta := m, cm_data := cmm_Data c\<rparr>"
    using assms(2) by (auto simp: mutateConfigMap_def Let_def split: sum.splits)
  then show ?thesis
    using set_controller_reference_owned [OF assms(1) m] set_controller_reference_frame [OF m] by (simp add: owned_by_def)
qed

interpretation cmc: converging_kind "\<lambda>k. k = ConfigMapK" "\<lambda>a. spec_ConfigMaps (ad_spec a)"
  "\<lambda>a cm. childName a (cmm_Name cm)" "\<lambda>_::unit. ensureConfigMap" "\<lambda>_ _. True" k_configMaps cm_meta config_map_view
  mutateConfigMap "\<lambda>K objs. cluster_law K \<and> stores (k_configMaps K) cm_meta config_map_view objs"
proof (unfold_locales, goal_cases)
  case (2 K objs i appDef x s s')
  then have law: "controller_reference_law K" by (simp add: cluster_law_def)
  let ?obj = "empty_config_map (object_meta (childName appDef (cmm_Name i)) (ad_namespace appDef))"
  obtain op where "run_state (create_or_update (k_configMaps K) ConfigMapK cm_meta ?obj (mutateConfigMap K appDef i)) s = (Inr op, s')"
    using 2(3) by (auto simp: ensureConfigMap_def run_tryM split: prod.splits sum.splits)
  from create_or_update_ensures [OF conjunct2 [OF 2(1)] this mutateConfigMap_fixed [OF law]]
  show ?case by (auto simp: key_of_def empty_config_map_def)
next
  case (3 K objs i appDef s obj x)
  then show ?case
    using create_or_update_untouched [OF conjunct2 [OF 3(1)], where f = "mutateConfigMap K appDef i"
        and obj = "empty_config_map (object_meta (childName appDef (cmm_Name i)) (ad_namespace appDef))" and s = s and x = obj]
    by (simp add: ensureConfigMap_def key_of_def empty_config_map_def)
qed simp

section \<open>Secrets\<close>

definition secret_view :: "Secret \<Rightarrow> gomap \<times> OwnerReference list \<times> string \<times> gomap" where
  "secret_view sec = (m_labels (sc_meta sec), m_ownerRefs (sc_meta sec), sc_type sec, sc_data sec)"

lemma mutateSecret_fixed:
  assumes "controller_reference_law K" and "mutateSecret K appDef c x = Inr new"
    and "secret_view stored = secret_view new" and "key_of (sc_meta stored) = key_of (sc_meta x)"
  shows "mutateSecret K appDef c stored = Inr stored"
proof -
  obtain m where m: "set_controller_reference K appDef ((sc_meta x)\<lparr>m_labels := standardLabels (ad_name appDef)\<rparr>) = Inr m"
    and new: "new = x\<lparr>sc_meta := m, sc_type := ''Opaque'', sc_data := map_merge [] (mount_data c)\<rparr>"
    using assms(2) by (auto simp: mutateSecret_def Let_def split: sum.splits)
  have v: "m_labels (sc_meta stored) = standardLabels (ad_name appDef)" "m_ownerRefs (sc_meta stored) = m_ownerRefs m"
    "sc_type stored = ''Opaque''" "sc_data stored = map_merge [] (mount_data c)"
    using assms(3) set_controller_reference_frame [OF m] by (simp_all add: new secret_view_def)
  then have "set_controller_reference K appDef (sc_meta stored) = Inr (sc_meta stored)"
    using set_controller_reference_again [OF assms(1) m] assms(4) by (simp add: key_of_def)
  then show ?thesis using v by (simp add: mutateSecret_def Let_def flip: v(1) v(3) v(4))
qed

lemma mutateSecret_owned:
  assumes "cluster_law K" and "mutateSecret K appDef c obj = Inr obj'"
  shows "owned_by K appDef (sc_meta obj') \<and> sc_type obj' = ''Opaque''
    \<and> map_of (sc_data obj') = map_of (rev (mount_data c))"
proof -
  obtain m where m: "set_controller_reference K appDef ((sc_meta obj)\<lparr>m_labels := standardLabels (ad_name appDef)\<rparr>) = Inr m"
    and "obj' = obj\<lparr>sc_meta := m, sc_type := ''Opaque'', sc_data := map_merge [] (mount_data c)\<rparr>"
    using assms(2) by (auto simp: mutateSecret_def Let_def split: sum.splits)
  then show ?thesis
    using set_controller_reference_owned [OF assms(1) m] set_controller_reference_frame [OF m]
    by (simp add: owned_by_def map_of_map_merge)
qed

interpretation scc: converging_kind "\<lambda>k. k = SecretK" inlineSecrets
  "\<lambda>a sec. childName a (sec_Name sec)" "\<lambda>_::unit. ensureSecret" "\<lambda>_ _. True" k_secrets sc_meta secret_view
  mutateSecret "\<lambda>K objs. cluster_law K \<and> stores (k_secrets K) sc_meta secret_view objs"
proof (unfold_locales, goal_cases)
  case (2 K objs i appDef x s s')
  then have law: "controller_reference_law K" and own: "sec_SecretRef i = ''''"
    by (simp_all add: cluster_law_def inlineSecrets_def)
  let ?obj = "empty_secret (object_meta (childName appDef (sec_Name i)) (ad_namespace appDef))"
  obtain op where "run_state (create_or_update (k_secrets K) SecretK sc_meta ?obj (mutateSecret K appDef i)) s = (Inr op, s')"
    using 2(3) by (auto simp: ensureSecret_def own run_tryM split: prod.splits sum.splits)
  from create_or_update_ensures [OF conjunct2 [OF 2(1)] this mutateSecret_fixed [OF law]]
  show ?case by (auto simp: key_of_def empty_secret_def)
next
  case (3 K objs i appDef s obj x)
  then show ?case
    using create_or_update_untouched [OF conjunct2 [OF 3(1)], where f = "mutateSecret K appDef i"
        and obj = "empty_secret (object_meta (childName appDef (sec_Name i)) (ad_namespace appDef))" and s = s and x = obj]
    by (simp add: ensureSecret_def key_of_def empty_secret_def)
qed simp

section \<open>Ingresses\<close>

definition ingress_view ::
  "Ingress \<Rightarrow> gomap \<times> gomap \<times> OwnerReference list \<times> string option \<times> IngressTLS list \<times> IngressRule list" where
  "ingress_view ing = (m_labels (ing_meta ing), m_annotations (ing_meta ing), m_ownerRefs (ing_meta ing),
     ing_ClassName ing, ing_TLS ing, ing_Rules ing)"

definition wanted_class :: "AppDefinition \<Rightarrow> string option" where
  "wanted_class appDef =
     (if spec_IngressClass (ad_spec appDef) \<noteq> [] then Some (spec_IngressClass (ad_spec appDef)) else None)"

definition wanted_tls :: "AppDefinition \<Rightarrow> DomainSpec \<Rightarrow> IngressTLS list" where
  "wanted_tls appDef d =
     (if dom_TLS d then
        [\<lparr>it_Hosts = [dom_Name d],
          it_SecretName = (if dom_SecretName d = [] then tlsSecretName (ad_name appDef) (dom_Name d) else dom_SecretName d)\<rparr>]
      else [])"

definition wanted_rules :: "AppDefinition \<Rightarrow> DomainSpec \<Rightarrow> IngressRule list" where
  "wanted_rules appDef d =
     [\<lparr>ir_Host = dom_Name d, ir_Path = (if dom_Path d = [] then ''/'' else dom_Path d), ir_PathType = ''Prefix'',
       ir_ServiceName = ad_name appDef, ir_ServicePort = (if dom_PortName d = [] then ''http'' else dom_PortName d)\<rparr>]"

lemma mutateIngress_eq:
  "mutateIngress K appDef d y =
      (case set_controller_reference K appDef ((ing_meta y)\<lparr>m_labels := standardLabels (ad_name appDef),
         m_annotations := ingressAnnotations appDef d\<rparr>) of
         Inl e \<Rightarrow> Inl e
       | Inr m \<Rightarrow> Inr (y\<lparr>ing_meta := m, ing_ClassName := wanted_class appDef, ing_TLS := wanted_tls appDef d,
           ing_Rules := wanted_rules appDef d\<rparr>))"
  unfolding mutateIngress_def Let_def wanted_class_def wanted_tls_def wanted_rules_def
  by (simp split del: if_split split: sum.split)

lemma mutateIngress_fixed:
  assumes "controller_reference_law K" and "mutateIngress K appDef d x = Inr new"
    and "ingress_view stored = ingress_view new" and "key_of (ing_meta stored) = key_of (ing_meta x)"
  shows "mutateIngress K appDef d stored = Inr stored"
proof -
  obtain m where m: "set_controller_reference K appDef ((ing_meta x)\<lparr>m_labels := standardLabels (ad_name appDef),
       m_annotations := ingressAnnotations appDef d\<rparr>) = Inr m"
    and new: "new = x\<lparr>ing_meta := m, ing_ClassName := wanted_class appDef, ing_TLS := wanted_tls appDef d, ing_Rules := wanted_rules appDef d\<rparr>"
    using assms(2) unfolding mutateIngress_eq by (auto split: sum.splits)
  have v: "m_labels (ing_meta stored) = standardLabels (ad_name appDef)"
    "m_annotations (ing_meta stored) = ingressAnnotations appDef d"
    "ing_ClassName stored = wanted_class appDef" "ing_TLS stored = wanted_tls appDef d" "ing_Rules stored = wanted_rules appDef d"
    "m_ownerRefs (ing_meta stored) = m_ownerRefs m"
    using assms(3) set_controller_reference_frame [OF m] by (simp_all add: new ingress_view_def)
  then have "set_controller_reference K appDef (ing_meta stored) = Inr (ing_meta stored)"
    using set_controller_reference_again [OF assms(1) m] assms(4) by (simp add: key_of_def)
  then show ?thesis unfolding mutateIngress_eq by (simp flip: v(1-5))
qed

lemma mutateIngress_owned:
  assumes "cluster_law K" and "mutateIngress K appDef d obj = Inr obj'"
  shows "owned_by K appDef (ing_meta obj')"
proof -
  obtain m where m: "set_controller_reference K appDef ((ing_meta obj)\<lparr>m_labels := standardLabels (ad_name appDef),
       m_annotations := ingressAnnotations appDef d\<rparr>) = Inr m"
    and "ing_meta obj' = m"
    using assms(2) unfolding mutateIngress_eq by (auto split: sum.splits)
  then show ?thesis
    using set_controller_reference_owned [OF assms(1) m] set_controller_reference_frame [OF m] by (simp add: owned_by_def)
qed

interpretation igc: converging_kind "\<lambda>k. k = IngressK" "\<lambda>a. spec_Domains (ad_spec a)" ingressName
  "\<lambda>_::unit. ensureIngress" "\<lambda>_ _. True" k_ingresses ing_meta ingress_view
  mutateIngress "\<lambda>K objs. cluster_law K \<and> stores (k_ingresses K) ing_meta ingress_view objs"
proof (unfold_locales, goal_cases)
  case (2 K objs i appDef x s s')
  then have law: "controller_reference_law K" by (simp add: cluster_law_def)
  let ?obj = "empty_ingress (object_meta (ingressName appDef i) (ad_namespace appDef))"
  obtain op where "run_state (create_or_update (k_ingresses K) IngressK ing_meta ?obj (mutateIngress K appDef i)) s = (Inr op, s')"
    using 2(3) by (auto simp: ensureIngress_def run_tryM split: prod.splits sum.splits)
  from create_or_update_ensures [OF conjunct2 [OF 2(1)] this mutateIngress_fixed [OF law]]
  show ?case by (auto simp: key_of_def empty_ingress_def)
next
  case (3 K objs i appDef s obj x)
  then show ?case
    using create_or_update_untouched [OF conjunct2 [OF 3(1)], where f = "mutateIngress K appDef i"
        and obj = "empty_ingress (object_meta (ingressName appDef i) (ad_namespace appDef))" and s = s and x = obj]
    by (simp add: ensureIngress_def key_of_def empty_ingress_def)
qed simp

section \<open>Properties\<close>

lemma brought_to_mono:
  "brought_to K appDef meta declared P before after \<Longrightarrow> (\<And>i obj. P i obj \<Longrightarrow> Q i obj) \<Longrightarrow>
   brought_to K appDef meta declared Q before after"
  unfolding brought_to_def by fast

lemma inj_childName: "childName appDef n = childName appDef n' \<longleftrightarrow> n = n'"
  by (simp add: childName_def)

lemma distinct_childName: "distinct (map f xs) \<Longrightarrow> distinct (map (\<lambda>x. childName appDef (f x)) xs)"
  by (auto simp: distinct_map inj_on_def inj_childName)

lemma reconcileConfigMaps_eq:
  "reconcileConfigMaps K appDef = cmc.reconcile () K appDef (Wrap ''listing managed ConfigMaps for pruning'') ConfigMapK ''ConfigMap''"
  by (simp add: reconcileConfigMaps_def cmc.reconcile_def cms.names_def Let_def)

lemma reconcileSecrets_eq:
  "reconcileSecrets K appDef = scc.reconcile () K appDef (Wrap ''listing managed Secrets for pruning'') SecretK ''Secret''"
  by (simp add: reconcileSecrets_def scc.reconcile_def secs.names_def Let_def inlineSecrets_def ensureSecrets_inline)

lemma reconcileIngress_eq:
  "reconcileIngress K appDef = igc.reconcile () K appDef (Wrap ''listing managed Ingresses for pruning'') IngressK ''Ingress''"
  by (simp add: reconcileIngress_def pruneIngresses_def igc.reconcile_def ings.names_def)

text \<open>
  C5. Reconciling ConfigMaps refines an update of the set of ConfigMaps, provided no two entries have one
  name (which the CRD does not enforce: of two such entries each reconcile would write both in turn).
  While nobody else writes to them, a run that returns no error leaves, under the name of every declared entry, a ConfigMap with
  exactly the declared data and the standard labels, controlled by the application; every other
  ConfigMap with the application's labels and controller reference is gone, that of an entry removed
  from the spec included (which docs/development.md says stays orphaned); every ConfigMap that is
  not the application's is as it was. Another run, from that state of the cluster, changes nothing.
\<close>

theorem configMaps_converge:
  assumes "cluster_law K" and "stores (k_configMaps K) cm_meta config_map_view objs"
    and "distinct (map cmm_Name (spec_ConfigMaps (ad_spec appDef)))"
    and "run_state (reconcileConfigMaps K appDef) s = (Inr (), s')"
    and "world s'' = world s'"
  shows "brought_to K appDef cm_meta (map (\<lambda>c. (childName appDef (cmm_Name c), c)) (spec_ConfigMaps (ad_spec appDef)))
      (\<lambda>c obj. owned_by K appDef (cm_meta obj) \<and> cm_data obj = cmm_Data c) (objs (world s)) (objs (world s'))
    \<and> world (snd (run_state (reconcileConfigMaps K appDef) s'')) = world s''"
proof -
  have law: "cluster_law K \<and> stores (k_configMaps K) cm_meta config_map_view objs" using assms(1,2) by blast
  have run: "run_state (cmc.reconcile () K appDef (Wrap ''listing managed ConfigMaps for pruning'') ConfigMapK ''ConfigMap'') s = (Inr (), s')"
    using assms(4) by (simp add: reconcileConfigMaps_eq)
  have "distinct (cms.names appDef)" using assms(3) by (simp add: cms.names_def distinct_childName)
  note c = cmc.converges [OF law this run]
  have "owned_by K appDef (cm_meta obj) \<and> cm_data obj = cmm_Data i" if "mutateConfigMap K appDef i obj = Inr obj" for i obj
    using mutateConfigMap_owned [OF assms(1) that] .
  from brought_to_mono [OF c this] show ?thesis
    using cmc.settled [OF law, of appDef "objs (world s)" s''] c assms(5) by (simp add: reconcileConfigMaps_eq)
qed

text \<open>
  C6. The same for Secrets, provided no two entries without a \<open>secretRef\<close> have one name (the CRD does
  not enforce it). The declared ones are the entries without a \<open>secretRef\<close>, each an \<open>Opaque\<close> Secret
  with the entry's inline data, and nothing is created for an entry with one. Every other Secret with
  the application's labels and controller reference is gone, even one that an entry names as its
  \<open>secretRef\<close>; every Secret that is not the application's is as it was. Another run changes nothing.
\<close>

theorem secrets_converge:
  assumes "cluster_law K" and "stores (k_secrets K) sc_meta secret_view objs"
    and "distinct (map sec_Name (inlineSecrets appDef))"
    and "run_state (reconcileSecrets K appDef) s = (Inr (), s')"
    and "world s'' = world s'"
  shows "brought_to K appDef sc_meta (map (\<lambda>c. (childName appDef (sec_Name c), c)) (inlineSecrets appDef))
      (\<lambda>c obj. owned_by K appDef (sc_meta obj) \<and> sc_type obj = ''Opaque''
         \<and> map_of (sc_data obj) = map_of (rev (mount_data c))) (objs (world s)) (objs (world s'))
    \<and> world (snd (run_state (reconcileSecrets K appDef) s'')) = world s''"
proof -
  have law: "cluster_law K \<and> stores (k_secrets K) sc_meta secret_view objs" using assms(1,2) by blast
  have run: "run_state (scc.reconcile () K appDef (Wrap ''listing managed Secrets for pruning'') SecretK ''Secret'') s = (Inr (), s')"
    using assms(4) by (simp add: reconcileSecrets_eq)
  have "distinct (secs.names appDef)" using assms(3) by (simp add: secs.names_def distinct_childName)
  note c = scc.converges [OF law this run]
  have "owned_by K appDef (sc_meta obj) \<and> sc_type obj = ''Opaque'' \<and> map_of (sc_data obj) = map_of (rev (mount_data i))"
    if "mutateSecret K appDef i obj = Inr obj" for i obj
    using mutateSecret_owned [OF assms(1) that] .
  from brought_to_mono [OF c this] show ?thesis
    using scc.settled [OF law, of appDef "objs (world s)" s''] c assms(5) by (simp add: reconcileSecrets_eq)
qed

text \<open>
  C7. The same for Ingresses, where no two domain entries have one Ingress name: under each name an
  Ingress for the domain's host, with TLS exactly when asked for, that routes to the application's
  Service; the application's other Ingresses are gone, foreign ones untouched, and the next run
  writes nothing: the middleware annotation does not grow.
\<close>

theorem ingresses_converge:
  assumes "cluster_law K" and "stores (k_ingresses K) ing_meta ingress_view objs"
    and "distinct (map (ingressName appDef) (spec_Domains (ad_spec appDef)))"
    and "run_state (reconcileIngress K appDef) s = (Inr (), s')"
    and "world s'' = world s'"
  shows "brought_to K appDef ing_meta (map (\<lambda>d. (ingressName appDef d, d)) (spec_Domains (ad_spec appDef)))
      (\<lambda>d obj. owned_by K appDef (ing_meta obj) \<and> map ir_Host (ing_Rules obj) = [dom_Name d]
         \<and> map ir_ServiceName (ing_Rules obj) = [ad_name appDef]
         \<and> map it_Hosts (ing_TLS obj) = (if dom_TLS d then [[dom_Name d]] else [])
         \<and> m_annotations (ing_meta obj) = ingressAnnotations appDef d) (objs (world s)) (objs (world s'))
    \<and> world (snd (run_state (reconcileIngress K appDef) s'')) = world s''"
proof -
  have law: "cluster_law K \<and> stores (k_ingresses K) ing_meta ingress_view objs" using assms(1,2) by blast
  have run: "run_state (igc.reconcile () K appDef (Wrap ''listing managed Ingresses for pruning'') IngressK ''Ingress'') s = (Inr (), s')"
    using assms(4) by (simp add: reconcileIngress_eq)
  have "distinct (ings.names appDef)" using assms(3) by (simp add: ings.names_def)
  note c = igc.converges [OF law this run]
  have "owned_by K appDef (ing_meta obj) \<and> map ir_Host (ing_Rules obj) = [dom_Name d]
         \<and> map ir_ServiceName (ing_Rules obj) = [ad_name appDef]
         \<and> map it_Hosts (ing_TLS obj) = (if dom_TLS d then [[dom_Name d]] else [])
         \<and> m_annotations (ing_meta obj) = ingressAnnotations appDef d"
    if "mutateIngress K appDef d obj = Inr obj" for d obj
    using mutateIngress_owned [OF assms(1) that] mutateIngress_ok [OF that] by simp
  from brought_to_mono [OF c this] show ?thesis
    using igc.settled [OF law, of appDef "objs (world s)" s''] c assms(5) by (simp add: reconcileIngress_eq)
qed

section \<open>Concrete instances\<close>

definition mem_objs :: "('w \<Rightarrow> 'o list) \<Rightarrow> ('o \<Rightarrow> ObjectMeta) \<Rightarrow> 'w \<Rightarrow> 'o store" where
  "mem_objs objs meta w k = find (at_key meta (fst k) (snd k)) (objs w)"

lemma at_key_eq: "at_key meta ns n = (\<lambda>x. key_of (meta x) = (ns, n))"
  by (simp add: at_key_def key_of_def fun_eq_iff)

lemma find_SomeD: "find P xs = Some x \<Longrightarrow> P x \<and> x \<in> set xs"
  by (induction xs) (auto split: if_splits)

lemma find_filter_not: "find (\<lambda>x. f x = k) (filter (\<lambda>x. f x \<noteq> k') xs) = (if k = k' then None else find (\<lambda>x. f x = k) xs)"
  by (induction xs) auto

lemma find_replace:
  "f new = k' \<Longrightarrow> find (\<lambda>x. f x = k) (map (\<lambda>x. if f x = k' then new else x) xs) =
     (if k = k' then map_option (\<lambda>_. new) (find (\<lambda>x. f x = k) xs) else find (\<lambda>x. f x = k) xs)"
  by (induction xs) auto

lemma find_snoc: "find P (xs @ [x]) = (case find P xs of None \<Rightarrow> if P x then Some x else None | Some y \<Rightarrow> Some y)"
  by (induction xs) auto

text \<open>The cluster in memory keeps the promises.\<close>

lemma mem_objs_eq: "mem_objs objs meta w k = find (\<lambda>x. key_of (meta x) = k) (objs w)"
  by (simp add: mem_objs_def at_key_eq)

lemma mem_lists: "store_lists (mem_client objs put meta upd) meta (mem_objs objs meta)"
  unfolding store_lists_def mem_objs_eq mem_client_def mem_list_def at_key_eq
  by (auto simp: dest: find_SomeD [of "\<lambda>x. key_of (meta x) = _"]) (auto simp: key_of_def dest: find_SomeD)

lemma mem_deletes:
  assumes "\<And>xs w. objs (put xs w) = xs"
  shows "store_deletes (mem_client objs put meta upd) meta (mem_objs objs meta)"
  unfolding store_deletes_def mem_objs_eq mem_client_def mem_delete_def at_key_eq
  by (auto simp: Let_def assms find_filter_not key_of_def [symmetric] fun_eq_iff split: option.splits)

lemma mem_upserts:
  assumes "\<And>xs w. objs (put xs w) = xs" and "\<And>f x. meta (upd f x) = f (meta x)"
    and "\<And>v x. view (bump upd v x) = view x"
  shows "store_upserts (mem_client objs put meta upd) meta view (mem_objs objs meta)"
  unfolding store_upserts_def
proof (intro conjI allI impI)
  have bump: "key_of (meta (bump upd v x)) = key_of (meta x)" for v x
    by (simp add: bump_def key_of_def assms(2))
  fix w obj f op w'
  let ?k = "key_of (meta obj)" and ?old = "find (\<lambda>x. key_of (meta x) = key_of (meta obj)) (objs w)"
  assume "run_state (rcreate_or_update (mem_client objs put meta upd) obj f) w = (Inr op, w')"
  then have run: "run_state (mem_create_or_update objs put meta upd obj f) w = (Inr op, w')"
    by (simp add: mem_client_def)
  show "\<exists>new stored. f (case mem_objs objs meta w ?k of None \<Rightarrow> obj | Some x \<Rightarrow> x) = Inr new
      \<and> view stored = view new \<and> mem_objs objs meta w' = (mem_objs objs meta w)(?k \<mapsto> stored)"
  proof (cases ?old)
    case None
    with run obtain new where n: "f obj = Inr new" "key_of (meta new) = ?k"
      "w' = put (objs w @ [bump upd [] new]) w"
      by (auto simp: mem_create_or_update_def mem_create_def at_key_eq key_of_def [symmetric] split: sum.splits if_splits)
    have "mem_objs objs meta w' = (mem_objs objs meta w)(?k \<mapsto> bump upd [] new)"
      using None n(2) by (auto simp: n(3) fun_eq_iff mem_objs_eq assms(1) find_snoc bump split: option.split)
    then show ?thesis using n(1) None assms(3) [of "[]" new] by (auto simp: mem_objs_eq)
  next
    case (Some old)
    with run obtain new where n: "f old = Inr new" "key_of (meta new) = ?k"
      and w': "w' = (if new = old then w else put (map (\<lambda>x. if key_of (meta x) = ?k
        then bump upd (m_resourceVersion (meta old)) new else x) (objs w)) w)"
      by (auto simp: mem_create_or_update_def mem_update_def Let_def at_key_eq key_of_def [symmetric] split: sum.splits if_splits)
    show ?thesis
    proof (cases "new = old")
      case True
      then have "mem_objs objs meta w' = (mem_objs objs meta w)(?k \<mapsto> new)"
        using Some w' by (auto simp: fun_eq_iff mem_objs_eq)
      then show ?thesis using n(1) Some by (auto simp: mem_objs_eq)
    next
      case False
      let ?new = "bump upd (m_resourceVersion (meta old)) new"
      have "mem_objs objs meta w' = (mem_objs objs meta w)(?k \<mapsto> ?new)"
        using Some w' False n(2)
        by (auto simp: fun_eq_iff mem_objs_eq assms(1) bump find_replace [where f = "\<lambda>x. key_of (meta x)"])
      then show ?thesis using n(1) Some assms(3) [of "m_resourceVersion (meta old)" new] by (auto simp: mem_objs_eq)
    qed
  qed
next
  fix w obj x and f :: "'a \<Rightarrow> 'a result"
  assume "mem_objs objs meta w (key_of (meta obj)) = Some x" and "f x = Inr x"
  then show "snd (run_state (rcreate_or_update (mem_client objs put meta upd) obj f) w) = w"
    by (auto simp: mem_client_def mem_create_or_update_def at_key_eq key_of_def [symmetric] mem_objs_eq dest: find_SomeD)
qed

lemma mem_stores:
  assumes "\<And>xs w. objs (put xs w) = xs" and "\<And>f x. meta (upd f x) = f (meta x)"
    and "\<And>v x. view (bump upd v x) = view x"
  shows "stores (mem_client objs put meta upd) meta view (mem_objs objs meta)"
  unfolding stores_def using assms
  by (auto simp: store_keys_def mem_objs_eq mem_lists mem_deletes mem_upserts dest: find_SomeD)

lemma mem_cluster_law: "cluster_law mem"
proof -
  have "mem_isControlledBy m owner" if "mem_owner_ref owner \<in> set (m_ownerRefs m)" for m owner
    using that unfolding mem_isControlledBy_def list_ex_iff by (rule bexI [rotated]) (simp add: mem_owner_ref_def)
  then show ?thesis
    by (auto simp: cluster_law_def mem_controller_reference_law ownership_law_def mem_isControlledBy_def
        dest!: mem_owner_ref_set)
qed

definition example_config :: AppDefinition where
  "example_config = (zero_app ''web'' ''prod'')\<lparr>ad_spec := zero_spec\<lparr>
     spec_ConfigMaps := [\<lparr>cmm_Name = ''settings'', cmm_MountPath = ''/etc/web'', cmm_Data = [(''level'', ''info'')]\<rparr>],
     spec_Secrets := [\<lparr>sec_Name = ''token'', sec_MountPath = '''', sec_AsEnvVars = True, sec_Data = Some [(''k'', ''v'')], sec_SecretRef = ''''\<rparr>],
     spec_Domains := [example_domain]\<rparr>\<rparr>"

lemma mem_configMaps_stores: "stores (k_configMaps mem) cm_meta config_map_view (mem_objs cl_configMaps cm_meta)"
  unfolding mem_simps by (rule mem_stores) (simp_all add: config_map_view_def bump_def)

lemma mem_secrets_stores: "stores (k_secrets mem) sc_meta secret_view (mem_objs cl_secrets sc_meta)"
  unfolding mem_simps by (rule mem_stores) (simp_all add: secret_view_def bump_def)

lemma mem_ingresses_stores: "stores (k_ingresses mem) ing_meta ingress_view (mem_objs cl_ingresses ing_meta)"
  by (simp add: mem_def, rule mem_stores) (simp_all add: ingress_view_def bump_def)

lemma configMaps_converge_witness:
  "\<exists>s'. run_state (reconcileConfigMaps mem example_config) (mem_st empty_cluster) = (Inr (), s')
     \<and> (\<exists>obj. mem_objs cl_configMaps cm_meta (world s') (''prod'', ''web-settings'') = Some obj
          \<and> owned_by mem example_config (cm_meta obj) \<and> cm_data obj = [(''level'', ''info'')])
     \<and> world (snd (run_state (reconcileConfigMaps mem example_config) s')) = world s'"
proof -
  have "fst (run_state (reconcileConfigMaps mem example_config) (mem_st empty_cluster)) = Inr ()"
    by code_simp
  then obtain s' where s': "run_state (reconcileConfigMaps mem example_config) (mem_st empty_cluster) = (Inr (), s')"
    by (metis prod.collapse)
  have d: "distinct (map cmm_Name (spec_ConfigMaps (ad_spec example_config)))" by (simp add: example_config_def)
  show ?thesis
    using configMaps_converge [OF mem_cluster_law mem_configMaps_stores d s' refl] s'
    by (auto simp: brought_to_def example_config_def childName_def)
qed

lemma secrets_converge_witness:
  "\<exists>s'. run_state (reconcileSecrets mem example_config) (mem_st empty_cluster) = (Inr (), s')
     \<and> (\<exists>obj. mem_objs cl_secrets sc_meta (world s') (''prod'', ''web-token'') = Some obj
          \<and> owned_by mem example_config (sc_meta obj) \<and> map_of (sc_data obj) ''k'' = Some ''v'')
     \<and> world (snd (run_state (reconcileSecrets mem example_config) s')) = world s'"
proof -
  have "fst (run_state (reconcileSecrets mem example_config) (mem_st empty_cluster)) = Inr ()"
    by code_simp
  then obtain s' where s': "run_state (reconcileSecrets mem example_config) (mem_st empty_cluster) = (Inr (), s')"
    by (metis prod.collapse)
  have d: "distinct (map sec_Name (inlineSecrets example_config))" by (simp add: example_config_def inlineSecrets_def)
  show ?thesis
    using secrets_converge [OF mem_cluster_law mem_secrets_stores d s' refl] s'
    by (auto simp: brought_to_def example_config_def inlineSecrets_def childName_def mount_data_def)
qed

lemma ingresses_converge_witness:
  "\<exists>s'. run_state (reconcileIngress mem example_config) (mem_st empty_cluster) = (Inr (), s')
     \<and> (\<exists>obj. mem_objs cl_ingresses ing_meta (world s') (''prod'', ingressName example_config example_domain) = Some obj
          \<and> owned_by mem example_config (ing_meta obj) \<and> map ir_Host (ing_Rules obj) = [''app.example.com''])
     \<and> world (snd (run_state (reconcileIngress mem example_config) s')) = world s'"
proof -
  have "fst (run_state (reconcileIngress mem example_config) (mem_st empty_cluster)) = Inr ()"
    by (simp add: reconcileIngress_def ensureIngress_def create_or_update_def mem_def mem_client_def at_key_def
        mem_create_or_update_def mem_create_def mutateIngress_eq set_controller_reference_def mem_setControllerReference_def
        mem_list_def pruneIngresses_def prune_objects_def prune_object_def example_config_def empty_ingress_def
        mem_st_def empty_cluster_def run_tryM bump_def)
  then obtain s' where s': "run_state (reconcileIngress mem example_config) (mem_st empty_cluster) = (Inr (), s')"
    by (metis prod.collapse)
  have d: "distinct (map (ingressName example_config) (spec_Domains (ad_spec example_config)))"
    by (simp add: example_config_def)
  have "spec_Domains (ad_spec example_config) = [example_domain]" "ad_namespace example_config = ''prod''"
    "dom_Name example_domain = ''app.example.com''"
    by (simp_all add: example_config_def example_domain_def)
  then show ?thesis
    using ingresses_converge [OF mem_cluster_law mem_ingresses_stores d s' refl] s'
    by (auto simp: brought_to_def)
qed

end
