(* ===== verification/GoMemory.thy ===== *)
theory GoMemory
  imports Prelude
begin

text \<open>
  Go values in memory: pointers, slices and maps refer to objects of a heap, structs and scalars are
  part of the value. The contract \<open>copies\<close> of a deep copy function, and the pieces the generated
  functions are made of.
\<close>

section \<open>Values and types\<close>

text \<open>A slice is a reference to an array and a length; its capacity plays no role in a copy.\<close>

datatype val = VScalar string | VPtr "nat option" | VSlice "nat option" nat | VMap "nat option"
  | VStruct "(string \<times> val) list"

datatype object = OCell val | OArray "val list" | OTable gomap

type_synonym heap = "object list"

datatype gotype = TScalar | TPtr gotype | TSlice gotype | TMap | TStruct "(string \<times> gotype) list"

text \<open>A value of a type, everything it refers to included.\<close>

fun wt :: "heap \<Rightarrow> gotype \<Rightarrow> val \<Rightarrow> bool" and wt_fields :: "heap \<Rightarrow> (string \<times> gotype) list \<Rightarrow> (string \<times> val) list \<Rightarrow> bool" where
  "wt H TScalar v = (case v of VScalar _ \<Rightarrow> True | _ \<Rightarrow> False)"
| "wt H (TPtr t) v =
     (case v of
        VPtr None \<Rightarrow> True
      | VPtr (Some a) \<Rightarrow> a < length H \<and> (case H ! a of OCell w \<Rightarrow> wt H t w | _ \<Rightarrow> False)
      | _ \<Rightarrow> False)"
| "wt H (TSlice t) v =
     (case v of
        VSlice None n \<Rightarrow> n = 0
      | VSlice (Some a) n \<Rightarrow>
          a < length H \<and> (case H ! a of OArray ws \<Rightarrow> n \<le> length ws \<and> list_all (wt H t) (take n ws) | _ \<Rightarrow> False)
      | _ \<Rightarrow> False)"
| "wt H TMap v =
     (case v of
        VMap None \<Rightarrow> True
      | VMap (Some a) \<Rightarrow> a < length H \<and> (case H ! a of OTable m \<Rightarrow> wf_map m | _ \<Rightarrow> False)
      | _ \<Rightarrow> False)"
| "wt H (TStruct fts) v = (case v of VStruct fs \<Rightarrow> wt_fields H fts fs | _ \<Rightarrow> False)"
| "wt_fields H [] fs = (fs = [])"
| "wt_fields H ((n, t) # fts) fs = (case fs of (m, v) # fs' \<Rightarrow> m = n \<and> wt H t v \<and> wt_fields H fts fs' | [] \<Rightarrow> False)"

text \<open>What a reader can see of a value, all the way down; nil is not the empty slice or map.\<close>

datatype tree = XScalar string | XNil | XPtr tree | XList "tree list" | XMap gomap | XStruct "(string \<times> tree) list"

fun view :: "heap \<Rightarrow> gotype \<Rightarrow> val \<Rightarrow> tree" and view_fields :: "heap \<Rightarrow> (string \<times> gotype) list \<Rightarrow> (string \<times> val) list \<Rightarrow> (string \<times> tree) list" where
  "view H TScalar v = (case v of VScalar s \<Rightarrow> XScalar s | _ \<Rightarrow> XNil)"
| "view H (TPtr t) v =
     (case v of VPtr (Some a) \<Rightarrow> (case H ! a of OCell w \<Rightarrow> XPtr (view H t w) | _ \<Rightarrow> XNil) | _ \<Rightarrow> XNil)"
| "view H (TSlice t) v =
     (case v of VSlice (Some a) n \<Rightarrow> (case H ! a of OArray ws \<Rightarrow> XList (map (view H t) (take n ws)) | _ \<Rightarrow> XNil) | _ \<Rightarrow> XNil)"
| "view H TMap v =
     (case v of VMap (Some a) \<Rightarrow> (case H ! a of OTable m \<Rightarrow> XMap m | _ \<Rightarrow> XNil) | _ \<Rightarrow> XNil)"
| "view H (TStruct fts) v = (case v of VStruct fs \<Rightarrow> XStruct (view_fields H fts fs) | _ \<Rightarrow> XNil)"
| "view_fields H [] fs = []"
| "view_fields H ((n, t) # fts) fs = (case fs of (m, v) # fs' \<Rightarrow> (n, view H t v) # view_fields H fts fs' | [] \<Rightarrow> [])"

text \<open>The objects a value refers to, directly or through others.\<close>

fun addrs :: "heap \<Rightarrow> gotype \<Rightarrow> val \<Rightarrow> nat list" and addrs_fields :: "heap \<Rightarrow> (string \<times> gotype) list \<Rightarrow> (string \<times> val) list \<Rightarrow> nat list" where
  "addrs H TScalar v = []"
| "addrs H (TPtr t) v =
     (case v of VPtr (Some a) \<Rightarrow> a # (case H ! a of OCell w \<Rightarrow> addrs H t w | _ \<Rightarrow> []) | _ \<Rightarrow> [])"
| "addrs H (TSlice t) v =
     (case v of VSlice (Some a) n \<Rightarrow> a # (case H ! a of OArray ws \<Rightarrow> concat (map (addrs H t) (take n ws)) | _ \<Rightarrow> []) | _ \<Rightarrow> [])"
| "addrs H TMap v = (case v of VMap (Some a) \<Rightarrow> [a] | _ \<Rightarrow> [])"
| "addrs H (TStruct fts) v = (case v of VStruct fs \<Rightarrow> addrs_fields H fts fs | _ \<Rightarrow> [])"
| "addrs_fields H [] fs = []"
| "addrs_fields H ((n, t) # fts) fs = (case fs of (m, v) # fs' \<Rightarrow> addrs H t v @ addrs_fields H fts fs' | [] \<Rightarrow> [])"

text \<open>A type without references.\<close>

fun plain :: "gotype \<Rightarrow> bool" and plain_fields :: "(string \<times> gotype) list \<Rightarrow> bool" where
  "plain TScalar = True"
| "plain (TPtr t) = False"
| "plain (TSlice t) = False"
| "plain TMap = False"
| "plain (TStruct fts) = plain_fields fts"
| "plain_fields [] = True"
| "plain_fields ((n, t) # fts) = (plain t \<and> plain_fields fts)"

section \<open>What a value depends on\<close>

lemma wt_addrs:
  "wt H t v \<Longrightarrow> a \<in> set (addrs H t v) \<Longrightarrow> a < length H"
  "wt_fields H fts fs \<Longrightarrow> a \<in> set (addrs_fields H fts fs) \<Longrightarrow> a < length H"
proof (induction H t v and H fts fs rule: wt_wt_fields.induct)
  case (3 H t v)
  then show ?case by (fastforce split: val.splits option.splits object.splits simp: list_all_iff)
qed (auto split: val.splits option.splits object.splits list.splits)

definition agree :: "nat list \<Rightarrow> heap \<Rightarrow> heap \<Rightarrow> bool" where
  "agree as H H' \<longleftrightarrow> (\<forall>a \<in> set as. a < length H' \<and> H' ! a = H ! a)"

lemma agree_simps [simp]:
  "agree [] H H'" "agree (a # as) H H' \<longleftrightarrow> a < length H' \<and> H' ! a = H ! a \<and> agree as H H'"
  "agree (as @ bs) H H' \<longleftrightarrow> agree as H H' \<and> agree bs H H'"
  "agree (concat ass) H H' \<longleftrightarrow> (\<forall>as \<in> set ass. agree as H H')"
  by (auto simp: agree_def)

lemma frame:
  "wt H t v \<Longrightarrow> agree (addrs H t v) H H' \<Longrightarrow> wt H' t v \<and> view H' t v = view H t v \<and> addrs H' t v = addrs H t v"
  "wt_fields H fts fs \<Longrightarrow> agree (addrs_fields H fts fs) H H' \<Longrightarrow>
     wt_fields H' fts fs \<and> view_fields H' fts fs = view_fields H fts fs \<and> addrs_fields H' fts fs = addrs_fields H fts fs"
proof (induction H t v and H fts fs rule: wt_wt_fields.induct)
  case (3 H t v)
  show ?case
  proof (cases v)
    case (VSlice a n)
    show ?thesis
    proof (cases a)
      case (Some a)
      with 3 VSlice obtain ws where ws: "H ! a = OArray ws" "n \<le> length ws" "list_all (wt H t) (take n ws)"
        "a < length H'" "H' ! a = OArray ws" "\<forall>w \<in> set (take n ws). agree (addrs H t w) H H'"
        by (auto split: object.splits)
      have "wt H' t w \<and> view H' t w = view H t w \<and> addrs H' t w = addrs H t w" if "w \<in> set (take n ws)" for w
        using 3 VSlice Some ws that by (auto simp: list_all_iff)
      then have "list_all (wt H' t) (take n ws)" "map (view H' t) (take n ws) = map (view H t) (take n ws)"
        "map (addrs H' t) (take n ws) = map (addrs H t) (take n ws)"
        by (auto simp: list_all_iff)
      moreover from this(3) have "concat (map (addrs H' t) (take n ws)) = concat (map (addrs H t) (take n ws))"
        by (rule arg_cong)
      ultimately show ?thesis using VSlice Some ws by simp
    qed (use VSlice 3 in simp)
  qed (use 3 in auto)
qed (auto split: val.splits option.splits object.splits list.splits)

lemma frame_extension:
  assumes "wt H t v"
  shows "wt (H @ E) t v \<and> view (H @ E) t v = view H t v \<and> addrs (H @ E) t v = addrs H t v"
  by (rule frame(1) [OF assms]) (auto simp: agree_def nth_append dest: wt_addrs(1) [OF assms])

lemma frame_extension_fields:
  assumes "wt_fields H fts fs"
  shows "wt_fields (H @ E) fts fs \<and> view_fields (H @ E) fts fs = view_fields H fts fs"
proof -
  have "agree (addrs_fields H fts fs) H (H @ E)" by (auto simp: agree_def nth_append dest: wt_addrs(2) [OF assms])
  then show ?thesis using frame(2) [OF assms] by blast
qed

lemma plain_addrs: "plain t \<Longrightarrow> addrs H t v = []" "plain_fields fts \<Longrightarrow> addrs_fields H fts fs = []"
  by (induction H t v and H fts fs rule: addrs_addrs_fields.induct) (auto split: val.splits list.splits)

section \<open>Copies\<close>

type_synonym copier = "val \<Rightarrow> heap \<Rightarrow> val \<times> heap"

text \<open>
  The contract: the heap only grows, the result is a value of the type that looks like the original, and all
  it refers to is new.
\<close>

definition copied :: "gotype \<Rightarrow> heap \<Rightarrow> val \<Rightarrow> val \<times> heap \<Rightarrow> bool" where
  "copied t H v r \<longleftrightarrow>
     (case r of (v', H') \<Rightarrow>
        (\<exists>E. H' = H @ E) \<and> wt H' t v' \<and> view H' t v' = view H t v \<and> (\<forall>a \<in> set (addrs H' t v'). length H \<le> a))"

definition copies :: "gotype \<Rightarrow> copier \<Rightarrow> bool" where
  "copies t op \<longleftrightarrow> (\<forall>H v. wt H t v \<longrightarrow> copied t H v (op v H))"

lemma copiesD: "copies t op \<Longrightarrow> wt H t v \<Longrightarrow> copied t H v (op v H)"
  by (simp add: copies_def)

lemma copiesE:
  assumes "copies t op" and "wt H t v"
  obtains v' E where "op v H = (v', H @ E)" and "wt (H @ E) t v'" and "view (H @ E) t v' = view H t v"
    and "\<forall>a \<in> set (addrs (H @ E) t v'). length H \<le> a"
  using copiesD [OF assms] by (auto simp: copied_def split: prod.splits)

named_theorems copying "copies of the types"

text \<open>\<open>*out = *in\<close>, for a field of which nothing more is copied\<close>

definition keep :: copier where
  "keep v H = (v, H)"

text \<open>\<open>*out = new(T)\<close>, then the copy of the target\<close>

definition new_deep :: "copier \<Rightarrow> copier" where
  "new_deep op v H =
     (case v of
        VPtr (Some a) \<Rightarrow>
          (case H ! a of
             OCell w \<Rightarrow> (case op w H of (w', H') \<Rightarrow> (VPtr (Some (length H')), H' @ [OCell w']))
           | _ \<Rightarrow> (v, H))
      | _ \<Rightarrow> (v, H))"

text \<open>\<open>*out = new(T); **out = **in\<close>\<close>

definition new_plain :: copier where
  "new_plain = new_deep keep"

fun copy_list :: "copier \<Rightarrow> val list \<Rightarrow> heap \<Rightarrow> val list \<times> heap" where
  "copy_list op [] H = ([], H)"
| "copy_list op (v # vs) H = (case op v H of (v', H1) \<Rightarrow> case copy_list op vs H1 of (vs', H2) \<Rightarrow> (v' # vs', H2))"

text \<open>\<open>*out = make([]T, len(*in)); for i := range *in { (*in)[i].DeepCopyInto(&(*out)[i]) }\<close>\<close>

definition deep_slice :: "copier \<Rightarrow> copier" where
  "deep_slice op v H =
     (case v of
        VSlice (Some a) n \<Rightarrow>
          (case H ! a of
             OArray ws \<Rightarrow> (case copy_list op (take n ws) H of (ws', H') \<Rightarrow> (VSlice (Some (length H')) n, H' @ [OArray ws']))
           | _ \<Rightarrow> (v, H))
      | _ \<Rightarrow> (v, H))"

text \<open>\<open>*out = make([]T, len(*in)); copy(*out, *in)\<close>\<close>

definition copy_slice :: copier where
  "copy_slice = deep_slice keep"

text \<open>\<open>*out = make(map[string]string, len(*in)); for key, val := range *in { (*out)[key] = val }\<close>\<close>

definition copy_map :: copier where
  "copy_map v H =
     (case v of
        VMap (Some a) \<Rightarrow>
          (case H ! a of OTable m \<Rightarrow> (VMap (Some (length H)), H @ [OTable (map_merge [] m)]) | _ \<Rightarrow> (v, H))
      | _ \<Rightarrow> (v, H))"

text \<open>A struct: the fields named are copied by their functions, the others with \<open>*out = *in\<close>.\<close>

definition copier_of :: "(string \<times> copier) list \<Rightarrow> string \<Rightarrow> copier" where
  "copier_of ops n = (case map_of ops n of None \<Rightarrow> keep | Some op \<Rightarrow> op)"

fun copy_fields :: "(string \<times> copier) list \<Rightarrow> (string \<times> val) list \<Rightarrow> heap \<Rightarrow> (string \<times> val) list \<times> heap" where
  "copy_fields ops [] H = ([], H)"
| "copy_fields ops ((n, v) # fs) H =
     (case copier_of ops n v H of (v', H1) \<Rightarrow> case copy_fields ops fs H1 of (fs', H2) \<Rightarrow> ((n, v') # fs', H2))"

definition copy_struct :: "(string \<times> copier) list \<Rightarrow> copier" where
  "copy_struct ops v H =
     (case v of VStruct fs \<Rightarrow> (case copy_fields ops fs H of (fs', H') \<Rightarrow> (VStruct fs', H')) | _ \<Rightarrow> (v, H))"

section \<open>The pieces copy\<close>

lemma copies_keep [copying]: "plain t \<Longrightarrow> copies t keep"
  by (simp add: copies_def copied_def keep_def plain_addrs)

lemma copies_new_deep [copying]:
  assumes "copies t op"
  shows "copies (TPtr t) (new_deep op)"
  unfolding copies_def
proof (intro allI impI)
  fix H v assume v: "wt H (TPtr t) v"
  show "copied (TPtr t) H v (new_deep op v H)"
  proof (cases "\<exists>a. v = VPtr (Some a)")
    case True
    then obtain a where "v = VPtr (Some a)" by blast
    with v obtain w where a: "v = VPtr (Some a)" "H ! a = OCell w" "wt H t w"
      by (cases "H ! a") auto
    obtain w' E where op: "op w H = (w', H @ E)" "wt (H @ E) t w'" "view (H @ E) t w' = view H t w"
      "\<forall>b \<in> set (addrs (H @ E) t w'). length H \<le> b"
      by (rule copiesE [OF assms a(3)])
    have "wt (H @ E @ [OCell w']) t w' \<and> view (H @ E @ [OCell w']) t w' = view (H @ E) t w'
        \<and> addrs (H @ E @ [OCell w']) t w' = addrs (H @ E) t w'"
      using frame_extension [OF op(2), of "[OCell w']"] by simp
    then show ?thesis using a op by (auto simp: new_deep_def copied_def nth_append)
  qed (use v in \<open>auto simp: new_deep_def copied_def split: val.splits option.splits\<close>)
qed

lemma copies_new_plain [copying]: "plain t \<Longrightarrow> copies (TPtr t) new_plain"
  unfolding new_plain_def by (intro copying)

lemma copy_list_copies:
  assumes "copies t op" and "list_all (wt H t) vs"
  shows "\<exists>vs' E. copy_list op vs H = (vs', H @ E) \<and> list_all (wt (H @ E) t) vs' \<and> length vs' = length vs
    \<and> map (view (H @ E) t) vs' = map (view H t) vs
    \<and> (\<forall>v \<in> set vs'. \<forall>a \<in> set (addrs (H @ E) t v). length H \<le> a)"
  using assms(2)
proof (induction vs arbitrary: H)
  case (Cons v vs)
  then have v: "wt H t v" by simp
  obtain v' E1 where op: "op v H = (v', H @ E1)" "wt (H @ E1) t v'" "view (H @ E1) t v' = view H t v"
    "\<forall>a \<in> set (addrs (H @ E1) t v'). length H \<le> a"
    by (rule copiesE [OF assms(1) v])
  have rest: "list_all (wt (H @ E1) t) vs" and same: "map (view (H @ E1) t) vs = map (view H t) vs"
    using Cons.prems frame_extension [where E = E1 and H = H and t = t] by (auto simp: list_all_iff)
  obtain vs' E2 where ih: "copy_list op vs (H @ E1) = (vs', (H @ E1) @ E2)" "list_all (wt ((H @ E1) @ E2) t) vs'"
    "length vs' = length vs" "map (view ((H @ E1) @ E2) t) vs' = map (view (H @ E1) t) vs"
    "\<forall>v \<in> set vs'. \<forall>a \<in> set (addrs ((H @ E1) @ E2) t v). length (H @ E1) \<le> a"
    using Cons.IH [OF rest] by blast
  have "wt ((H @ E1) @ E2) t v' \<and> view ((H @ E1) @ E2) t v' = view H t v
      \<and> addrs ((H @ E1) @ E2) t v' = addrs (H @ E1) t v'"
    using frame_extension [OF op(2), of E2] op(3) by simp
  then show ?case using op(1,4) ih same by (intro exI [of _ "v' # vs'"] exI [of _ "E1 @ E2"]) fastforce
qed simp

lemma copies_deep_slice [copying]:
  assumes "copies t op"
  shows "copies (TSlice t) (deep_slice op)"
  unfolding copies_def
proof (intro allI impI)
  fix H v assume v: "wt H (TSlice t) v"
  show "copied (TSlice t) H v (deep_slice op v H)"
  proof (cases "\<exists>a n. v = VSlice (Some a) n")
    case True
    then obtain a n where "v = VSlice (Some a) n" by blast
    with v obtain ws where a: "v = VSlice (Some a) n" "H ! a = OArray ws" "n \<le> length ws" "list_all (wt H t) (take n ws)"
      by (cases "H ! a") auto
    obtain ws' E where c: "copy_list op (take n ws) H = (ws', H @ E)" "list_all (wt (H @ E) t) ws'" "length ws' = n"
      "map (view (H @ E) t) ws' = map (view H t) (take n ws)"
      "\<forall>v \<in> set ws'. \<forall>a \<in> set (addrs (H @ E) t v). length H \<le> a"
      using copy_list_copies [OF assms a(4)] a(3) by (auto simp: min_def)
    have "wt (H @ E @ [OArray ws']) t w \<and> view (H @ E @ [OArray ws']) t w = view (H @ E) t w
        \<and> addrs (H @ E @ [OArray ws']) t w = addrs (H @ E) t w" if "w \<in> set ws'" for w
      using frame_extension [of "H @ E" t w "[OArray ws']"] c(2) that by (simp add: list_all_iff)
    then have "list_all (wt (H @ E @ [OArray ws']) t) ws'"
      "map (view (H @ E @ [OArray ws']) t) ws' = map (view (H @ E) t) ws'"
      "map (addrs (H @ E @ [OArray ws']) t) ws' = map (addrs (H @ E) t) ws'"
      by (auto simp: list_all_iff)
    then show ?thesis using a c by (auto simp: deep_slice_def copied_def nth_append)
  qed (use v in \<open>auto simp: deep_slice_def copied_def split: val.splits option.splits\<close>)
qed

lemma copies_copy_slice [copying]: "plain t \<Longrightarrow> copies (TSlice t) copy_slice"
  unfolding copy_slice_def by (intro copying)

lemma map_put_fresh: "k \<notin> fst ` set m \<Longrightarrow> map_put k v m = m @ [(k, v)]"
  by (induction m) auto

lemma map_merge_fresh: "fst ` set m \<inter> fst ` set dst = {} \<Longrightarrow> wf_map m \<Longrightarrow> map_merge dst m = dst @ m"
proof (induction dst m rule: map_merge.induct)
  case (2 dst k v src)
  then have "map_put k v dst = dst @ [(k, v)]" by (auto intro!: map_put_fresh)
  then show ?case using 2 by auto
qed simp

lemma copies_copy_map [copying]: "copies TMap copy_map"
  using map_merge_fresh [where dst = "[]"]
  by (auto simp: copies_def copied_def copy_map_def nth_append split: val.splits option.splits object.splits)

lemma copy_fields_copies:
  assumes "list_all (\<lambda>(n, t). copies t (copier_of ops n)) fts" and "wt_fields H fts fs"
  shows "\<exists>fs' E. copy_fields ops fs H = (fs', H @ E) \<and> wt_fields (H @ E) fts fs'
    \<and> view_fields (H @ E) fts fs' = view_fields H fts fs \<and> (\<forall>a \<in> set (addrs_fields (H @ E) fts fs'). length H \<le> a)"
  using assms
proof (induction fts arbitrary: fs H)
  case (Cons nt fts)
  obtain n t where nt: "nt = (n, t)" by fastforce
  with Cons.prems obtain v fs1 where fs: "fs = (n, v) # fs1" "wt H t v" "wt_fields H fts fs1"
    by (auto split: list.splits)
  have c: "copies t (copier_of ops n)" using Cons.prems nt by simp
  obtain v' E1 where op: "copier_of ops n v H = (v', H @ E1)" "wt (H @ E1) t v'" "view (H @ E1) t v' = view H t v"
    "\<forall>a \<in> set (addrs (H @ E1) t v'). length H \<le> a"
    by (rule copiesE [OF c fs(2)])
  have "wt_fields (H @ E1) fts fs1 \<and> view_fields (H @ E1) fts fs1 = view_fields H fts fs1"
    by (rule frame_extension_fields [OF fs(3)])
  then obtain fs' E2 where ih: "copy_fields ops fs1 (H @ E1) = (fs', (H @ E1) @ E2)"
    "wt_fields ((H @ E1) @ E2) fts fs'" "view_fields ((H @ E1) @ E2) fts fs' = view_fields H fts fs1"
    "\<forall>a \<in> set (addrs_fields ((H @ E1) @ E2) fts fs'). length (H @ E1) \<le> a"
    using Cons.IH [of "H @ E1" fs1] Cons.prems(1) nt by auto
  have "wt ((H @ E1) @ E2) t v' \<and> view ((H @ E1) @ E2) t v' = view H t v
      \<and> addrs ((H @ E1) @ E2) t v' = addrs (H @ E1) t v'"
    using frame_extension [OF op(2), of E2] op(3) by simp
  then show ?case using op(1,4) ih fs nt by (intro exI [of _ "(n, v') # fs'"] exI [of _ "E1 @ E2"]) fastforce
qed simp

lemma copies_struct:
  assumes "list_all (\<lambda>(n, t). copies t (copier_of ops n)) fts"
  shows "copies (TStruct fts) (copy_struct ops)"
  unfolding copies_def
proof (intro allI impI)
  fix H v assume "wt H (TStruct fts) v"
  then obtain fs where fs: "v = VStruct fs" "wt_fields H fts fs" by (auto split: val.splits)
  then show "copied (TStruct fts) H v (copy_struct ops v H)"
    using copy_fields_copies [OF assms fs(2)] by (auto simp: copied_def copy_struct_def)
qed

section \<open>Independence\<close>

text \<open>What is written to the copy does not show in the original, nor the other way round.\<close>

lemma copy_isolated:
  assumes "copies t op" and "wt H t v" and "op v H = (v', H')"
  shows "view H' t v' = view H t v \<and> view H' t v = view H t v
    \<and> (\<forall>a \<in> set (addrs H' t v'). length H \<le> a \<and> a < length H')
    \<and> (\<forall>a \<ge> length H. \<forall>x. view (H'[a := x]) t v = view H t v)
    \<and> (\<forall>a < length H. \<forall>x. view (H'[a := x]) t v' = view H t v)"
proof -
  obtain E where E: "H' = H @ E" "wt H' t v'" "view H' t v' = view H t v" "\<forall>a \<in> set (addrs H' t v'). length H \<le> a"
    using copiesD [OF assms(1,2)] assms(3) by (auto simp: copied_def)
  have orig: "wt H' t v" "view H' t v = view H t v" "addrs H' t v = addrs H t v"
    using frame_extension [OF assms(2), of E] E(1) by simp_all
  have "view (H'[a := x]) t v = view H t v" if "length H \<le> a" for a x
    using frame(1) [OF orig(1), of "H'[a := x]"] orig wt_addrs(1) [OF assms(2)] wt_addrs(1) [OF orig(1)] that
    by (fastforce simp: agree_def nth_list_update)
  moreover have "view (H'[a := x]) t v' = view H t v" if "a < length H" for a x
    using frame(1) [OF E(2), of "H'[a := x]"] E(3,4) wt_addrs(1) [OF E(2)] that
    by (fastforce simp: agree_def nth_list_update)
  ultimately show ?thesis using E orig wt_addrs(1) [OF E(2)] by blast
qed

end
