(* ===== verification/DeepCopy.thy ===== *)
theory DeepCopy
  imports GoMemory
begin

text \<open>
  \<open>api/v1/zz_generated.deepcopy.go\<close>, with the struct types of \<open>appdefinition_types.go\<close> it copies: for each
  struct the type, field by field, what \<open>DeepCopyInto\<close> does with each field, and \<open>DeepCopy\<close>. The controller
  and the API server change objects they get from a shared cache only after such a copy.

  The structs of the Kubernetes libraries are parameters: \<open>lt\<close> gives their types and \<open>L\<close> their
  \<open>DeepCopyInto\<close>. Where the generated code assigns one of them, or copies a slice of them with \<open>copy\<close>,
  it relies on the struct having no references.
\<close>

section \<open>The library's structs\<close>

definition lib_ok :: "(string \<Rightarrow> gotype) \<Rightarrow> (string \<Rightarrow> copier) \<Rightarrow> bool" where
  "lib_ok lt L \<longleftrightarrow>
     (\<forall>n. copies (lt n) (L n))
     \<and> plain (lt ''TypeMeta'') \<and> plain (lt ''TCPSocketAction'') \<and> plain (lt ''LocalObjectReference'')"

lemma lib_okD:
  "lib_ok lt L \<Longrightarrow> copies (lt n) (L n)"
  "lib_ok lt L \<Longrightarrow> plain (lt ''TypeMeta'')"
  "lib_ok lt L \<Longrightarrow> plain (lt ''TCPSocketAction'')"
  "lib_ok lt L \<Longrightarrow> plain (lt ''LocalObjectReference'')"
  by (simp_all add: lib_ok_def)

section \<open>The structs\<close>

definition type_MetricsSpec :: "gotype" where
  "type_MetricsSpec = TStruct
     [(''Enabled'', TScalar), (''Path'', TScalar), (''Interval'', TScalar), (''Labels'', TMap)]"

definition deepCopyInto_MetricsSpec :: "copier" where
  "deepCopyInto_MetricsSpec = copy_struct
     [(''Labels'', copy_map)]"

definition deepCopy_MetricsSpec :: "copier" where
  "deepCopy_MetricsSpec = new_deep deepCopyInto_MetricsSpec"

lemma copies_MetricsSpec [copying]: "copies type_MetricsSpec deepCopyInto_MetricsSpec"
  unfolding type_MetricsSpec_def deepCopyInto_MetricsSpec_def
  by (rule copies_struct) (auto simp: copier_of_def intro!: copying)

definition type_PortSpec :: "gotype" where
  "type_PortSpec = TStruct
     [(''Name'', TScalar), (''ContainerPort'', TScalar), (''ServicePort'', TScalar), (''Protocol'', TScalar),
      (''Expose'', TScalar), (''Metrics'', TPtr type_MetricsSpec)]"

definition deepCopyInto_PortSpec :: "copier" where
  "deepCopyInto_PortSpec = copy_struct
     [(''Metrics'', new_deep deepCopyInto_MetricsSpec)]"

definition deepCopy_PortSpec :: "copier" where
  "deepCopy_PortSpec = new_deep deepCopyInto_PortSpec"

lemma copies_PortSpec [copying]: "copies type_PortSpec deepCopyInto_PortSpec"
  unfolding type_PortSpec_def deepCopyInto_PortSpec_def
  by (rule copies_struct) (auto simp: copier_of_def intro!: copying)

definition type_Probe :: "(string \<Rightarrow> gotype) \<Rightarrow> gotype" where
  "type_Probe lt = TStruct
     [(''Type'', TScalar), (''HTTPGet'', TPtr (lt ''HTTPGetAction'')),
      (''TCPSocket'', TPtr (lt ''TCPSocketAction'')), (''Exec'', TPtr (lt ''ExecAction'')),
      (''InitialDelaySeconds'', TScalar), (''PeriodSeconds'', TScalar), (''TimeoutSeconds'', TScalar),
      (''FailureThreshold'', TScalar), (''SuccessThreshold'', TScalar)]"

definition deepCopyInto_Probe :: "(string \<Rightarrow> copier) \<Rightarrow> copier" where
  "deepCopyInto_Probe L = copy_struct
     [(''HTTPGet'', new_deep (L ''HTTPGetAction'')), (''TCPSocket'', new_plain),
      (''Exec'', new_deep (L ''ExecAction''))]"

definition deepCopy_Probe :: "(string \<Rightarrow> copier) \<Rightarrow> copier" where
  "deepCopy_Probe L = new_deep (deepCopyInto_Probe L)"

lemma copies_Probe [copying]: "lib_ok lt L \<Longrightarrow> copies (type_Probe lt) (deepCopyInto_Probe L)"
  unfolding type_Probe_def deepCopyInto_Probe_def
  by (rule copies_struct) (auto simp: copier_of_def lib_okD [of lt L] intro!: copying)

definition type_DiskPartition :: "gotype" where
  "type_DiskPartition = TStruct
     [(''SubPath'', TScalar), (''MountPath'', TScalar)]"

definition deepCopyInto_DiskPartition :: "copier" where
  "deepCopyInto_DiskPartition = copy_struct []"

definition deepCopy_DiskPartition :: "copier" where
  "deepCopy_DiskPartition = new_deep deepCopyInto_DiskPartition"

lemma plain_DiskPartition [simp]: "plain type_DiskPartition"
  by (simp add: type_DiskPartition_def)

lemma copies_DiskPartition [copying]: "copies type_DiskPartition deepCopyInto_DiskPartition"
  unfolding type_DiskPartition_def deepCopyInto_DiskPartition_def
  by (rule copies_struct) (auto simp: copier_of_def intro!: copying)

definition type_DiskConfig :: "gotype" where
  "type_DiskConfig = TStruct
     [(''SizeInGi'', TScalar), (''StorageClassName'', TScalar), (''SetFsGroup'', TScalar),
      (''Partitions'', TSlice type_DiskPartition), (''Annotations'', TMap), (''Protect'', TScalar)]"

definition deepCopyInto_DiskConfig :: "copier" where
  "deepCopyInto_DiskConfig = copy_struct
     [(''Partitions'', copy_slice), (''Annotations'', copy_map)]"

definition deepCopy_DiskConfig :: "copier" where
  "deepCopy_DiskConfig = new_deep deepCopyInto_DiskConfig"

lemma copies_DiskConfig [copying]: "copies type_DiskConfig deepCopyInto_DiskConfig"
  unfolding type_DiskConfig_def deepCopyInto_DiskConfig_def
  by (rule copies_struct) (auto simp: copier_of_def intro!: copying)

definition type_LoggingFile :: "gotype" where
  "type_LoggingFile = TStruct
     [(''Path'', TScalar), (''Format'', TScalar), (''MultilinePattern'', TScalar)]"

definition deepCopyInto_LoggingFile :: "copier" where
  "deepCopyInto_LoggingFile = copy_struct []"

definition deepCopy_LoggingFile :: "copier" where
  "deepCopy_LoggingFile = new_deep deepCopyInto_LoggingFile"

lemma plain_LoggingFile [simp]: "plain type_LoggingFile"
  by (simp add: type_LoggingFile_def)

lemma copies_LoggingFile [copying]: "copies type_LoggingFile deepCopyInto_LoggingFile"
  unfolding type_LoggingFile_def deepCopyInto_LoggingFile_def
  by (rule copies_struct) (auto simp: copier_of_def intro!: copying)

definition type_LoggingStream :: "gotype" where
  "type_LoggingStream = TStruct
     [(''Enabled'', TScalar), (''Format'', TScalar)]"

definition deepCopyInto_LoggingStream :: "copier" where
  "deepCopyInto_LoggingStream = copy_struct []"

definition deepCopy_LoggingStream :: "copier" where
  "deepCopy_LoggingStream = new_deep deepCopyInto_LoggingStream"

lemma plain_LoggingStream [simp]: "plain type_LoggingStream"
  by (simp add: type_LoggingStream_def)

lemma copies_LoggingStream [copying]: "copies type_LoggingStream deepCopyInto_LoggingStream"
  unfolding type_LoggingStream_def deepCopyInto_LoggingStream_def
  by (rule copies_struct) (auto simp: copier_of_def intro!: copying)

definition type_LoggingConfig :: "gotype" where
  "type_LoggingConfig = TStruct
     [(''Stdout'', TPtr type_LoggingStream), (''Stderr'', TPtr type_LoggingStream),
      (''Files'', TSlice type_LoggingFile)]"

definition deepCopyInto_LoggingConfig :: "copier" where
  "deepCopyInto_LoggingConfig = copy_struct
     [(''Stdout'', new_plain), (''Stderr'', new_plain), (''Files'', copy_slice)]"

definition deepCopy_LoggingConfig :: "copier" where
  "deepCopy_LoggingConfig = new_deep deepCopyInto_LoggingConfig"

lemma copies_LoggingConfig [copying]: "copies type_LoggingConfig deepCopyInto_LoggingConfig"
  unfolding type_LoggingConfig_def deepCopyInto_LoggingConfig_def
  by (rule copies_struct) (auto simp: copier_of_def intro!: copying)

definition type_ContainerSpec :: "(string \<Rightarrow> gotype) \<Rightarrow> gotype" where
  "type_ContainerSpec lt = TStruct
     [(''Name'', TScalar), (''Image'', TScalar), (''Command'', TSlice TScalar), (''Args'', TSlice TScalar),
      (''Env'', TSlice (lt ''EnvVar'')), (''Ports'', TSlice type_PortSpec),
      (''ReadinessProbe'', TPtr (type_Probe lt)), (''LivenessProbe'', TPtr (type_Probe lt)),
      (''Resources'', lt ''ResourceRequirements'')]"

definition deepCopyInto_ContainerSpec :: "(string \<Rightarrow> copier) \<Rightarrow> copier" where
  "deepCopyInto_ContainerSpec L = copy_struct
     [(''Command'', copy_slice), (''Args'', copy_slice), (''Env'', deep_slice (L ''EnvVar'')),
      (''Ports'', deep_slice deepCopyInto_PortSpec), (''ReadinessProbe'', new_deep (deepCopyInto_Probe L)),
      (''LivenessProbe'', new_deep (deepCopyInto_Probe L)), (''Resources'', L ''ResourceRequirements'')]"

definition deepCopy_ContainerSpec :: "(string \<Rightarrow> copier) \<Rightarrow> copier" where
  "deepCopy_ContainerSpec L = new_deep (deepCopyInto_ContainerSpec L)"

lemma copies_ContainerSpec [copying]: "lib_ok lt L \<Longrightarrow> copies (type_ContainerSpec lt) (deepCopyInto_ContainerSpec L)"
  unfolding type_ContainerSpec_def deepCopyInto_ContainerSpec_def
  by (rule copies_struct) (auto simp: copier_of_def lib_okD [of lt L] intro!: copying)

definition type_InitContainerSpec :: "(string \<Rightarrow> gotype) \<Rightarrow> gotype" where
  "type_InitContainerSpec lt = TStruct
     [(''Name'', TScalar), (''Image'', TScalar), (''Command'', TSlice TScalar), (''Args'', TSlice TScalar),
      (''Env'', TSlice (lt ''EnvVar'')), (''Resources'', lt ''ResourceRequirements'')]"

definition deepCopyInto_InitContainerSpec :: "(string \<Rightarrow> copier) \<Rightarrow> copier" where
  "deepCopyInto_InitContainerSpec L = copy_struct
     [(''Command'', copy_slice), (''Args'', copy_slice), (''Env'', deep_slice (L ''EnvVar'')),
      (''Resources'', L ''ResourceRequirements'')]"

definition deepCopy_InitContainerSpec :: "(string \<Rightarrow> copier) \<Rightarrow> copier" where
  "deepCopy_InitContainerSpec L = new_deep (deepCopyInto_InitContainerSpec L)"

lemma copies_InitContainerSpec [copying]: "lib_ok lt L \<Longrightarrow> copies (type_InitContainerSpec lt) (deepCopyInto_InitContainerSpec L)"
  unfolding type_InitContainerSpec_def deepCopyInto_InitContainerSpec_def
  by (rule copies_struct) (auto simp: copier_of_def lib_okD [of lt L] intro!: copying)

definition type_AutoscalingSpec :: "gotype" where
  "type_AutoscalingSpec = TStruct
     [(''Enabled'', TScalar), (''MinReplicas'', TPtr TScalar), (''MaxReplicas'', TScalar),
      (''TargetCPUUtilizationPercentage'', TPtr TScalar), (''TargetMemoryUtilizationPercentage'', TPtr TScalar)]"

definition deepCopyInto_AutoscalingSpec :: "copier" where
  "deepCopyInto_AutoscalingSpec = copy_struct
     [(''MinReplicas'', new_plain), (''TargetCPUUtilizationPercentage'', new_plain),
      (''TargetMemoryUtilizationPercentage'', new_plain)]"

definition deepCopy_AutoscalingSpec :: "copier" where
  "deepCopy_AutoscalingSpec = new_deep deepCopyInto_AutoscalingSpec"

lemma copies_AutoscalingSpec [copying]: "copies type_AutoscalingSpec deepCopyInto_AutoscalingSpec"
  unfolding type_AutoscalingSpec_def deepCopyInto_AutoscalingSpec_def
  by (rule copies_struct) (auto simp: copier_of_def intro!: copying)

definition type_ExternalSecretRemoteRef :: "gotype" where
  "type_ExternalSecretRemoteRef = TStruct
     [(''Key'', TScalar), (''Property'', TScalar), (''Version'', TScalar)]"

definition deepCopyInto_ExternalSecretRemoteRef :: "copier" where
  "deepCopyInto_ExternalSecretRemoteRef = copy_struct []"

definition deepCopy_ExternalSecretRemoteRef :: "copier" where
  "deepCopy_ExternalSecretRemoteRef = new_deep deepCopyInto_ExternalSecretRemoteRef"

lemma plain_ExternalSecretRemoteRef [simp]: "plain type_ExternalSecretRemoteRef"
  by (simp add: type_ExternalSecretRemoteRef_def)

lemma copies_ExternalSecretRemoteRef [copying]: "copies type_ExternalSecretRemoteRef deepCopyInto_ExternalSecretRemoteRef"
  unfolding type_ExternalSecretRemoteRef_def deepCopyInto_ExternalSecretRemoteRef_def
  by (rule copies_struct) (auto simp: copier_of_def intro!: copying)

definition type_ExternalSecretData :: "gotype" where
  "type_ExternalSecretData = TStruct
     [(''SecretKey'', TScalar), (''RemoteRef'', type_ExternalSecretRemoteRef)]"

definition deepCopyInto_ExternalSecretData :: "copier" where
  "deepCopyInto_ExternalSecretData = copy_struct
     [(''RemoteRef'', keep)]"

definition deepCopy_ExternalSecretData :: "copier" where
  "deepCopy_ExternalSecretData = new_deep deepCopyInto_ExternalSecretData"

lemma plain_ExternalSecretData [simp]: "plain type_ExternalSecretData"
  by (simp add: type_ExternalSecretData_def)

lemma copies_ExternalSecretData [copying]: "copies type_ExternalSecretData deepCopyInto_ExternalSecretData"
  unfolding type_ExternalSecretData_def deepCopyInto_ExternalSecretData_def
  by (rule copies_struct) (auto simp: copier_of_def intro!: copying)

definition type_ExternalSecretDataFrom :: "gotype" where
  "type_ExternalSecretDataFrom = TStruct
     [(''Key'', TScalar), (''Version'', TScalar)]"

definition deepCopyInto_ExternalSecretDataFrom :: "copier" where
  "deepCopyInto_ExternalSecretDataFrom = copy_struct []"

definition deepCopy_ExternalSecretDataFrom :: "copier" where
  "deepCopy_ExternalSecretDataFrom = new_deep deepCopyInto_ExternalSecretDataFrom"

lemma plain_ExternalSecretDataFrom [simp]: "plain type_ExternalSecretDataFrom"
  by (simp add: type_ExternalSecretDataFrom_def)

lemma copies_ExternalSecretDataFrom [copying]: "copies type_ExternalSecretDataFrom deepCopyInto_ExternalSecretDataFrom"
  unfolding type_ExternalSecretDataFrom_def deepCopyInto_ExternalSecretDataFrom_def
  by (rule copies_struct) (auto simp: copier_of_def intro!: copying)

definition type_ExternalSecretMount :: "gotype" where
  "type_ExternalSecretMount = TStruct
     [(''Name'', TScalar), (''Store'', TScalar), (''StoreKind'', TScalar), (''RefreshInterval'', TScalar),
      (''MountPath'', TScalar), (''AsEnvVars'', TScalar), (''Data'', TSlice type_ExternalSecretData),
      (''DataFrom'', TSlice type_ExternalSecretDataFrom)]"

definition deepCopyInto_ExternalSecretMount :: "copier" where
  "deepCopyInto_ExternalSecretMount = copy_struct
     [(''Data'', copy_slice), (''DataFrom'', copy_slice)]"

definition deepCopy_ExternalSecretMount :: "copier" where
  "deepCopy_ExternalSecretMount = new_deep deepCopyInto_ExternalSecretMount"

lemma copies_ExternalSecretMount [copying]: "copies type_ExternalSecretMount deepCopyInto_ExternalSecretMount"
  unfolding type_ExternalSecretMount_def deepCopyInto_ExternalSecretMount_def
  by (rule copies_struct) (auto simp: copier_of_def intro!: copying)

definition type_VaultSecretStoreSpec :: "gotype" where
  "type_VaultSecretStoreSpec = TStruct
     [(''Server'', TScalar), (''Path'', TScalar), (''Version'', TScalar), (''AuthMountPath'', TScalar),
      (''Role'', TScalar)]"

definition deepCopyInto_VaultSecretStoreSpec :: "copier" where
  "deepCopyInto_VaultSecretStoreSpec = copy_struct []"

definition deepCopy_VaultSecretStoreSpec :: "copier" where
  "deepCopy_VaultSecretStoreSpec = new_deep deepCopyInto_VaultSecretStoreSpec"

lemma plain_VaultSecretStoreSpec [simp]: "plain type_VaultSecretStoreSpec"
  by (simp add: type_VaultSecretStoreSpec_def)

lemma copies_VaultSecretStoreSpec [copying]: "copies type_VaultSecretStoreSpec deepCopyInto_VaultSecretStoreSpec"
  unfolding type_VaultSecretStoreSpec_def deepCopyInto_VaultSecretStoreSpec_def
  by (rule copies_struct) (auto simp: copier_of_def intro!: copying)

definition type_SecretStoreSpec :: "gotype" where
  "type_SecretStoreSpec = TStruct
     [(''Name'', TScalar), (''Scope'', TScalar), (''Vault'', type_VaultSecretStoreSpec)]"

definition deepCopyInto_SecretStoreSpec :: "copier" where
  "deepCopyInto_SecretStoreSpec = copy_struct
     [(''Vault'', keep)]"

definition deepCopy_SecretStoreSpec :: "copier" where
  "deepCopy_SecretStoreSpec = new_deep deepCopyInto_SecretStoreSpec"

lemma plain_SecretStoreSpec [simp]: "plain type_SecretStoreSpec"
  by (simp add: type_SecretStoreSpec_def)

lemma copies_SecretStoreSpec [copying]: "copies type_SecretStoreSpec deepCopyInto_SecretStoreSpec"
  unfolding type_SecretStoreSpec_def deepCopyInto_SecretStoreSpec_def
  by (rule copies_struct) (auto simp: copier_of_def intro!: copying)

definition type_ConfigMapMount :: "gotype" where
  "type_ConfigMapMount = TStruct
     [(''Name'', TScalar), (''MountPath'', TScalar), (''Data'', TMap)]"

definition deepCopyInto_ConfigMapMount :: "copier" where
  "deepCopyInto_ConfigMapMount = copy_struct
     [(''Data'', copy_map)]"

definition deepCopy_ConfigMapMount :: "copier" where
  "deepCopy_ConfigMapMount = new_deep deepCopyInto_ConfigMapMount"

lemma copies_ConfigMapMount [copying]: "copies type_ConfigMapMount deepCopyInto_ConfigMapMount"
  unfolding type_ConfigMapMount_def deepCopyInto_ConfigMapMount_def
  by (rule copies_struct) (auto simp: copier_of_def intro!: copying)

definition type_SecretMount :: "gotype" where
  "type_SecretMount = TStruct
     [(''Name'', TScalar), (''MountPath'', TScalar), (''AsEnvVars'', TScalar), (''Data'', TMap),
      (''SecretRef'', TScalar)]"

definition deepCopyInto_SecretMount :: "copier" where
  "deepCopyInto_SecretMount = copy_struct
     [(''Data'', copy_map)]"

definition deepCopy_SecretMount :: "copier" where
  "deepCopy_SecretMount = new_deep deepCopyInto_SecretMount"

lemma copies_SecretMount [copying]: "copies type_SecretMount deepCopyInto_SecretMount"
  unfolding type_SecretMount_def deepCopyInto_SecretMount_def
  by (rule copies_struct) (auto simp: copier_of_def intro!: copying)

definition type_RedirectSchemeSpec :: "gotype" where
  "type_RedirectSchemeSpec = TStruct
     [(''Scheme'', TScalar), (''Permanent'', TScalar), (''Port'', TScalar)]"

definition deepCopyInto_RedirectSchemeSpec :: "copier" where
  "deepCopyInto_RedirectSchemeSpec = copy_struct []"

definition deepCopy_RedirectSchemeSpec :: "copier" where
  "deepCopy_RedirectSchemeSpec = new_deep deepCopyInto_RedirectSchemeSpec"

lemma plain_RedirectSchemeSpec [simp]: "plain type_RedirectSchemeSpec"
  by (simp add: type_RedirectSchemeSpec_def)

lemma copies_RedirectSchemeSpec [copying]: "copies type_RedirectSchemeSpec deepCopyInto_RedirectSchemeSpec"
  unfolding type_RedirectSchemeSpec_def deepCopyInto_RedirectSchemeSpec_def
  by (rule copies_struct) (auto simp: copier_of_def intro!: copying)

definition type_IPStrategySpec :: "gotype" where
  "type_IPStrategySpec = TStruct
     [(''Depth'', TScalar), (''ExcludedIPs'', TSlice TScalar)]"

definition deepCopyInto_IPStrategySpec :: "copier" where
  "deepCopyInto_IPStrategySpec = copy_struct
     [(''ExcludedIPs'', copy_slice)]"

definition deepCopy_IPStrategySpec :: "copier" where
  "deepCopy_IPStrategySpec = new_deep deepCopyInto_IPStrategySpec"

lemma copies_IPStrategySpec [copying]: "copies type_IPStrategySpec deepCopyInto_IPStrategySpec"
  unfolding type_IPStrategySpec_def deepCopyInto_IPStrategySpec_def
  by (rule copies_struct) (auto simp: copier_of_def intro!: copying)

definition type_IPWhiteListSpec :: "gotype" where
  "type_IPWhiteListSpec = TStruct
     [(''SourceRange'', TSlice TScalar), (''IPStrategy'', TPtr type_IPStrategySpec)]"

definition deepCopyInto_IPWhiteListSpec :: "copier" where
  "deepCopyInto_IPWhiteListSpec = copy_struct
     [(''SourceRange'', copy_slice), (''IPStrategy'', new_deep deepCopyInto_IPStrategySpec)]"

definition deepCopy_IPWhiteListSpec :: "copier" where
  "deepCopy_IPWhiteListSpec = new_deep deepCopyInto_IPWhiteListSpec"

lemma copies_IPWhiteListSpec [copying]: "copies type_IPWhiteListSpec deepCopyInto_IPWhiteListSpec"
  unfolding type_IPWhiteListSpec_def deepCopyInto_IPWhiteListSpec_def
  by (rule copies_struct) (auto simp: copier_of_def intro!: copying)

definition type_BasicAuthSpec :: "gotype" where
  "type_BasicAuthSpec = TStruct
     [(''SecretName'', TScalar), (''Realm'', TScalar), (''RemoveHeader'', TScalar), (''HeaderField'', TScalar)]"

definition deepCopyInto_BasicAuthSpec :: "copier" where
  "deepCopyInto_BasicAuthSpec = copy_struct []"

definition deepCopy_BasicAuthSpec :: "copier" where
  "deepCopy_BasicAuthSpec = new_deep deepCopyInto_BasicAuthSpec"

lemma plain_BasicAuthSpec [simp]: "plain type_BasicAuthSpec"
  by (simp add: type_BasicAuthSpec_def)

lemma copies_BasicAuthSpec [copying]: "copies type_BasicAuthSpec deepCopyInto_BasicAuthSpec"
  unfolding type_BasicAuthSpec_def deepCopyInto_BasicAuthSpec_def
  by (rule copies_struct) (auto simp: copier_of_def intro!: copying)

definition type_ForwardAuthSpec :: "gotype" where
  "type_ForwardAuthSpec = TStruct
     [(''Address'', TScalar), (''TrustForwardHeader'', TScalar), (''AuthResponseHeaders'', TSlice TScalar),
      (''AuthRequestHeaders'', TSlice TScalar), (''TLSInsecureSkipVerify'', TScalar)]"

definition deepCopyInto_ForwardAuthSpec :: "copier" where
  "deepCopyInto_ForwardAuthSpec = copy_struct
     [(''AuthResponseHeaders'', copy_slice), (''AuthRequestHeaders'', copy_slice)]"

definition deepCopy_ForwardAuthSpec :: "copier" where
  "deepCopy_ForwardAuthSpec = new_deep deepCopyInto_ForwardAuthSpec"

lemma copies_ForwardAuthSpec [copying]: "copies type_ForwardAuthSpec deepCopyInto_ForwardAuthSpec"
  unfolding type_ForwardAuthSpec_def deepCopyInto_ForwardAuthSpec_def
  by (rule copies_struct) (auto simp: copier_of_def intro!: copying)

definition type_HeadersSpec :: "gotype" where
  "type_HeadersSpec = TStruct
     [(''CustomRequestHeaders'', TMap), (''CustomResponseHeaders'', TMap), (''STSSeconds'', TScalar),
      (''STSIncludeSubdomains'', TScalar), (''STSPreload'', TScalar), (''ForceSTSHeader'', TScalar),
      (''FrameDeny'', TScalar), (''ContentTypeNosniff'', TScalar),
      (''AccessControlAllowOriginList'', TSlice TScalar), (''AccessControlAllowMethods'', TSlice TScalar),
      (''AccessControlAllowHeaders'', TSlice TScalar), (''AccessControlAllowCredentials'', TScalar)]"

definition deepCopyInto_HeadersSpec :: "copier" where
  "deepCopyInto_HeadersSpec = copy_struct
     [(''CustomRequestHeaders'', copy_map), (''CustomResponseHeaders'', copy_map),
      (''AccessControlAllowOriginList'', copy_slice), (''AccessControlAllowMethods'', copy_slice),
      (''AccessControlAllowHeaders'', copy_slice)]"

definition deepCopy_HeadersSpec :: "copier" where
  "deepCopy_HeadersSpec = new_deep deepCopyInto_HeadersSpec"

lemma copies_HeadersSpec [copying]: "copies type_HeadersSpec deepCopyInto_HeadersSpec"
  unfolding type_HeadersSpec_def deepCopyInto_HeadersSpec_def
  by (rule copies_struct) (auto simp: copier_of_def intro!: copying)

definition type_RateLimitSpec :: "gotype" where
  "type_RateLimitSpec = TStruct
     [(''Average'', TScalar), (''Burst'', TScalar), (''Period'', TScalar)]"

definition deepCopyInto_RateLimitSpec :: "copier" where
  "deepCopyInto_RateLimitSpec = copy_struct []"

definition deepCopy_RateLimitSpec :: "copier" where
  "deepCopy_RateLimitSpec = new_deep deepCopyInto_RateLimitSpec"

lemma plain_RateLimitSpec [simp]: "plain type_RateLimitSpec"
  by (simp add: type_RateLimitSpec_def)

lemma copies_RateLimitSpec [copying]: "copies type_RateLimitSpec deepCopyInto_RateLimitSpec"
  unfolding type_RateLimitSpec_def deepCopyInto_RateLimitSpec_def
  by (rule copies_struct) (auto simp: copier_of_def intro!: copying)

definition type_CompressSpec :: "gotype" where
  "type_CompressSpec = TStruct
     [(''ExcludedContentTypes'', TSlice TScalar), (''IncludedContentTypes'', TSlice TScalar),
      (''MinResponseBodyBytes'', TPtr TScalar)]"

definition deepCopyInto_CompressSpec :: "copier" where
  "deepCopyInto_CompressSpec = copy_struct
     [(''ExcludedContentTypes'', copy_slice), (''IncludedContentTypes'', copy_slice),
      (''MinResponseBodyBytes'', new_plain)]"

definition deepCopy_CompressSpec :: "copier" where
  "deepCopy_CompressSpec = new_deep deepCopyInto_CompressSpec"

lemma copies_CompressSpec [copying]: "copies type_CompressSpec deepCopyInto_CompressSpec"
  unfolding type_CompressSpec_def deepCopyInto_CompressSpec_def
  by (rule copies_struct) (auto simp: copier_of_def intro!: copying)

definition type_StripPrefixSpec :: "gotype" where
  "type_StripPrefixSpec = TStruct
     [(''Prefixes'', TSlice TScalar)]"

definition deepCopyInto_StripPrefixSpec :: "copier" where
  "deepCopyInto_StripPrefixSpec = copy_struct
     [(''Prefixes'', copy_slice)]"

definition deepCopy_StripPrefixSpec :: "copier" where
  "deepCopy_StripPrefixSpec = new_deep deepCopyInto_StripPrefixSpec"

lemma copies_StripPrefixSpec [copying]: "copies type_StripPrefixSpec deepCopyInto_StripPrefixSpec"
  unfolding type_StripPrefixSpec_def deepCopyInto_StripPrefixSpec_def
  by (rule copies_struct) (auto simp: copier_of_def intro!: copying)

definition type_ReplacePathRegexSpec :: "gotype" where
  "type_ReplacePathRegexSpec = TStruct
     [(''Regex'', TScalar), (''Replacement'', TScalar)]"

definition deepCopyInto_ReplacePathRegexSpec :: "copier" where
  "deepCopyInto_ReplacePathRegexSpec = copy_struct []"

definition deepCopy_ReplacePathRegexSpec :: "copier" where
  "deepCopy_ReplacePathRegexSpec = new_deep deepCopyInto_ReplacePathRegexSpec"

lemma plain_ReplacePathRegexSpec [simp]: "plain type_ReplacePathRegexSpec"
  by (simp add: type_ReplacePathRegexSpec_def)

lemma copies_ReplacePathRegexSpec [copying]: "copies type_ReplacePathRegexSpec deepCopyInto_ReplacePathRegexSpec"
  unfolding type_ReplacePathRegexSpec_def deepCopyInto_ReplacePathRegexSpec_def
  by (rule copies_struct) (auto simp: copier_of_def intro!: copying)

definition type_RewriteSpec :: "gotype" where
  "type_RewriteSpec = TStruct
     [(''StripPrefix'', TPtr type_StripPrefixSpec), (''AddPrefix'', TScalar),
      (''ReplacePathRegex'', TPtr type_ReplacePathRegexSpec)]"

definition deepCopyInto_RewriteSpec :: "copier" where
  "deepCopyInto_RewriteSpec = copy_struct
     [(''StripPrefix'', new_deep deepCopyInto_StripPrefixSpec), (''ReplacePathRegex'', new_plain)]"

definition deepCopy_RewriteSpec :: "copier" where
  "deepCopy_RewriteSpec = new_deep deepCopyInto_RewriteSpec"

lemma copies_RewriteSpec [copying]: "copies type_RewriteSpec deepCopyInto_RewriteSpec"
  unfolding type_RewriteSpec_def deepCopyInto_RewriteSpec_def
  by (rule copies_struct) (auto simp: copier_of_def intro!: copying)

definition type_MiddlewaresSpec :: "gotype" where
  "type_MiddlewaresSpec = TStruct
     [(''RedirectScheme'', TPtr type_RedirectSchemeSpec), (''IPWhiteList'', TPtr type_IPWhiteListSpec),
      (''BasicAuth'', TPtr type_BasicAuthSpec), (''ForwardAuth'', TPtr type_ForwardAuthSpec),
      (''Headers'', TPtr type_HeadersSpec), (''RateLimit'', TPtr type_RateLimitSpec),
      (''Compress'', TPtr type_CompressSpec), (''Rewrite'', TPtr type_RewriteSpec)]"

definition deepCopyInto_MiddlewaresSpec :: "copier" where
  "deepCopyInto_MiddlewaresSpec = copy_struct
     [(''RedirectScheme'', new_plain), (''IPWhiteList'', new_deep deepCopyInto_IPWhiteListSpec),
      (''BasicAuth'', new_plain), (''ForwardAuth'', new_deep deepCopyInto_ForwardAuthSpec),
      (''Headers'', new_deep deepCopyInto_HeadersSpec), (''RateLimit'', new_plain),
      (''Compress'', new_deep deepCopyInto_CompressSpec), (''Rewrite'', new_deep deepCopyInto_RewriteSpec)]"

definition deepCopy_MiddlewaresSpec :: "copier" where
  "deepCopy_MiddlewaresSpec = new_deep deepCopyInto_MiddlewaresSpec"

lemma copies_MiddlewaresSpec [copying]: "copies type_MiddlewaresSpec deepCopyInto_MiddlewaresSpec"
  unfolding type_MiddlewaresSpec_def deepCopyInto_MiddlewaresSpec_def
  by (rule copies_struct) (auto simp: copier_of_def intro!: copying)

definition type_DomainSpec :: "gotype" where
  "type_DomainSpec = TStruct
     [(''Name'', TScalar), (''TLS'', TScalar), (''RedirectTLS'', TScalar), (''CertIssuer'', TScalar),
      (''Path'', TScalar), (''Annotations'', TMap), (''PortName'', TScalar), (''SecretName'', TScalar),
      (''Middlewares'', TPtr type_MiddlewaresSpec)]"

definition deepCopyInto_DomainSpec :: "copier" where
  "deepCopyInto_DomainSpec = copy_struct
     [(''Annotations'', copy_map), (''Middlewares'', new_deep deepCopyInto_MiddlewaresSpec)]"

definition deepCopy_DomainSpec :: "copier" where
  "deepCopy_DomainSpec = new_deep deepCopyInto_DomainSpec"

lemma copies_DomainSpec [copying]: "copies type_DomainSpec deepCopyInto_DomainSpec"
  unfolding type_DomainSpec_def deepCopyInto_DomainSpec_def
  by (rule copies_struct) (auto simp: copier_of_def intro!: copying)

definition type_LifecycleHook :: "(string \<Rightarrow> gotype) \<Rightarrow> gotype" where
  "type_LifecycleHook lt = TStruct
     [(''Exec'', TPtr (lt ''ExecAction''))]"

definition deepCopyInto_LifecycleHook :: "(string \<Rightarrow> copier) \<Rightarrow> copier" where
  "deepCopyInto_LifecycleHook L = copy_struct
     [(''Exec'', new_deep (L ''ExecAction''))]"

definition deepCopy_LifecycleHook :: "(string \<Rightarrow> copier) \<Rightarrow> copier" where
  "deepCopy_LifecycleHook L = new_deep (deepCopyInto_LifecycleHook L)"

lemma copies_LifecycleHook [copying]: "lib_ok lt L \<Longrightarrow> copies (type_LifecycleHook lt) (deepCopyInto_LifecycleHook L)"
  unfolding type_LifecycleHook_def deepCopyInto_LifecycleHook_def
  by (rule copies_struct) (auto simp: copier_of_def lib_okD [of lt L] intro!: copying)

definition type_LifecycleSpec :: "(string \<Rightarrow> gotype) \<Rightarrow> gotype" where
  "type_LifecycleSpec lt = TStruct
     [(''PostStart'', TPtr (type_LifecycleHook lt)), (''PreStop'', TPtr (type_LifecycleHook lt))]"

definition deepCopyInto_LifecycleSpec :: "(string \<Rightarrow> copier) \<Rightarrow> copier" where
  "deepCopyInto_LifecycleSpec L = copy_struct
     [(''PostStart'', new_deep (deepCopyInto_LifecycleHook L)),
      (''PreStop'', new_deep (deepCopyInto_LifecycleHook L))]"

definition deepCopy_LifecycleSpec :: "(string \<Rightarrow> copier) \<Rightarrow> copier" where
  "deepCopy_LifecycleSpec L = new_deep (deepCopyInto_LifecycleSpec L)"

lemma copies_LifecycleSpec [copying]: "lib_ok lt L \<Longrightarrow> copies (type_LifecycleSpec lt) (deepCopyInto_LifecycleSpec L)"
  unfolding type_LifecycleSpec_def deepCopyInto_LifecycleSpec_def
  by (rule copies_struct) (auto simp: copier_of_def lib_okD [of lt L] intro!: copying)

definition type_AppDefinitionSpec :: "(string \<Rightarrow> gotype) \<Rightarrow> gotype" where
  "type_AppDefinitionSpec lt = TStruct
     [(''Containers'', TSlice (type_ContainerSpec lt)),
      (''InitContainers'', TSlice (type_InitContainerSpec lt)), (''Replicas'', TPtr TScalar),
      (''Domains'', TSlice type_DomainSpec), (''Disk'', TPtr type_DiskConfig),
      (''LoggingConfig'', TPtr type_LoggingConfig), (''Lifecycle'', TPtr (type_LifecycleSpec lt)),
      (''SecurityContext'', TPtr (lt ''PodSecurityContext'')), (''ServiceAccountName'', TScalar),
      (''ServiceType'', TScalar), (''IngressClass'', TScalar), (''IngressAnnotations'', TMap),
      (''NodeSelector'', TMap), (''Tolerations'', TSlice (lt ''Toleration'')),
      (''Affinity'', TPtr (lt ''Affinity'')), (''Paused'', TScalar),
      (''Autoscaling'', TPtr type_AutoscalingSpec),
      (''ImagePullSecrets'', TSlice (lt ''LocalObjectReference'')),
      (''ConfigMaps'', TSlice type_ConfigMapMount), (''Secrets'', TSlice type_SecretMount),
      (''ExternalSecrets'', TSlice type_ExternalSecretMount), (''SecretStore'', TPtr type_SecretStoreSpec)]"

definition deepCopyInto_AppDefinitionSpec :: "(string \<Rightarrow> copier) \<Rightarrow> copier" where
  "deepCopyInto_AppDefinitionSpec L = copy_struct
     [(''Containers'', deep_slice (deepCopyInto_ContainerSpec L)),
      (''InitContainers'', deep_slice (deepCopyInto_InitContainerSpec L)), (''Replicas'', new_plain),
      (''Domains'', deep_slice deepCopyInto_DomainSpec), (''Disk'', new_deep deepCopyInto_DiskConfig),
      (''LoggingConfig'', new_deep deepCopyInto_LoggingConfig),
      (''Lifecycle'', new_deep (deepCopyInto_LifecycleSpec L)),
      (''SecurityContext'', new_deep (L ''PodSecurityContext'')), (''IngressAnnotations'', copy_map),
      (''NodeSelector'', copy_map), (''Tolerations'', deep_slice (L ''Toleration'')),
      (''Affinity'', new_deep (L ''Affinity'')), (''Autoscaling'', new_deep deepCopyInto_AutoscalingSpec),
      (''ImagePullSecrets'', copy_slice), (''ConfigMaps'', deep_slice deepCopyInto_ConfigMapMount),
      (''Secrets'', deep_slice deepCopyInto_SecretMount),
      (''ExternalSecrets'', deep_slice deepCopyInto_ExternalSecretMount), (''SecretStore'', new_plain)]"

definition deepCopy_AppDefinitionSpec :: "(string \<Rightarrow> copier) \<Rightarrow> copier" where
  "deepCopy_AppDefinitionSpec L = new_deep (deepCopyInto_AppDefinitionSpec L)"

lemma copies_AppDefinitionSpec [copying]: "lib_ok lt L \<Longrightarrow> copies (type_AppDefinitionSpec lt) (deepCopyInto_AppDefinitionSpec L)"
  unfolding type_AppDefinitionSpec_def deepCopyInto_AppDefinitionSpec_def
  by (rule copies_struct) (auto simp: copier_of_def lib_okD [of lt L] intro!: copying)

definition type_AppDefinitionStatus :: "(string \<Rightarrow> gotype) \<Rightarrow> gotype" where
  "type_AppDefinitionStatus lt = TStruct
     [(''Phase'', TScalar), (''ReadyReplicas'', TScalar), (''Replicas'', TScalar),
      (''ObservedGeneration'', TScalar), (''Conditions'', TSlice (lt ''Condition'')), (''LastError'', TScalar)]"

definition deepCopyInto_AppDefinitionStatus :: "(string \<Rightarrow> copier) \<Rightarrow> copier" where
  "deepCopyInto_AppDefinitionStatus L = copy_struct
     [(''Conditions'', deep_slice (L ''Condition''))]"

definition deepCopy_AppDefinitionStatus :: "(string \<Rightarrow> copier) \<Rightarrow> copier" where
  "deepCopy_AppDefinitionStatus L = new_deep (deepCopyInto_AppDefinitionStatus L)"

lemma copies_AppDefinitionStatus [copying]: "lib_ok lt L \<Longrightarrow> copies (type_AppDefinitionStatus lt) (deepCopyInto_AppDefinitionStatus L)"
  unfolding type_AppDefinitionStatus_def deepCopyInto_AppDefinitionStatus_def
  by (rule copies_struct) (auto simp: copier_of_def lib_okD [of lt L] intro!: copying)

definition type_AppDefinition :: "(string \<Rightarrow> gotype) \<Rightarrow> gotype" where
  "type_AppDefinition lt = TStruct
     [(''TypeMeta'', lt ''TypeMeta''), (''ObjectMeta'', lt ''ObjectMeta''),
      (''Spec'', type_AppDefinitionSpec lt), (''Status'', type_AppDefinitionStatus lt)]"

definition deepCopyInto_AppDefinition :: "(string \<Rightarrow> copier) \<Rightarrow> copier" where
  "deepCopyInto_AppDefinition L = copy_struct
     [(''TypeMeta'', keep), (''ObjectMeta'', L ''ObjectMeta''), (''Spec'', deepCopyInto_AppDefinitionSpec L),
      (''Status'', deepCopyInto_AppDefinitionStatus L)]"

definition deepCopy_AppDefinition :: "(string \<Rightarrow> copier) \<Rightarrow> copier" where
  "deepCopy_AppDefinition L = new_deep (deepCopyInto_AppDefinition L)"

lemma copies_AppDefinition [copying]: "lib_ok lt L \<Longrightarrow> copies (type_AppDefinition lt) (deepCopyInto_AppDefinition L)"
  unfolding type_AppDefinition_def deepCopyInto_AppDefinition_def
  by (rule copies_struct) (auto simp: copier_of_def lib_okD [of lt L] intro!: copying)

definition type_AppDefinitionList :: "(string \<Rightarrow> gotype) \<Rightarrow> gotype" where
  "type_AppDefinitionList lt = TStruct
     [(''TypeMeta'', lt ''TypeMeta''), (''ListMeta'', lt ''ListMeta''),
      (''Items'', TSlice (type_AppDefinition lt))]"

definition deepCopyInto_AppDefinitionList :: "(string \<Rightarrow> copier) \<Rightarrow> copier" where
  "deepCopyInto_AppDefinitionList L = copy_struct
     [(''TypeMeta'', keep), (''ListMeta'', L ''ListMeta''),
      (''Items'', deep_slice (deepCopyInto_AppDefinition L))]"

definition deepCopy_AppDefinitionList :: "(string \<Rightarrow> copier) \<Rightarrow> copier" where
  "deepCopy_AppDefinitionList L = new_deep (deepCopyInto_AppDefinitionList L)"

lemma copies_AppDefinitionList [copying]: "lib_ok lt L \<Longrightarrow> copies (type_AppDefinitionList lt) (deepCopyInto_AppDefinitionList L)"
  unfolding type_AppDefinitionList_def deepCopyInto_AppDefinitionList_def
  by (rule copies_struct) (auto simp: copier_of_def lib_okD [of lt L] intro!: copying)

section \<open>Properties\<close>

text \<open>
  \<open>DeepCopyObject\<close>: the copy as a \<open>runtime.Object\<close>, and nil for a nil pointer.
\<close>

definition deepCopyObject :: "copier \<Rightarrow> val \<Rightarrow> heap \<Rightarrow> val option \<times> heap" where
  "deepCopyObject deepCopy v H =
     (case deepCopy v H of (c, H') \<Rightarrow> (if c \<noteq> VPtr None then (Some c, H') else (None, H')))"

text \<open>
  C9. A deep copy of an AppDefinition is a value of its own: it looks like the original down to the last
  field, nil where that is nil, and shares no memory with it, so whatever is written through the copy leaves the
  original, such as the object in the informer cache, as it was, and the other way round.
\<close>

theorem appDefinition_copy_isolated:
  assumes "lib_ok lt L" and "wt H (TPtr (type_AppDefinition lt)) v" and "deepCopy_AppDefinition L v H = (v', H')"
  shows "view H' (TPtr (type_AppDefinition lt)) v' = view H (TPtr (type_AppDefinition lt)) v
    \<and> (\<forall>a \<in> set (addrs H' (TPtr (type_AppDefinition lt)) v'). length H \<le> a \<and> a < length H')
    \<and> (\<forall>a \<ge> length H. \<forall>x. view (H'[a := x]) (TPtr (type_AppDefinition lt)) v = view H (TPtr (type_AppDefinition lt)) v)
    \<and> (\<forall>a < length H. \<forall>x. view (H'[a := x]) (TPtr (type_AppDefinition lt)) v' = view H (TPtr (type_AppDefinition lt)) v)"
proof -
  have "copies (TPtr (type_AppDefinition lt)) (new_deep (deepCopyInto_AppDefinition L))"
    by (intro copying assms(1))
  from copy_isolated [OF this assms(2) assms(3) [unfolded deepCopy_AppDefinition_def]] show ?thesis by blast
qed

lemma appDefinitionList_copies:
  "lib_ok lt L \<Longrightarrow> copies (TPtr (type_AppDefinitionList lt)) (deepCopy_AppDefinitionList L)"
  unfolding deepCopy_AppDefinitionList_def by (intro copying)

section \<open>A concrete instance\<close>

fun zero_value :: "gotype \<Rightarrow> val" and zero_fields :: "(string \<times> gotype) list \<Rightarrow> (string \<times> val) list" where
  "zero_value TScalar = VScalar []"
| "zero_value (TPtr t) = VPtr None"
| "zero_value (TSlice t) = VSlice None 0"
| "zero_value TMap = VMap None"
| "zero_value (TStruct fts) = VStruct (zero_fields fts)"
| "zero_fields [] = []"
| "zero_fields ((n, t) # fts) = (n, zero_value t) # zero_fields fts"

definition set_field :: "string \<Rightarrow> val \<Rightarrow> val \<Rightarrow> val" where
  "set_field n w v = (case v of VStruct fs \<Rightarrow> VStruct (map (\<lambda>(m, x). (m, if m = n then w else x)) fs) | _ \<Rightarrow> v)"

definition example_lib :: "string \<Rightarrow> gotype" where
  "example_lib n = TStruct [(''Name'', TScalar)]"

definition example_heap :: heap where
  "example_heap =
     [OCell (set_field ''Spec''
        (set_field ''Replicas'' (VPtr (Some 1)) (set_field ''NodeSelector'' (VMap (Some 2)) (zero_value (type_AppDefinitionSpec example_lib))))
        (zero_value (type_AppDefinition example_lib))),
      OCell (VScalar ''3''), OTable [(''disk'', ''ssd'')]]"

lemma example_lib_ok: "lib_ok example_lib (\<lambda>_. keep)"
  by (simp add: lib_ok_def example_lib_def copies_keep)

lemma appDefinition_copy_isolated_witness:
  "\<exists>v' H'. deepCopy_AppDefinition (\<lambda>_. keep) (VPtr (Some 0)) example_heap = (v', H')
     \<and> view H' (TPtr (type_AppDefinition example_lib)) v'
        = view example_heap (TPtr (type_AppDefinition example_lib)) (VPtr (Some 0))
     \<and> view (H'[2 := OTable []]) (TPtr (type_AppDefinition example_lib)) v'
        = view example_heap (TPtr (type_AppDefinition example_lib)) (VPtr (Some 0))"
proof -
  obtain v' H' where c: "deepCopy_AppDefinition (\<lambda>_. keep) (VPtr (Some 0)) example_heap = (v', H')" by fastforce
  have "wt example_heap (TPtr (type_AppDefinition example_lib)) (VPtr (Some 0))" by code_simp
  from appDefinition_copy_isolated [OF example_lib_ok this c] have
    "view H' (TPtr (type_AppDefinition example_lib)) v' = view example_heap (TPtr (type_AppDefinition example_lib)) (VPtr (Some 0))
     \<and> view (H'[2 := OTable []]) (TPtr (type_AppDefinition example_lib)) v'
        = view example_heap (TPtr (type_AppDefinition example_lib)) (VPtr (Some 0))"
    by (simp add: example_heap_def)
  then show ?thesis using c by blast
qed

end
