(* ===== verification/CommandLine.thy ===== *)
theory CommandLine
  imports GoStrings
begin

text \<open>
  What the two commands use of Go's standard library and of the language: the package \<open>flag\<close>,
  \<open>filepath.Join\<close>, and slices that share an array.
\<close>

section \<open>Flags\<close>

text \<open>
  A flag sets a field of the options, or refuses the value. A boolean flag needs no argument.
\<close>

datatype 'f flag = StringFlag "string \<Rightarrow> 'f \<Rightarrow> 'f option" | BoolFlag "bool \<Rightarrow> 'f \<Rightarrow> 'f option"

datatype flag_error = BadSyntax string | NotDefined string | NeedsArgument string | InvalidValue string string
  | HelpRequested

text \<open>\<open>strconv.ParseBool\<close>\<close>

definition parse_bool :: "string \<Rightarrow> bool option" where
  "parse_bool s =
     (if s \<in> set [''1'', ''t'', ''T'', ''true'', ''TRUE'', ''True''] then Some True
      else if s \<in> set [''0'', ''f'', ''F'', ''false'', ''FALSE'', ''False''] then Some False
      else None)"

text \<open>A name and, from the first \<open>=\<close> on, a value.\<close>

definition cut_at :: "char \<Rightarrow> string \<Rightarrow> string \<times> string option" where
  "cut_at c s =
     (takeWhile (\<lambda>x. x \<noteq> c) s,
      case dropWhile (\<lambda>x. x \<noteq> c) s of [] \<Rightarrow> None | _ # v \<Rightarrow> Some v)"

text \<open>\<open>FlagSet.Parse\<close>: up to the first argument that is no flag, or \<open>--\<close>.\<close>

fun parse_flags :: "(string \<Rightarrow> 'f flag option) \<Rightarrow> string list \<Rightarrow> 'f \<Rightarrow> flag_error + 'f" where
  "parse_flags formal [] f = Inr f"
| "parse_flags formal (s # args) f =
     (if length s < 2 \<or> hd s \<noteq> CHR ''-'' then Inr f
      else if s = ''--'' then Inr f
      else let name = (if s ! 1 = CHR ''-'' then drop 2 s else drop 1 s)
      in if name = [] \<or> hd name = CHR ''-'' \<or> hd name = CHR ''='' then Inl (BadSyntax s)
      else let n = fst (cut_at CHR ''='' name); value = snd (cut_at CHR ''='' name)
      in case formal n of
           None \<Rightarrow> if n = ''help'' \<or> n = ''h'' then Inl HelpRequested else Inl (NotDefined n)
         | Some (BoolFlag set_flag) \<Rightarrow>
             (let v = (case value of None \<Rightarrow> ''true'' | Some v \<Rightarrow> v)
              in case parse_bool v of
                   None \<Rightarrow> Inl (InvalidValue n v)
                 | Some b \<Rightarrow> (case set_flag b f of
                                None \<Rightarrow> Inl (InvalidValue n v)
                              | Some f' \<Rightarrow> parse_flags formal args f'))
         | Some (StringFlag set_flag) \<Rightarrow>
             (case value of
                Some v \<Rightarrow> (case set_flag v f of
                              None \<Rightarrow> Inl (InvalidValue n v)
                            | Some f' \<Rightarrow> parse_flags formal args f')
              | None \<Rightarrow> (case args of
                           [] \<Rightarrow> Inl (NeedsArgument n)
                         | v # args' \<Rightarrow> (case set_flag v f of
                                           None \<Rightarrow> Inl (InvalidValue n v)
                                         | Some f' \<Rightarrow> parse_flags formal args' f'))))"

text \<open>
  \<open>flag.CommandLine\<close> exits on an error: with status 0 when help was asked for, otherwise with 2.
\<close>

definition parse_exit :: "flag_error \<Rightarrow> nat" where
  "parse_exit e = (case e of HelpRequested \<Rightarrow> 0 | _ \<Rightarrow> 2)"

text \<open>An argument \<open>--name=value\<close>.\<close>

definition flag_arg :: "string \<Rightarrow> string \<Rightarrow> string" where
  "flag_arg n v = ''--'' @ n @ ''='' @ v"

lemma cut_at_found: "c \<notin> set n \<Longrightarrow> cut_at c (n @ c # v) = (n, Some v)"
  by (simp add: cut_at_def takeWhile_append dropWhile_append)

definition flag_name :: "string \<Rightarrow> bool" where
  "flag_name n \<longleftrightarrow> n \<noteq> [] \<and> hd n \<noteq> CHR ''-'' \<and> CHR ''='' \<notin> set n"

lemma parse_flag_arg:
  assumes "flag_name n" and "formal n = Some (StringFlag set_flag)" and "set_flag v f = Some f'"
  shows "parse_flags formal (flag_arg n v # args) f = parse_flags formal args f'"
proof -
  have "hd (n @ CHR ''='' # v) = hd n" "hd n \<noteq> CHR ''=''"
    using assms(1) by (auto simp: flag_name_def) (metis list.set_sel(1))
  then show ?thesis using assms by (simp add: flag_arg_def flag_name_def cut_at_found)
qed

definition show_bool :: "bool \<Rightarrow> string" where
  "show_bool b = (if b then ''true'' else ''false'')"

lemma parse_bool_arg:
  assumes "flag_name n" and "formal n = Some (BoolFlag set_flag)" and "set_flag b f = Some f'"
  shows "parse_flags formal (flag_arg n (show_bool b) # args) f = parse_flags formal args f'"
proof -
  have "hd (n @ CHR ''='' # v) = hd n" "hd n \<noteq> CHR ''=''" for v
    using assms(1) by (auto simp: flag_name_def) (metis list.set_sel(1))
  then show ?thesis using assms by (cases b) (simp_all add: flag_arg_def flag_name_def cut_at_found show_bool_def parse_bool_def)
qed

text \<open>\<open>flag.StringVar\<close> and \<open>flag.BoolVar\<close>\<close>

definition string_flag :: "((string \<Rightarrow> string) \<Rightarrow> 'f \<Rightarrow> 'f) \<Rightarrow> 'f flag" where
  "string_flag upd = StringFlag (\<lambda>v f. Some (upd (\<lambda>_. v) f))"

definition bool_flag :: "((bool \<Rightarrow> bool) \<Rightarrow> 'f \<Rightarrow> 'f) \<Rightarrow> 'f flag" where
  "bool_flag upd = BoolFlag (\<lambda>b f. Some (upd (\<lambda>_. b) f))"

text \<open>
  The libraries bind flags of their own (\<open>zap-devel\<close>, \<open>kubeconfig\<close> and so on): whether one takes a
  value, and which values it accepts. They do not change a command's own options.
\<close>

definition library_flag :: "unit flag \<Rightarrow> 'f flag" where
  "library_flag fl =
     (case fl of
        StringFlag set_flag \<Rightarrow> StringFlag (\<lambda>v f. map_option (\<lambda>_. f) (set_flag v ()))
      | BoolFlag set_flag \<Rightarrow> BoolFlag (\<lambda>b f. map_option (\<lambda>_. f) (set_flag b ())))"

definition flag_lookup :: "(string \<times> 'f flag) list \<Rightarrow> (string \<Rightarrow> unit flag option) \<Rightarrow> string \<Rightarrow> 'f flag option" where
  "flag_lookup table libs n =
     (case map_of table n of Some fl \<Rightarrow> Some fl | None \<Rightarrow> map_option library_flag (libs n))"

lemma parse_string_flag:
  "flag_name n \<Longrightarrow> formal n = Some (string_flag upd) \<Longrightarrow>
   parse_flags formal (flag_arg n v # args) f = parse_flags formal args (upd (\<lambda>_. v) f)"
  unfolding string_flag_def by (rule parse_flag_arg) simp_all

lemma parse_bool_flag:
  "flag_name n \<Longrightarrow> formal n = Some (bool_flag upd) \<Longrightarrow>
   parse_flags formal (flag_arg n (show_bool b) # args) f = parse_flags formal args (upd (\<lambda>_. b) f)"
  unfolding bool_flag_def by (rule parse_bool_arg) simp_all

section \<open>Paths\<close>

text \<open>\<open>filepath.Clean\<close> on Unix, element by element; \<open>..\<close> of the root is the root.\<close>

definition clean_step :: "bool \<Rightarrow> string list \<Rightarrow> string \<Rightarrow> string list" where
  "clean_step rooted out e =
     (if e = '''' \<or> e = ''.'' then out
      else if e = ''..'' then
        (if out \<noteq> [] \<and> last out \<noteq> ''..'' then butlast out
         else if rooted then out else out @ [e])
      else out @ [e])"

definition path_clean :: "string \<Rightarrow> string" where
  "path_clean p =
     (let rooted = (p \<noteq> '''' \<and> hd p = CHR ''/'');
          out = foldl (clean_step rooted) [] (split_on CHR ''/'' p);
          c = (if rooted then ''/'' else '''') @ join ''/'' out
      in if c = '''' then ''.'' else c)"

fun path_join :: "string list \<Rightarrow> string" where
  "path_join [] = ''''"
| "path_join (e # es) = (if e \<noteq> '''' then path_clean (join ''/'' (e # es)) else path_join es)"

section \<open>Slices\<close>

text \<open>
  A slice is an array, a length and a capacity; appending within the capacity writes to the array,
  beyond it to a new one, whose capacity Go does not specify except that the elements fit: it is
  the parameter \<open>grow\<close>. An array is the list of the cells written so far. The nil slice has no capacity.
\<close>

record slice =
  sl_array :: nat
  sl_len :: nat
  sl_cap :: nat

definition nil_slice :: slice where
  "nil_slice = \<lparr>sl_array = 0, sl_len = 0, sl_cap = 0\<rparr>"

definition slice_elems :: "slice \<Rightarrow> 'a list list \<Rightarrow> 'a list" where
  "slice_elems s H = (if sl_cap s = 0 then [] else take (sl_len s) (H ! sl_array s))"

definition append_slice :: "(nat \<Rightarrow> nat) \<Rightarrow> slice \<Rightarrow> 'a \<Rightarrow> 'a list list \<Rightarrow> slice \<times> 'a list list" where
  "append_slice grow s x H =
     (if sl_len s < sl_cap s then
        (s\<lparr>sl_len := Suc (sl_len s)\<rparr>,
         H[sl_array s := take (sl_len s) (H ! sl_array s) @ x # drop (Suc (sl_len s)) (H ! sl_array s)])
      else (\<lparr>sl_array = length H, sl_len = Suc (sl_len s), sl_cap = grow (Suc (sl_len s))\<rparr>,
            H @ [slice_elems s H @ [x]]))"

text \<open>Every cell of a slice is there to be read.\<close>

definition slice_ok :: "slice \<Rightarrow> 'a list list \<Rightarrow> bool" where
  "slice_ok s H \<longleftrightarrow> sl_len s \<le> sl_cap s
     \<and> (0 < sl_cap s \<longrightarrow> sl_array s < length H \<and> sl_len s \<le> length (H ! sl_array s))"

lemma slice_ok_nil [simp]: "slice_ok nil_slice H" "slice_elems nil_slice H = []"
  by (simp_all add: slice_ok_def nil_slice_def slice_elems_def)

lemma append_slice_elems:
  assumes "\<And>n. n \<le> grow n" and "slice_ok s H" and "append_slice grow s x H = (s', H')"
  shows "slice_elems s' H' = slice_elems s H @ [x] \<and> slice_ok s' H'"
proof (cases "sl_len s < sl_cap s")
  case True
  then have c: "0 < sl_cap s" "sl_array s < length H" "sl_len s \<le> length (H ! sl_array s)"
    using assms(2) by (auto simp: slice_ok_def)
  have s': "s' = s\<lparr>sl_len := Suc (sl_len s)\<rparr>"
    "H' = H[sl_array s := take (sl_len s) (H ! sl_array s) @ x # drop (Suc (sl_len s)) (H ! sl_array s)]"
    using assms(3) True by (simp_all add: append_slice_def)
  show ?thesis using c True by (simp add: s' slice_elems_def slice_ok_def)
next
  case False
  then have s': "s' = \<lparr>sl_array = length H, sl_len = Suc (sl_len s), sl_cap = grow (Suc (sl_len s))\<rparr>"
    "H' = H @ [slice_elems s H @ [x]]"
    using assms(3) by (simp_all add: append_slice_def)
  have "0 < grow (Suc (sl_len s))" using assms(1) [of "Suc (sl_len s)"] by simp
  moreover have "length (slice_elems s H) = sl_len s"
    using assms(2) by (auto simp: slice_elems_def slice_ok_def)
  ultimately show ?thesis using assms(1) by (simp add: s' slice_elems_def slice_ok_def)
qed

text \<open>An append to one slice does not show in another one, unless both end in spare cells of one array.\<close>

lemma append_slice_other:
  assumes "slice_ok t H" and "append_slice grow s x H = (s', H')"
    and "sl_len s < sl_cap s \<Longrightarrow> sl_array t = sl_array s \<Longrightarrow> sl_len t \<le> sl_len s"
  shows "slice_elems t H' = slice_elems t H \<and> slice_ok t H'"
proof (cases "sl_len s < sl_cap s")
  case True
  then have H': "H' = H[sl_array s := take (sl_len s) (H ! sl_array s) @ x # drop (Suc (sl_len s)) (H ! sl_array s)]"
    using assms(2) by (simp add: append_slice_def)
  show ?thesis
  proof (cases "sl_array t = sl_array s \<and> 0 < sl_cap t")
    case same: True
    then have t: "sl_array s < length H" "sl_len t \<le> length (H ! sl_array s)" "sl_len t \<le> sl_len s"
      using assms(1,3) True by (auto simp: slice_ok_def)
    then show ?thesis using same assms(1)
      by (auto simp: H' slice_elems_def slice_ok_def min_def)
  qed (use assms(1) in \<open>auto simp: H' slice_elems_def slice_ok_def\<close>)
next
  case False
  then have "H' = H @ [slice_elems s H @ [x]]" using assms(2) by (simp add: append_slice_def)
  then show ?thesis using assms(1) by (auto simp: slice_elems_def slice_ok_def nth_append)
qed

end
