(* ===== verification/Manager.thy ===== *)
theory Manager
  imports ControlLoop CommandLine
begin

text \<open>
  \<open>cmd/main.go\<close>, the command that runs the controller, and \<open>SetupWithManager\<close> of
  \<open>appdefinition_controller.go\<close>: the flags, the options of the two servers, the order in which the
  parts are created, what is watched. The manager of controller-runtime is a parameter.
\<close>

section \<open>Flags\<close>

record manager_flags =
  metricsAddr :: string
  probeAddr :: string
  enableLeaderElection :: bool
  secureMetrics :: bool
  webhookCertPath :: string
  webhookCertName :: string
  webhookCertKey :: string
  metricsCertPath :: string
  metricsCertName :: string
  metricsCertKey :: string
  enableHTTP2 :: bool

definition default_flags :: manager_flags where
  "default_flags =
     \<lparr>metricsAddr = ''0'', probeAddr = '':8081'', enableLeaderElection = False, secureMetrics = True,
      webhookCertPath = '''', webhookCertName = ''tls.crt'', webhookCertKey = ''tls.key'',
      metricsCertPath = '''', metricsCertName = ''tls.crt'', metricsCertKey = ''tls.key'', enableHTTP2 = False\<rparr>"

definition manager_flag_table :: "(string \<times> manager_flags flag) list" where
  "manager_flag_table =
     [(''metrics-bind-address'', string_flag metricsAddr_update),
      (''health-probe-bind-address'', string_flag probeAddr_update),
      (''leader-elect'', bool_flag enableLeaderElection_update),
      (''metrics-secure'', bool_flag secureMetrics_update),
      (''webhook-cert-path'', string_flag webhookCertPath_update),
      (''webhook-cert-name'', string_flag webhookCertName_update),
      (''webhook-cert-key'', string_flag webhookCertKey_update),
      (''metrics-cert-path'', string_flag metricsCertPath_update),
      (''metrics-cert-name'', string_flag metricsCertName_update),
      (''metrics-cert-key'', string_flag metricsCertKey_update),
      (''enable-http2'', bool_flag enableHTTP2_update)]"

definition parse_manager_flags :: "(string \<Rightarrow> unit flag option) \<Rightarrow> string list \<Rightarrow> flag_error + manager_flags" where
  "parse_manager_flags libs args = parse_flags (flag_lookup manager_flag_table libs) args default_flags"

section \<open>Watches\<close>

datatype watch_source = TypedSource kind | GVKSource GVK

datatype event_handler = EnqueueSelf | EnqueueOwner | MapManagedSecret | MapSecretStoreDependency

record watch =
  w_source :: watch_source
  w_handler :: event_handler
  w_esoPredicate :: bool

definition watch_of :: "watch_source \<Rightarrow> event_handler \<Rightarrow> bool \<Rightarrow> watch" where
  "watch_of src h p = \<lparr>w_source = src, w_handler = h, w_esoPredicate = p\<rparr>"

definition base_watches :: "watch list" where
  "base_watches =
     [watch_of (TypedSource AppDefinitionK) EnqueueSelf False,
      watch_of (TypedSource DeploymentK) EnqueueOwner False,
      watch_of (TypedSource ServiceK) EnqueueOwner False,
      watch_of (TypedSource ConfigMapK) EnqueueOwner False,
      watch_of (TypedSource IngressK) EnqueueOwner False,
      watch_of (TypedSource PersistentVolumeClaimK) EnqueueOwner False,
      watch_of (TypedSource HorizontalPodAutoscalerK) EnqueueOwner False,
      watch_of (TypedSource SecretK) MapManagedSecret False,
      watch_of (TypedSource ServiceAccountK) MapSecretStoreDependency True]"

fun optional_watches :: "('w, GVK result) prog list \<Rightarrow> watch list \<Rightarrow> ('w, watch list result) prog" where
  "optional_watches [] b = ret b"
| "optional_watches (resolve # resolves) b = do {
     r \<leftarrow> resolve;
     case r of
       Inl e \<Rightarrow>
         if is_no_match e then optional_watches resolves b
         else fail (Wrap ''resolving external-secrets.io API version'' e)
     | Inr gvk \<Rightarrow>
         optional_watches resolves (b @ [watch_of (GVKSource gvk) MapSecretStoreDependency True]) }"

definition SetupWithManager :: "'w k8s \<Rightarrow> (watch list \<Rightarrow> ('w, unit result) state) \<Rightarrow> ('w, unit result) prog" where
  "SetupWithManager K complete =
     tryM (optional_watches [resolveSecretStoreGVK K, resolveExternalSecretGVK K] base_watches) id
       (\<lambda>b. lift (complete b))"

section \<open>The command\<close>

datatype server_role = WebhookServer | MetricsServer

datatype tls_option = DisableHTTP2 | GetCertificateOf server_role

record manager_options =
  mo_MetricsBindAddress :: string
  mo_SecureServing :: bool
  mo_AuthFilter :: bool
  mo_MetricsTLSOpts :: slice
  mo_WebhookTLSOpts :: slice
  mo_HealthProbeBindAddress :: string
  mo_LeaderElection :: bool
  mo_LeaderElectionID :: string

record 'w manager_api =
  ma_newCertWatcher :: "string \<Rightarrow> string \<Rightarrow> ('w, unit result) state"
  ma_getConfig :: "('w, unit result) state"
  ma_newManager :: "manager_options \<Rightarrow> ('w, unit result) state"
  ma_complete :: "watch list \<Rightarrow> ('w, unit result) state"
  ma_add :: "server_role \<Rightarrow> ('w, unit result) state"
  ma_addHealthz :: "string \<Rightarrow> ('w, unit result) state"
  ma_addReadyz :: "string \<Rightarrow> ('w, unit result) state"
  ma_start :: "('w, unit result) state"

text \<open>The steps of the start, kept in order with their outcomes, as a history for the proofs.\<close>

datatype boot_step = NewCertWatcher server_role | GetConfig | NewManager | SetUp | AddWatcher server_role
  | AddHealthz | AddReadyz | Start

record 'w boot =
  bt_st :: "'w st"
  bt_arrays :: "tls_option list list"
  bt_steps :: "(boot_step \<times> bool) list"
  bt_options :: "manager_options option"

type_synonym ('w, 'a) boot_prog = "('w boot, nat + 'a) state"

text \<open>\<open>if err := ...; err != nil { os.Exit(1) }\<close>\<close>

definition or_exit :: "boot_step \<Rightarrow> ('w, unit result) prog \<Rightarrow> ('w, unit) boot_prog" where
  "or_exit what m = State (\<lambda>b.
     case run_state m (bt_st b) of
       (Inl e, s) \<Rightarrow> (Inl 1, b\<lparr>bt_st := s, bt_steps := bt_steps b @ [(what, False)]\<rparr>)
     | (Inr _, s) \<Rightarrow> (Inr (), b\<lparr>bt_st := s, bt_steps := bt_steps b @ [(what, True)]\<rparr>))"

definition append_tls :: "(nat \<Rightarrow> nat) \<Rightarrow> slice \<Rightarrow> tls_option \<Rightarrow> ('w, slice) boot_prog" where
  "append_tls grow s x = State (\<lambda>b.
     case append_slice grow s x (bt_arrays b) of (s', H) \<Rightarrow> (Inr s', b\<lparr>bt_arrays := H\<rparr>))"

definition cert_watcher :: "(nat \<Rightarrow> nat) \<Rightarrow> 'w manager_api \<Rightarrow> server_role \<Rightarrow> string \<Rightarrow> string \<Rightarrow> string \<Rightarrow> slice
    \<Rightarrow> ('w, slice) boot_prog" where
  "cert_watcher grow M role path name key tls =
     (if path \<noteq> '''' then
        tryM (or_exit (NewCertWatcher role) (lift (ma_newCertWatcher M (path_join [path, name]) (path_join [path, key])))) id
          (\<lambda>_. append_tls grow tls (GetCertificateOf role))
      else ret tls)"

definition set_options :: "manager_options \<Rightarrow> ('w, unit) boot_prog" where
  "set_options opts = State (\<lambda>b. (Inr (), b\<lparr>bt_options := Some opts\<rparr>))"

definition if_set :: "bool \<Rightarrow> ('s, 'e + unit) state \<Rightarrow> ('s, 'e + unit) state" where
  "if_set p m = (if p then m else ret ())"

definition manager_options_of :: "manager_flags \<Rightarrow> slice \<Rightarrow> slice \<Rightarrow> manager_options" where
  "manager_options_of f webhookTLSOpts metricsTLSOpts =
     \<lparr>mo_MetricsBindAddress = metricsAddr f, mo_SecureServing = secureMetrics f, mo_AuthFilter = secureMetrics f,
      mo_MetricsTLSOpts = metricsTLSOpts, mo_WebhookTLSOpts = webhookTLSOpts,
      mo_HealthProbeBindAddress = probeAddr f, mo_LeaderElection = enableLeaderElection f,
      mo_LeaderElectionID = ''64cfe9d8.abexamir.me''\<rparr>"

text \<open>The part before the manager: both servers start from one slice.\<close>

definition boot_servers :: "(nat \<Rightarrow> nat) \<Rightarrow> 'w manager_api \<Rightarrow> manager_flags \<Rightarrow> ('w, manager_options) boot_prog" where
  "boot_servers grow M f =
     tryM (if \<not> enableHTTP2 f then append_tls grow nil_slice DisableHTTP2 else ret nil_slice) id (\<lambda>tlsOpts.
     tryM (cert_watcher grow M WebhookServer (webhookCertPath f) (webhookCertName f) (webhookCertKey f) tlsOpts) id (\<lambda>webhookTLSOpts.
     tryM (cert_watcher grow M MetricsServer (metricsCertPath f) (metricsCertName f) (metricsCertKey f) tlsOpts) id (\<lambda>metricsTLSOpts.
     ret (manager_options_of f webhookTLSOpts metricsTLSOpts))))"

definition boot_manager :: "'w k8s \<Rightarrow> 'w manager_api \<Rightarrow> manager_flags \<Rightarrow> manager_options \<Rightarrow> ('w, unit) boot_prog" where
  "boot_manager K M f opts =
     tryM (or_exit GetConfig (lift (ma_getConfig M))) id (\<lambda>_.
     tryM (set_options opts) id (\<lambda>_.
     tryM (or_exit NewManager (lift (ma_newManager M opts))) id (\<lambda>_.
     tryM (or_exit SetUp (SetupWithManager K (ma_complete M))) id (\<lambda>_.
     tryM (if_set (metricsCertPath f \<noteq> '''') (or_exit (AddWatcher MetricsServer) (lift (ma_add M MetricsServer)))) id (\<lambda>_.
     tryM (if_set (webhookCertPath f \<noteq> '''') (or_exit (AddWatcher WebhookServer) (lift (ma_add M WebhookServer)))) id (\<lambda>_.
     tryM (or_exit AddHealthz (lift (ma_addHealthz M ''healthz''))) id (\<lambda>_.
     tryM (or_exit AddReadyz (lift (ma_addReadyz M ''readyz''))) id (\<lambda>_.
     or_exit Start (lift (ma_start M))))))))))"

definition main :: "'w k8s \<Rightarrow> 'w manager_api \<Rightarrow> (nat \<Rightarrow> nat) \<Rightarrow> (string \<Rightarrow> unit flag option) \<Rightarrow> string list \<Rightarrow> ('w, unit) boot_prog" where
  "main K M grow libs args =
     (case parse_manager_flags libs args of
        Inl e \<Rightarrow> fail (parse_exit e)
      | Inr f \<Rightarrow> tryM (boot_servers grow M f) id (boot_manager K M f))"

section \<open>The order of the start\<close>

text \<open>
  A program follows a plan when it takes its steps in order: all of them, if it returns, or those up
  to the first that fails, and then the process exits with status 1.
\<close>

fun plan_outcome :: "boot_step list \<Rightarrow> nat + 'a \<Rightarrow> (boot_step \<times> bool) list \<Rightarrow> bool" where
  "plan_outcome plan (Inr _) tr \<longleftrightarrow> tr = map (\<lambda>w. (w, True)) plan"
| "plan_outcome plan (Inl code) tr \<longleftrightarrow> code = 1
     \<and> (\<exists>before failed rest. plan = before @ failed # rest \<and> tr = map (\<lambda>w. (w, True)) before @ [(failed, False)])"

definition follows :: "boot_step list \<Rightarrow> ('w, 'a) boot_prog \<Rightarrow> bool" where
  "follows plan m \<longleftrightarrow>
     (\<forall>b. \<exists>tr. bt_steps (snd (run_state m b)) = bt_steps b @ tr \<and> plan_outcome plan (fst (run_state m b)) tr)"

lemma plan_outcome_error: "plan_outcome p (Inl code) tr \<Longrightarrow> plan_outcome (p @ q) (Inl code) tr"
  by fastforce

lemma plan_outcome_append:
  assumes "plan_outcome p (Inr a) tr" and "plan_outcome q r tr'"
  shows "plan_outcome (p @ q) r (tr @ tr')"
proof (cases r)
  case (Inl code)
  then obtain before failed rest where "q = before @ failed # rest" "code = 1"
    "tr' = map (\<lambda>w. (w, True)) before @ [(failed, False)]" using assms(2) by auto
  then have "p @ q = (p @ before) @ failed # rest" "tr @ tr' = map (\<lambda>w. (w, True)) (p @ before) @ [(failed, False)]"
    using assms(1) by simp_all
  then show ?thesis using Inl \<open>code = 1\<close> by (metis plan_outcome.simps(2))
qed (use assms in simp)

named_theorems boots "plans of the parts of the start"

lemma follows_ret [boots]: "follows [] (ret a)"
  by (simp add: follows_def)

lemma follows_or_exit [boots]: "follows [w] (or_exit w m)"
  by (auto simp: follows_def or_exit_def split: prod.split sum.split)

lemma follows_append_tls [boots]: "follows [] (append_tls grow s x)"
  by (simp add: follows_def append_tls_def split: prod.split)

lemma follows_set_options [boots]: "follows [] (set_options opts)"
  by (simp add: follows_def set_options_def)

lemma follows_if_set [boots]: "follows plan m \<Longrightarrow> follows (if p then plan else []) (if_set p m)"
  by (simp add: if_set_def follows_ret)

lemma follows_tryM:
  assumes "follows p m" and "\<And>a. follows q (k a)"
  shows "follows (p @ q) (tryM m id k)"
  unfolding follows_def
proof
  fix b
  obtain r b1 where m: "run_state m b = (r, b1)" by fastforce
  with assms(1) obtain tr where tr: "bt_steps b1 = bt_steps b @ tr" "plan_outcome p r tr"
    unfolding follows_def by (metis fst_conv snd_conv)
  show "\<exists>tr. bt_steps (snd (run_state (tryM m id k) b)) = bt_steps b @ tr
      \<and> plan_outcome (p @ q) (fst (run_state (tryM m id k) b)) tr"
  proof (cases r)
    case (Inl code)
    then show ?thesis using m tr plan_outcome_error [of p code tr q] by auto
  next
    case (Inr a)
    from assms(2) [of a] obtain tr' where tr': "bt_steps (snd (run_state (k a) b1)) = bt_steps b1 @ tr'"
      "plan_outcome q (fst (run_state (k a) b1)) tr'"
      unfolding follows_def by blast
    have "run_state (tryM m id k) b = run_state (k a) b1" using m Inr by simp
    then show ?thesis using tr(1) tr'(1) plan_outcome_append [OF tr(2) [unfolded Inr] tr'(2)] by auto
  qed
qed

definition cert_plan :: "server_role \<Rightarrow> string \<Rightarrow> boot_step list" where
  "cert_plan role path = (if path \<noteq> '''' then [NewCertWatcher role] else [])"

lemma follows_cert_watcher [boots]: "follows (cert_plan role path) (cert_watcher grow M role path name key tls)"
proof (cases "path = []")
  case False
  have "follows ([NewCertWatcher role] @ []) (cert_watcher grow M role path name key tls)"
    unfolding cert_watcher_def if_P [OF False] by (intro follows_tryM boots)
  then show ?thesis using False by (simp add: cert_plan_def)
qed (simp add: cert_plan_def cert_watcher_def follows_ret)

definition boot_plan :: "manager_flags \<Rightarrow> boot_step list" where
  "boot_plan f =
     cert_plan WebhookServer (webhookCertPath f) @ cert_plan MetricsServer (metricsCertPath f)
     @ [GetConfig, NewManager, SetUp]
     @ (if metricsCertPath f \<noteq> '''' then [AddWatcher MetricsServer] else [])
     @ (if webhookCertPath f \<noteq> '''' then [AddWatcher WebhookServer] else [])
     @ [AddHealthz, AddReadyz, Start]"

lemma follows_boot_servers:
  "follows (cert_plan WebhookServer (webhookCertPath f) @ cert_plan MetricsServer (metricsCertPath f)) (boot_servers grow M f)"
proof -
  have "follows ([] @ cert_plan WebhookServer (webhookCertPath f) @ cert_plan MetricsServer (metricsCertPath f) @ []) (boot_servers grow M f)"
    unfolding boot_servers_def by (intro follows_tryM boots) (auto intro: boots)
  then show ?thesis by simp
qed

lemma follows_boot_manager:
  "follows ([GetConfig, NewManager, SetUp]
     @ (if metricsCertPath f \<noteq> '''' then [AddWatcher MetricsServer] else [])
     @ (if webhookCertPath f \<noteq> '''' then [AddWatcher WebhookServer] else [])
     @ [AddHealthz, AddReadyz, Start]) (boot_manager K M f opts)"
proof -
  have "follows ([GetConfig] @ [] @ [NewManager] @ [SetUp]
     @ (if metricsCertPath f \<noteq> '''' then [AddWatcher MetricsServer] else [])
     @ (if webhookCertPath f \<noteq> '''' then [AddWatcher WebhookServer] else [])
     @ [AddHealthz] @ [AddReadyz] @ [Start]) (boot_manager K M f opts)"
    unfolding boot_manager_def by (intro follows_tryM boots)
  then show ?thesis by simp
qed

text \<open>
  C11. The manager starts last. With flags that parse, the command takes the steps of its plan in their
  order, the certificate watchers first, then configuration, manager, watches, probes; it starts the
  manager only when every step before has succeeded, and the first one that fails ends the process
  with status 1. Flags that do not parse end it before any step, with status 2, or 0 when help was
  asked for.
\<close>

theorem manager_starts_last:
  "case parse_manager_flags libs args of
     Inr f \<Rightarrow> follows (boot_plan f) (main K M grow libs args) \<and> last (boot_plan f) = Start
   | Inl e \<Rightarrow> run_state (main K M grow libs args) b = (Inl (if e = HelpRequested then 0 else 2), b)"
proof (cases "parse_manager_flags libs args")
  case (Inl e)
  then show ?thesis by (cases e) (simp_all add: main_def parse_exit_def)
next
  case (Inr f)
  have "follows (boot_plan f) (tryM (boot_servers grow M f) id (boot_manager K M f))"
    unfolding boot_plan_def
    by (subst append_assoc [symmetric]) (rule follows_tryM [OF follows_boot_servers follows_boot_manager])
  then show ?thesis using Inr by (simp add: main_def boot_plan_def)
qed

section \<open>The options of the two servers\<close>

text \<open>What the rest of the start leaves alone.\<close>

definition options_kept :: "manager_options \<Rightarrow> 'w boot \<Rightarrow> 'w boot \<Rightarrow> bool" where
  "options_kept opts b b' \<longleftrightarrow>
     bt_arrays b' = bt_arrays b \<and> (bt_options b' = bt_options b \<or> bt_options b' = Some opts)"

interpretation ok: effect_relation "options_kept opts" for opts
  by unfold_locales (auto simp: options_kept_def)

lemma options_kept_or_exit: "state_io_rel (options_kept opts) (or_exit w m)"
  by (auto simp: state_io_rel_def options_kept_def or_exit_def split: prod.split sum.split)

lemma options_kept_set: "state_io_rel (options_kept opts) (set_options opts)"
  by (simp add: state_io_rel_def options_kept_def set_options_def)

lemma options_kept_manager: "state_io_rel (options_kept opts) (boot_manager K M f opts)"
  unfolding boot_manager_def if_set_def
  by (intro ok.eff_tryM options_kept_or_exit options_kept_set) (auto intro: options_kept_or_exit ok.eff_return)

lemma run_cert_watcher:
  assumes "run_state (cert_watcher grow M role path name key tls) b = (Inr tls', b')"
  shows "bt_options b' = bt_options b \<and> (if path = '''' then tls' = tls \<and> bt_arrays b' = bt_arrays b
    else append_slice grow tls (GetCertificateOf role) (bt_arrays b) = (tls', bt_arrays b'))"
  using assms
  by (auto simp: cert_watcher_def or_exit_def append_tls_def run_tryM split: if_splits prod.splits sum.splits)

lemma append_nil: "append_slice grow nil_slice x H = (\<lparr>sl_array = length H, sl_len = 1, sl_cap = grow 1\<rparr>, H @ [[x]])"
  by (simp add: append_slice_def nil_slice_def slice_elems_def)

text \<open>Two appends to one slice with a single element.\<close>

lemma shared_appends:
  assumes grow: "\<And>n. n \<le> grow n"
    and t: "(t, H1) = (if http2 then (nil_slice, H) else append_slice grow nil_slice d H)"
    and w: "(w, H2) = (if wp then append_slice grow t x H1 else (t, H1))"
    and m: "(m, H3) = (if mp then append_slice grow t y H2 else (t, H2))"
  shows "slice_elems m H3 = (if http2 then [] else [d]) @ (if mp then [y] else [])
    \<and> slice_elems w H3 = (if http2 then [] else [d])
        @ (if wp then [if \<not> http2 \<and> 1 < grow 1 \<and> mp then y else x] else [])"
proof -
  have g: "0 < grow 1" "0 < grow 2" using grow [of 1] grow [of 2] by simp_all
  show ?thesis
  proof (cases http2)
    case True
    then show ?thesis using t w m g
      by (cases wp; cases mp) (simp_all add: append_slice_def slice_elems_def nil_slice_def nth_append)
  next
    case False
    then have t': "t = \<lparr>sl_array = length H, sl_len = 1, sl_cap = grow 1\<rparr>" "H1 = H @ [[d]]"
      using t by (simp_all add: append_nil)
    show ?thesis
    proof (cases "1 < grow 1")
      case True
      then show ?thesis using w m False g
        by (cases wp; cases mp) (simp_all add: t' append_slice_def slice_elems_def nth_append list_update_append)
    next
      case no: False
      then have "grow 1 = 1" using g by simp
      then show ?thesis using w m False g
        by (cases wp; cases mp) (simp_all add: t' append_slice_def slice_elems_def nth_append numeral_2_eq_2)
    qed
  qed
qed

lemma boot_servers_ok:
  assumes "\<And>n. n \<le> grow n" and "run_state (boot_servers grow M f) b = (Inr opts, b')"
  shows "\<exists>w m. opts = manager_options_of f w m \<and> bt_options b' = bt_options b
    \<and> slice_elems m (bt_arrays b') = (if enableHTTP2 f then [] else [DisableHTTP2])
        @ (if metricsCertPath f \<noteq> '''' then [GetCertificateOf MetricsServer] else [])
    \<and> slice_elems w (bt_arrays b') = (if enableHTTP2 f then [] else [DisableHTTP2])
        @ (if webhookCertPath f \<noteq> ''''
           then [if \<not> enableHTTP2 f \<and> 1 < grow 1 \<and> metricsCertPath f \<noteq> '''' then GetCertificateOf MetricsServer
                 else GetCertificateOf WebhookServer] else [])"
proof -
  let ?start = "if \<not> enableHTTP2 f then append_tls grow nil_slice DisableHTTP2 else ret nil_slice"
  obtain t b1 where 1: "run_state ?start b = (Inr t, b1)"
    and r1: "run_state (tryM (cert_watcher grow M WebhookServer (webhookCertPath f) (webhookCertName f) (webhookCertKey f) t) id (\<lambda>w.
      tryM (cert_watcher grow M MetricsServer (metricsCertPath f) (metricsCertName f) (metricsCertKey f) t) id (\<lambda>m.
        ret (manager_options_of f w m)))) b1 = (Inr opts, b')"
    using assms(2) unfolding boot_servers_def by (rule run_tryM_Inr)
  from r1 obtain w b2 where 2: "run_state (cert_watcher grow M WebhookServer (webhookCertPath f) (webhookCertName f) (webhookCertKey f) t) b1 = (Inr w, b2)"
    and r2: "run_state (tryM (cert_watcher grow M MetricsServer (metricsCertPath f) (metricsCertName f) (metricsCertKey f) t) id (\<lambda>m.
        ret (manager_options_of f w m))) b2 = (Inr opts, b')" by (rule run_tryM_Inr)
  from r2 obtain m b3 where 3: "run_state (cert_watcher grow M MetricsServer (metricsCertPath f) (metricsCertName f) (metricsCertKey f) t) b2 = (Inr m, b3)"
    and "run_state (ret (manager_options_of f w m)) b3 = (Inr opts :: nat + manager_options, b')" by (rule run_tryM_Inr)
  then have opts: "opts = manager_options_of f w m" "b' = b3" by simp_all
  have t: "(t, bt_arrays b1) = (if enableHTTP2 f then (nil_slice, bt_arrays b) else append_slice grow nil_slice DisableHTTP2 (bt_arrays b))"
    and o1: "bt_options b1 = bt_options b"
    using 1 by (auto simp: append_tls_def split: prod.splits if_splits)
  have w: "(w, bt_arrays b2) = (if webhookCertPath f \<noteq> '''' then append_slice grow t (GetCertificateOf WebhookServer) (bt_arrays b1) else (t, bt_arrays b1))"
    and m: "(m, bt_arrays b3) = (if metricsCertPath f \<noteq> '''' then append_slice grow t (GetCertificateOf MetricsServer) (bt_arrays b2) else (t, bt_arrays b2))"
    and o2: "bt_options b3 = bt_options b1"
    using run_cert_watcher [OF 2] run_cert_watcher [OF 3] by (auto split: if_splits)
  show ?thesis
    using shared_appends [OF assms(1) t w m] opts o1 o2 by (intro exI [of _ w] exI [of _ m]) simp
qed

interpretation os: effect_relation "\<lambda>b b'. bt_options b' = bt_options b"
  by unfold_locales auto

lemma boot_servers_options: "state_io_rel (\<lambda>b b'. bt_options b' = bt_options b) (boot_servers grow M f)"
proof -
  have 1: "state_io_rel (\<lambda>b b'. bt_options b' = bt_options b) (append_tls grow s x)" for s x
    by (simp add: state_io_rel_def append_tls_def split: prod.split)
  have 2: "state_io_rel (\<lambda>b b'. bt_options b' = bt_options b) (or_exit w m)" for w m
    by (auto simp: state_io_rel_def or_exit_def split: prod.split sum.split)
  show ?thesis unfolding boot_servers_def cert_watcher_def by (auto intro!: os.eff_tryM os.eff_return 1 2)
qed

text \<open>
  C10. The TLS options of the two servers. The metrics endpoint asks for authentication and authorisation
  exactly when it is served securely; both servers refuse HTTP/2 unless the flag allows it; the metrics
  server takes its certificate from its own watcher, when a path is given, and the webhook server from
  its own: except that the two option lists start as one slice, so if \<open>append\<close> gave the first
  one-element slice spare capacity, which Go leaves open, the metrics certificate would overwrite the
  webhook's in the shared array.
\<close>

theorem manager_tls:
  assumes "\<And>n. n \<le> grow n" and "parse_manager_flags libs args = Inr f"
    and "run_state (main K M grow libs args) b = (r, b')" and "bt_options b = None" and "bt_options b' = Some opts"
  shows "let base = if enableHTTP2 f then [] else [DisableHTTP2];
             shared = \<not> enableHTTP2 f \<and> 1 < grow 1 \<and> metricsCertPath f \<noteq> ''''
         in mo_SecureServing opts = secureMetrics f \<and> mo_AuthFilter opts = secureMetrics f
            \<and> slice_elems (mo_MetricsTLSOpts opts) (bt_arrays b')
                = base @ (if metricsCertPath f = '''' then [] else [GetCertificateOf MetricsServer])
            \<and> slice_elems (mo_WebhookTLSOpts opts) (bt_arrays b')
                = base @ (if webhookCertPath f = '''' then []
                          else [GetCertificateOf (if shared then MetricsServer else WebhookServer)])"
proof -
  obtain r1 b1 where servers: "run_state (boot_servers grow M f) b = (r1, b1)" by fastforce
  have run: "run_state (tryM (boot_servers grow M f) id (boot_manager K M f)) b = (r, b')"
    using assms(2,3) by (simp add: main_def)
  have none: "bt_options b1 = None"
    using boot_servers_options [of grow M f] servers assms(4) by (auto simp: state_io_rel_def dest: spec [where x = b])
  obtain opts1 where r1: "r1 = Inr opts1"
    using run servers none assms(5) by (cases r1) auto
  then have rest: "run_state (boot_manager K M f opts1) b1 = (r, b')" using run servers by simp
  then have "options_kept opts1 b1 b'"
    using options_kept_manager [of opts1 K M f] unfolding state_io_rel_def by (metis snd_conv)
  then have "opts = opts1" and arrays: "bt_arrays b' = bt_arrays b1"
    using none assms(5) by (auto simp: options_kept_def)
  then show ?thesis
    using boot_servers_ok [OF assms(1) servers [unfolded r1]]
    by (auto simp: arrays manager_options_of_def Let_def)
qed

section \<open>Reading the flags\<close>

text \<open>The arguments that spell out given options.\<close>

definition manager_args :: "manager_flags \<Rightarrow> string list" where
  "manager_args f =
     [flag_arg ''metrics-bind-address'' (metricsAddr f), flag_arg ''health-probe-bind-address'' (probeAddr f),
      flag_arg ''leader-elect'' (show_bool (enableLeaderElection f)), flag_arg ''metrics-secure'' (show_bool (secureMetrics f)),
      flag_arg ''webhook-cert-path'' (webhookCertPath f), flag_arg ''webhook-cert-name'' (webhookCertName f),
      flag_arg ''webhook-cert-key'' (webhookCertKey f), flag_arg ''metrics-cert-path'' (metricsCertPath f),
      flag_arg ''metrics-cert-name'' (metricsCertName f), flag_arg ''metrics-cert-key'' (metricsCertKey f),
      flag_arg ''enable-http2'' (show_bool (enableHTTP2 f))]"

text \<open>
  C20. The flags of the manager. Any options can be given on the command line, and are read back as they
  are. Given none: the metrics server is off and its endpoint secured, the probes are on port 8081, no
  leader is elected, HTTP/2 is disabled, and neither certificate path is set, so that no certificate
  is read, their file names being \<open>tls.crt\<close> and \<open>tls.key\<close>. Flags the libraries add change none of this.
\<close>

theorem manager_flags_roundtrip:
  "parse_manager_flags libs (manager_args f) = Inr f
   \<and> parse_manager_flags libs [] = Inr
       \<lparr>metricsAddr = ''0'', probeAddr = '':8081'', enableLeaderElection = False, secureMetrics = True,
        webhookCertPath = '''', webhookCertName = ''tls.crt'', webhookCertKey = ''tls.key'',
        metricsCertPath = '''', metricsCertName = ''tls.crt'', metricsCertKey = ''tls.key'', enableHTTP2 = False\<rparr>"
proof -
  have "parse_flags (flag_lookup manager_flag_table libs) (manager_args f) g = Inr f" for g
    unfolding manager_args_def
    by (simp add: parse_string_flag parse_bool_flag flag_name_def flag_lookup_def manager_flag_table_def
        del: parse_flags.simps(2))
  then show ?thesis by (simp add: parse_manager_flags_def default_flags_def)
qed

section \<open>What is watched\<close>

definition write_kind :: "api_write \<Rightarrow> kind option" where
  "write_kind e =
     (case e of
        WCreate k _ \<Rightarrow> Some k | WUpdate k _ \<Rightarrow> Some k | WDelete k _ \<Rightarrow> Some k | WPatch k _ \<Rightarrow> Some k
      | WCreateOrUpdate k _ \<Rightarrow> Some k | WStatus _ \<Rightarrow> Some AppDefinitionK | WEvent _ _ \<Rightarrow> None)"

text \<open>The watch of an optional kind, if its API was found.\<close>

definition found_watch :: "GVK result \<Rightarrow> watch list" where
  "found_watch r = (case r of Inl _ \<Rightarrow> [] | Inr g \<Rightarrow> [watch_of (GVKSource g) MapSecretStoreDependency True])"

lemma SetupWithManager_ok:
  assumes "run_state (SetupWithManager K complete) s = (Inr (), s')"
  shows "case run_state (resolveSecretStoreGVK K) s of (r1, s1) \<Rightarrow>
     case run_state (resolveExternalSecretGVK K) s1 of (r2, s2) \<Rightarrow>
       run_state (complete (base_watches @ found_watch r1 @ found_watch r2)) (world s2) = (Inr (), world s')
       \<and> (\<forall>e. r1 = Inl e \<or> r2 = Inl e \<longrightarrow> is_no_match e)"
proof -
  obtain ws t where ws: "run_state (optional_watches [resolveSecretStoreGVK K, resolveExternalSecretGVK K] base_watches) s = (Inr ws, t)"
    and fin: "run_state (lift (complete ws)) t = (Inr (), s')"
    using assms unfolding SetupWithManager_def by (rule run_tryM_Inr)
  obtain r1 s1 where 1: "run_state (resolveSecretStoreGVK K) s = (r1, s1)" by fastforce
  obtain r2 s2 where 2: "run_state (resolveExternalSecretGVK K) s1 = (r2, s2)" by fastforce
  have "ws = base_watches @ found_watch r1 @ found_watch r2 \<and> t = s2 \<and> (\<forall>e. r1 = Inl e \<or> r2 = Inl e \<longrightarrow> is_no_match e)"
    using ws 1 2 by (cases r1; cases r2) (auto simp: found_watch_def split: if_splits)
  moreover have "run_state (complete ws) (world t) = (Inr (), world s')"
    using fin by (auto simp: prod_eq_iff)
  ultimately show ?thesis using 1 2 by simp
qed

text \<open>How an object of a kind finds its application: what has to be watched, and with which handler.\<close>

definition woken :: "watch list \<Rightarrow> kind \<Rightarrow> bool" where
  "woken ws k \<longleftrightarrow>
     (k = AppDefinitionK \<and> watch_of (TypedSource k) EnqueueSelf False \<in> set ws)
     \<or> (k \<in> {DeploymentK, ServiceK, ConfigMapK, IngressK, PersistentVolumeClaimK, HorizontalPodAutoscalerK}
        \<and> watch_of (TypedSource k) EnqueueOwner False \<in> set ws)
     \<or> (k = SecretK \<and> watch_of (TypedSource k) MapManagedSecret False \<in> set ws)
     \<or> (k = ServiceAccountK \<and> watch_of (TypedSource k) MapSecretStoreDependency True \<in> set ws)
     \<or> is_kind ''SecretStore'' k \<or> is_kind ''ExternalSecret'' k \<or> is_kind ''Middleware'' k \<or> is_kind ''ServiceMonitor'' k"

lemma step_kinds_woken:
  assumes "P \<in> set (step_writes K a)" and "P e" and "write_kind e = Some k"
  shows "woken base_watches k"
proof -
  have "list_all (\<lambda>P. P e \<longrightarrow> woken base_watches k) (step_writes K a)"
    using assms(3) unfolding step_writes_def list.pred_inject
    by (intro conjI impI TrueI; cases e)
      (auto simp: write_kind_def woken_def base_watches_def watch_of_def child_write_def ensures_def store_write_def patch_write_def
        own_write_def own_object_def own_delete_def pvc_write_def serviceMonitorGVK_def split: option.splits)
  then show ?thesis using assms(1,2) unfolding list_all_iff by blast
qed

lemma justified_kinds_woken: "justified K a e \<Longrightarrow> write_kind e = Some k \<Longrightarrow> woken base_watches k"
  using step_kinds_woken [of _ K a e k]
  by (auto simp: justified_def status_write_def write_kind_def woken_def base_watches_def split: api_write.splits)

lemma woken_append: "woken ws k \<Longrightarrow> woken (ws @ ws') k"
  by (auto simp: woken_def)

text \<open>
  C12. The manager watches what the controller writes. When the set-up succeeds, the controller is
  completed with the fixed watches and one for each of SecretStore and ExternalSecret whose API the
  cluster knows, under the version found, and the lookup of the others ended in \<open>NoMatch\<close>. Whatever a whole
  \<open>Reconcile\<close> writes, of whatever application, is of a kind watched with the handler that finds the
  application: AppDefinitions by themselves, the kinds with an owner reference by their owner,
  Secrets by their labels, ServiceAccounts as dependencies of a store; or of one of the four optional
  kinds: SecretStore and ExternalSecret, and Middleware and ServiceMonitor, which are never watched,
  so that changing those by hand wakes nobody.
\<close>

theorem written_kinds_watched:
  assumes "api_laws K" and "condition_laws K" and "keyed (k_appDefinitions K) ad_meta"
    and "run_state (SetupWithManager K complete) s = (Inr (), s')"
    and "run_state (resolveSecretStoreGVK K) s = (r1, s1)" and "run_state (resolveExternalSecretGVK K) s1 = (r2, s2)"
    and "ws = base_watches @ found_watch r1 @ found_watch r2"
  shows "run_state (complete ws) (world s2) = (Inr (), world s')
    \<and> (case r1 of Inl e \<Rightarrow> is_no_match e
        | Inr g \<Rightarrow> g_kind g = ''SecretStore'' \<and> watch_of (GVKSource g) MapSecretStoreDependency True \<in> set ws)
    \<and> (case r2 of Inl e \<Rightarrow> is_no_match e
        | Inr g \<Rightarrow> g_kind g = ''ExternalSecret'' \<and> watch_of (GVKSource g) MapSecretStoreDependency True \<in> set ws)
    \<and> list_all (\<lambda>e. case write_kind e of None \<Rightarrow> True | Some k \<Rightarrow> woken ws k)
        (new_writes t (snd (run_state (Reconcile K ns name) t)))"
proof (intro conjI)
  have done': "run_state (complete ws) (world s2) = (Inr (), world s') \<and> (\<forall>e. r1 = Inl e \<or> r2 = Inl e \<longrightarrow> is_no_match e)"
    using SetupWithManager_ok [OF assms(4)] assms(5-7) by simp
  then show "run_state (complete ws) (world s2) = (Inr (), world s')" ..
  have map: "rest_mapping_law K" using assms(1) by (simp add: api_laws_def)
  show "case r1 of Inl e \<Rightarrow> is_no_match e
      | Inr g \<Rightarrow> g_kind g = ''SecretStore'' \<and> watch_of (GVKSource g) MapSecretStoreDependency True \<in> set ws"
    using done' resolveSecretStoreGVK_kind [OF map] assms(5,7) by (cases r1) (auto simp: found_watch_def)
  show "case r2 of Inl e \<Rightarrow> is_no_match e
      | Inr g \<Rightarrow> g_kind g = ''ExternalSecret'' \<and> watch_of (GVKSource g) MapSecretStoreDependency True \<in> set ws"
    using done' resolveExternalSecretGVK_kind [OF map] assms(6,7) by (cases r2) (auto simp: found_watch_def)
  obtain out t' where run: "run_state (Reconcile K ns name) t = (out, t')" by fastforce
  have woke: "case write_kind e of None \<Rightarrow> True | Some k \<Rightarrow> woken ws k" if "justified K a e" for a e
    using justified_kinds_woken [OF that] woken_append assms(7) by (auto split: option.split)
  show "list_all (\<lambda>e. case write_kind e of None \<Rightarrow> True | Some k \<Rightarrow> woken ws k)
        (new_writes t (snd (run_state (Reconcile K ns name) t)))"
  proof (cases "read_app K ns name t")
    case (Inl e)
    then show ?thesis using Reconcile_writes [OF assms(1-3) run] run by (simp add: new_writes_def)
  next
    case (Inr a)
    then have "list_all (justified K a) (new_writes t t')"
      using Reconcile_writes [OF assms(1-3) run] by (auto simp: writes_only_def new_writes_def)
    then show ?thesis using run woke by (auto simp: list_all_iff)
  qed
qed

text \<open>
  A failure to look up an API version is remembered only until the next version is tried: when
  the first version cannot be looked up and the others do not exist, the kind counts as not installed, and is
  not watched until the controller is restarted.
\<close>

lemma failed_lookup_is_not_installed:
  assumes "run_state (k_restMapping K esoGroup ''SecretStore'' ''v1'') (world s) = (Inl e, world s)"
    and "run_state (k_restMapping K esoGroup ''SecretStore'' ''v1beta1'') (world s) = (Inl e', world s)"
    and "run_state (k_restMapping K esoGroup ''SecretStore'' ''v1alpha1'') (world s) = (Inl (NoMatch m), world s)"
  shows "run_state (optional_watches (resolveSecretStoreGVK K # rs) b) s = run_state (optional_watches rs b) s"
  using assms by (simp add: resolveSecretStoreGVK_def resolvePreferredGVK_def)

section \<open>Concrete instances\<close>

definition calm_manager :: "cluster manager_api" where
  "calm_manager =
     \<lparr>ma_newCertWatcher = (\<lambda>_ _. State_Monad.return (Inr ())), ma_getConfig = State_Monad.return (Inr ()),
      ma_newManager = (\<lambda>_. State_Monad.return (Inr ())), ma_complete = (\<lambda>_. State_Monad.return (Inr ())),
      ma_add = (\<lambda>_. State_Monad.return (Inr ())), ma_addHealthz = (\<lambda>_. State_Monad.return (Inr ())),
      ma_addReadyz = (\<lambda>_. State_Monad.return (Inr ())), ma_start = State_Monad.return (Inr ())\<rparr>"

definition first_boot :: "cluster boot" where
  "first_boot = \<lparr>bt_st = mem_st empty_cluster, bt_arrays = [], bt_steps = [], bt_options = None\<rparr>"

lemma manager_tls_witness:
  "\<exists>opts. bt_options (snd (run_state (main mem calm_manager id (\<lambda>_. None) [''--metrics-cert-path=/certs'']) first_boot)) = Some opts
     \<and> mo_AuthFilter opts"
proof -
  have f: "parse_manager_flags (\<lambda>_. None) [''--metrics-cert-path=/certs''] = Inr (default_flags\<lparr>metricsCertPath := ''/certs''\<rparr>)"
    by code_simp
  have "bt_options (snd (run_state (main mem calm_manager id (\<lambda>_. None) [''--metrics-cert-path=/certs'']) first_boot)) \<noteq> None"
    by code_simp
  then obtain opts where o: "bt_options (snd (run_state (main mem calm_manager id (\<lambda>_. None) [''--metrics-cert-path=/certs'']) first_boot)) = Some opts"
    by blast
  have "bt_options first_boot = None" by (simp add: first_boot_def)
  then have "mo_AuthFilter opts"
    using manager_tls [OF _ f prod.collapse [symmetric] _ o] by (simp add: default_flags_def Let_def)
  then show ?thesis using o by blast
qed

lemma written_kinds_watched_witness:
  "\<exists>w s'. run_state (SetupWithManager mem (ma_complete calm_manager)) (mem_st eso_cluster) = (Inr (), s')
     \<and> run_state (ma_complete calm_manager (base_watches
          @ [watch_of (GVKSource store_gvk) MapSecretStoreDependency True, watch_of (GVKSource eso_gvk) MapSecretStoreDependency True])) w
         = (Inr (), world s')"
proof -
  have "fst (run_state (SetupWithManager mem (ma_complete calm_manager)) (mem_st eso_cluster)) = Inr ()" by code_simp
  then obtain s' where begun: "run_state (SetupWithManager mem (ma_complete calm_manager)) (mem_st eso_cluster) = (Inr (), s')"
    by (metis prod.collapse)
  have "fst (run_state (resolveSecretStoreGVK mem) (mem_st eso_cluster)) = Inr store_gvk" by code_simp
  then obtain s1 where 1: "run_state (resolveSecretStoreGVK mem) (mem_st eso_cluster) = (Inr store_gvk, s1)" by (metis prod.collapse)
  have "fst (run_state (resolveExternalSecretGVK mem) (snd (run_state (resolveSecretStoreGVK mem) (mem_st eso_cluster)))) = Inr eso_gvk"
    by code_simp
  then obtain s2 where 2: "run_state (resolveExternalSecretGVK mem) s1 = (Inr eso_gvk, s2)"
    using 1 by (metis prod.collapse snd_conv)
  from written_kinds_watched [OF mem_api_laws mem_condition_laws mem_keyed_apps begun 1 2 refl] begun show ?thesis
    by (intro exI [of _ "world s2"] exI [of _ s']) (simp add: found_watch_def)
qed

end
