(* ===== verification/Access.thy ===== *)
theory Access
  imports AppDefTypes Programs
begin

text \<open>
  \<open>internal/apiserver/access.go\<close> and the pieces of HTTP the API server is built of: requests,
  responses, handlers and the gates around them. The locale \<open>gate\<close> is the contract of a
  middleware: it answers by itself or it passes the request on.
\<close>

section \<open>Requests and responses\<close>

record user =
  us_Name :: string
  us_UID :: string
  us_Groups :: "string list"
  us_Extra :: "(string \<times> string list) list"

record attributes =
  at_Verb :: string
  at_Namespace :: string
  at_Name :: string
  at_Subresource :: string

text \<open>
  \<open>hr_params\<close> are the URL parameters chi has extracted, \<open>hr_user\<close> the value under the context key
  of \<open>authenticate\<close>. Headers are by canonical name, first value.
\<close>

record request =
  hr_Method :: string
  hr_Path :: string
  hr_Header :: gomap
  hr_Query :: gomap
  hr_Body :: string
  hr_params :: gomap
  hr_user :: "user option"

datatype body =
    NoBody
  | AppBody AppDefinition
  | ListBody "AppDefinition list"
  | ErrorBody string
  | TextBody string
  | MetricsBody

record response =
  rsp_Status :: nat
  rsp_Header :: gomap
  rsp_Body :: body

record log_options =
  lo_Container :: string
  lo_Follow :: bool
  lo_Previous :: bool
  lo_TailLines :: int

text \<open>
  The calls a request has made, in order, with the answers of the access reviewer; the route
  pattern chi has matched so far; and the request counter of the metrics.
\<close>

datatype call =
    CAuthenticate string "user option"
  | CAuthorize user attributes bool
  | CGet string string
  | CList "string option" "nat option"
  | CCreate AppDefinition
  | CUpdate AppDefinition
  | CDelete AppDefinition
  | CPods string gomap "string list"
  | CLogs string string log_options

record 'w hst =
  hs_world :: 'w
  hs_calls :: "call list"
  hs_pattern :: string
  hs_requests :: "string \<times> string \<times> nat \<Rightarrow> nat"

type_synonym 'w handler = "request \<Rightarrow> ('w hst, response) state"

definition ask :: "('w, 'a) state \<Rightarrow> ('a \<Rightarrow> call list) \<Rightarrow> ('w hst, 'a) state" where
  "ask m trace = State (\<lambda>s.
     case run_state m (hs_world s) of
       (a, w) \<Rightarrow> (a, s\<lparr>hs_world := w, hs_calls := hs_calls s @ trace a\<rparr>))"

lemma run_ask [simp]:
  "run_state (ask m trace) s =
     (fst (run_state m (hs_world s)),
      s\<lparr>hs_world := snd (run_state m (hs_world s)), hs_calls := hs_calls s @ trace (fst (run_state m (hs_world s)))\<rparr>)"
  by (simp add: ask_def split: prod.split)

section \<open>Answers\<close>

definition status_text :: "nat \<Rightarrow> string" where
  "status_text n =
     (if n = 200 then ''OK'' else if n = 201 then ''Created'' else if n = 204 then ''No Content''
      else if n = 400 then ''Bad Request'' else if n = 401 then ''Unauthorized'' else if n = 403 then ''Forbidden''
      else if n = 404 then ''Not Found'' else if n = 409 then ''Conflict''
      else if n = 413 then ''Request Entity Too Large'' else if n = 422 then ''Unprocessable Entity''
      else if n = 428 then ''Precondition Required'' else if n = 429 then ''Too Many Requests''
      else if n = 500 then ''Internal Server Error'' else if n = 503 then ''Service Unavailable'' else '''')"

definition writeJSON :: "nat \<Rightarrow> body \<Rightarrow> ('s, response) state" where
  "writeJSON status b =
     State_Monad.return \<lparr>rsp_Status = status, rsp_Header = [(''Content-Type'', ''application/json'')], rsp_Body = b\<rparr>"

text \<open>The statuses whose error text is shown to the caller.\<close>

definition shown_statuses :: "nat list" where
  "shown_statuses = [400, 409, 413, 422, 428, 429]"

definition writeError :: "nat \<Rightarrow> error \<Rightarrow> ('s, response) state" where
  "writeError status e =
     writeJSON status (ErrorBody (if status \<in> set shown_statuses then err_msg e else status_text status))"

section \<open>The access reviewer\<close>

text \<open>
  \<open>TokenReview\<close> and \<open>SubjectAccessReview\<close>, as the Kubernetes client returns them; the client itself
  is a parameter.
\<close>

record token_review =
  tr_Authenticated :: bool
  tr_Error :: string
  tr_User :: user

record access_review =
  ar_User :: string
  ar_UID :: string
  ar_Groups :: "string list"
  ar_Extra :: "(string \<times> string list) list"
  ar_Group :: string
  ar_Version :: string
  ar_Resource :: string
  ar_Attributes :: attributes

record 'w auth_client =
  ac_tokenReview :: "string \<Rightarrow> ('w, token_review result) state"
  ac_subjectAccessReview :: "access_review \<Rightarrow> ('w, (bool \<times> string) result) state"

text \<open>The interface \<open>AccessReviewer\<close>; \<open>None\<close> is \<open>(AuthenticatedUser{}, false, nil)\<close>.\<close>

record 'w reviewer =
  rv_authenticate :: "string \<Rightarrow> ('w, user option result) state"
  rv_authorize :: "user \<Rightarrow> attributes \<Rightarrow> ('w, (bool \<times> string) result) state"

definition Authenticate :: "'w auth_client \<Rightarrow> string \<Rightarrow> ('w, user option result) state" where
  "Authenticate C bearerToken =
     tryM (ac_tokenReview C bearerToken) id (\<lambda>review.
       if \<not> tr_Authenticated review \<or> tr_Error review \<noteq> '''' then ret None
       else ret (Some (tr_User review)))"

definition review_of :: "user \<Rightarrow> attributes \<Rightarrow> access_review" where
  "review_of u attrs =
     \<lparr>ar_User = us_Name u, ar_UID = us_UID u, ar_Groups = us_Groups u, ar_Extra = map_merge [] (us_Extra u),
      ar_Group = ''appdefinition.abexamir.me'', ar_Version = ''v1'', ar_Resource = ''appdefinitions'',
      ar_Attributes = attrs\<rparr>"

definition Authorize :: "'w auth_client \<Rightarrow> user \<Rightarrow> attributes \<Rightarrow> ('w, (bool \<times> string) result) state" where
  "Authorize C u attrs = ac_subjectAccessReview C (review_of u attrs)"

definition KubernetesAccessReviewer :: "'w auth_client \<Rightarrow> 'w reviewer" where
  "KubernetesAccessReviewer C = \<lparr>rv_authenticate = Authenticate C, rv_authorize = Authorize C\<rparr>"

section \<open>Gates\<close>

text \<open>
  A gate around a handler either answers the request, without the handler, or hands it a request
  and a state; which of the two, and with what, does not depend on the handler.
\<close>

locale gate =
  fixes g :: "('rq \<Rightarrow> ('s, 'r) state) \<Rightarrow> 'rq \<Rightarrow> ('s, 'r) state"
    and pass :: "'rq \<Rightarrow> 's \<Rightarrow> ('r \<times> 's) + ('rq \<times> 's)"
  assumes gate_law:
    "run_state (g h rq) s = (case pass rq s of Inl out \<Rightarrow> out | Inr (rq', s') \<Rightarrow> run_state (h rq') s')"
begin

lemma refused: "pass rq s = Inl out \<Longrightarrow> run_state (g h rq) s = out"
  by (simp add: gate_law)

lemma passed: "pass rq s = Inr (rq', s') \<Longrightarrow> run_state (g h rq) s = run_state (h rq') s'"
  by (simp add: gate_law)

lemma refusal_ignores_handler: "pass rq s = Inl out \<Longrightarrow> run_state (g h rq) s = run_state (g h' rq) s"
  by (simp add: gate_law)

lemma decide_by:
  assumes "\<And>out. pass rq s = Inl out \<Longrightarrow> Q out" and "\<And>rq' s'. pass rq s = Inr (rq', s') \<Longrightarrow> Q (run_state (h rq') s')"
  shows "Q (run_state (g h rq) s)"
  using assms by (cases "pass rq s") (auto simp: gate_law)

end

section \<open>Authentication\<close>

definition bearer :: string where
  "bearer = ''Bearer ''"

definition bearer_token :: "request \<Rightarrow> string" where
  "bearer_token r = trim_space (trim_prefix (map_get (hr_Header r) ''Authorization'') bearer)"

definition authenticate :: "'w reviewer option \<Rightarrow> 'w handler \<Rightarrow> 'w handler" where
  "authenticate reviewer next' r =
     (case reviewer of
        None \<Rightarrow> writeError 503 (Plain ''API authentication is not configured'')
      | Some rv \<Rightarrow>
          if \<not> has_prefix (map_get (hr_Header r) ''Authorization'') bearer \<or> bearer_token r = ''''
          then writeError 401 (Plain ''a bearer token is required'')
          else do {
            res \<leftarrow> ask (rv_authenticate rv (bearer_token r)) (\<lambda>res. [CAuthenticate (bearer_token r)
                     (case res of Inr (Some u) \<Rightarrow> Some u | _ \<Rightarrow> None)]);
            case res of
              Inl _ \<Rightarrow> writeError 503 (Plain ''authentication service unavailable'')
            | Inr None \<Rightarrow> writeError 401 (Plain ''invalid bearer token'')
            | Inr (Some u) \<Rightarrow> next' (r\<lparr>hr_user := Some u\<rparr>) })"

section \<open>Authorization\<close>

definition access_attributes :: "string \<Rightarrow> string \<Rightarrow> bool \<Rightarrow> bool \<Rightarrow> request \<Rightarrow> attributes" where
  "access_attributes verb subresource namespaced named r =
     \<lparr>at_Verb = verb,
      at_Namespace = (if namespaced then map_get (hr_params r) ''namespace'' else ''''),
      at_Name = (if named then map_get (hr_params r) ''name'' else ''''),
      at_Subresource = subresource\<rparr>"

text \<open>Behind \<open>authenticate\<close> the reviewer is not nil; without one the Go code would panic, which
  chi's \<open>Recoverer\<close> answers with an empty 500.\<close>

definition requireAccessFor :: "'w reviewer option \<Rightarrow> string \<Rightarrow> string \<Rightarrow> bool \<Rightarrow> bool \<Rightarrow> 'w handler \<Rightarrow> 'w handler" where
  "requireAccessFor reviewer verb subresource namespaced named next' r =
     (case hr_user r of
        None \<Rightarrow> writeError 401 (Plain ''authenticated user missing'')
      | Some u \<Rightarrow>
          let attrs = access_attributes verb subresource namespaced named r
          in case reviewer of
               None \<Rightarrow> State_Monad.return \<lparr>rsp_Status = 500, rsp_Header = [], rsp_Body = NoBody\<rparr>
             | Some rv \<Rightarrow> do {
                 res \<leftarrow> ask (rv_authorize rv u attrs)
                          (\<lambda>res. [CAuthorize u attrs (case res of Inr (ok, _) \<Rightarrow> ok | Inl _ \<Rightarrow> False)]);
                 case res of
                   Inl _ \<Rightarrow> writeError 503 (Plain ''authorization service unavailable'')
                 | Inr (allowed, reason) \<Rightarrow>
                     if \<not> allowed then writeError 403 (Plain ''forbidden by Kubernetes RBAC'')
                     else next' r })"

definition requireAccess :: "'w reviewer option \<Rightarrow> string \<Rightarrow> bool \<Rightarrow> bool \<Rightarrow> 'w handler \<Rightarrow> 'w handler" where
  "requireAccess reviewer verb namespaced named = requireAccessFor reviewer verb '''' namespaced named"

definition requireAccessSubresource :: "'w reviewer option \<Rightarrow> string \<Rightarrow> string \<Rightarrow> 'w handler \<Rightarrow> 'w handler" where
  "requireAccessSubresource reviewer verb subresource = requireAccessFor reviewer verb subresource True True"

section \<open>The two gates\<close>

definition auth_pass :: "'w reviewer option \<Rightarrow> request \<Rightarrow> 'w hst \<Rightarrow> (response \<times> 'w hst) + (request \<times> 'w hst)" where
  "auth_pass reviewer r s =
     (case reviewer of
        None \<Rightarrow> Inl (run_state (authenticate reviewer (\<lambda>_. writeJSON 200 NoBody) r) s)
      | Some rv \<Rightarrow>
          if \<not> has_prefix (map_get (hr_Header r) ''Authorization'') bearer \<or> bearer_token r = ''''
          then Inl (run_state (authenticate reviewer (\<lambda>_. writeJSON 200 NoBody) r) s)
          else (case run_state (rv_authenticate rv (bearer_token r)) (hs_world s) of
                  (Inr (Some u), w) \<Rightarrow>
                    Inr (r\<lparr>hr_user := Some u\<rparr>,
                         s\<lparr>hs_world := w, hs_calls := hs_calls s @ [CAuthenticate (bearer_token r) (Some u)]\<rparr>)
                | _ \<Rightarrow> Inl (run_state (authenticate reviewer (\<lambda>_. writeJSON 200 NoBody) r) s)))"

interpretation auth: gate "authenticate reviewer" "auth_pass reviewer" for reviewer
  by unfold_locales
    (auto simp: authenticate_def auth_pass_def split: option.splits sum.splits prod.splits)

definition access_pass ::
  "'w reviewer option \<Rightarrow> string \<Rightarrow> string \<Rightarrow> bool \<Rightarrow> bool \<Rightarrow> request \<Rightarrow> 'w hst \<Rightarrow> (response \<times> 'w hst) + (request \<times> 'w hst)" where
  "access_pass reviewer verb sub nsd nmd r s =
     (let refusal = Inl (run_state (requireAccessFor reviewer verb sub nsd nmd (\<lambda>_. writeJSON 200 NoBody) r) s);
          attrs = access_attributes verb sub nsd nmd r
      in case (hr_user r, reviewer) of
           (Some u, Some rv) \<Rightarrow>
             (case run_state (rv_authorize rv u attrs) (hs_world s) of
                (Inr (allowed, _), w) \<Rightarrow>
                  if allowed then Inr (r, s\<lparr>hs_world := w, hs_calls := hs_calls s @ [CAuthorize u attrs True]\<rparr>)
                  else refusal
              | _ \<Rightarrow> refusal)
         | _ \<Rightarrow> refusal)"

interpretation access: gate "requireAccessFor reviewer verb sub nsd nmd" "access_pass reviewer verb sub nsd nmd"
  for reviewer verb sub nsd nmd
  by unfold_locales
    (auto simp: requireAccessFor_def access_pass_def Let_def split: option.splits sum.splits prod.splits)

end
