(* ===== verification/Handlers.thy ===== *)
theory Handlers
  imports Access
begin

text \<open>
  \<open>internal/apiserver/handlers.go\<close>: the operations of the HTTP API on AppDefinitions, what they
  accept and what they show.
\<close>

section \<open>The clients\<close>

text \<open>
  The controller-runtime client, as far as the handlers use it, and the log stream of a pod. A
  stream is the sequence of its reads: the bytes read and whether an error (the end of the stream
  among them) came with them.
\<close>

record 'w api_client =
  ap_get :: "string \<Rightarrow> string \<Rightarrow> ('w, AppDefinition result) state"
  ap_list :: "string option \<Rightarrow> nat option \<Rightarrow> ('w, AppDefinition list result) state"
  ap_create :: "AppDefinition \<Rightarrow> ('w, AppDefinition result) state"
  ap_update :: "AppDefinition \<Rightarrow> ('w, AppDefinition result) state"
  ap_delete :: "AppDefinition \<Rightarrow> ('w, unit result) state"
  ap_pods :: "string \<Rightarrow> gomap \<Rightarrow> ('w, string list result) state"

type_synonym log_stream = "(string \<times> bool) list"

type_synonym 'w log_client = "string \<Rightarrow> string \<Rightarrow> log_options \<Rightarrow> ('w, log_stream result) state"

text \<open>
  \<open>encoding/json\<close> on a body of at most the given size: the first value, and whether a second one
  follows, as a decoder that rejects unknown fields sees them.
\<close>

datatype trailing = EndOfInput | AnotherValue | TrailingError error

type_synonym decoder = "nat \<Rightarrow> string \<Rightarrow> (AppDefinition \<times> trailing) result"

record 'w server =
  sv_client :: "'w api_client"
  sv_logs :: "'w log_client option"
  sv_reviewer :: "'w reviewer option"
  sv_allowedOrigins :: "string list"
  sv_allow :: "('w, bool) state"
  sv_decode :: decoder
  sv_printable :: "nat \<Rightarrow> bool"

section \<open>Statuses\<close>

definition maxRequestBodyBytes :: nat where
  "maxRequestBodyBytes = 1048576"

definition defaultLogTailLines :: int where
  "defaultLogTailLines = 500"

definition httpStatusFor :: "error \<Rightarrow> nat" where
  "httpStatusFor e =
     (case reason_of e of
        Some NotFound \<Rightarrow> 404
      | Some AlreadyExists \<Rightarrow> 409
      | Some Forbidden \<Rightarrow> 403
      | Some Unauthorized \<Rightarrow> 401
      | Some BadRequest \<Rightarrow> 400
      | Some Invalid \<Rightarrow> 422
      | Some Conflict \<Rightarrow> 409
      | Some RequestEntityTooLarge \<Rightarrow> 413
      | _ \<Rightarrow> 500)"

definition httpStatusForDecodeError :: "error \<Rightarrow> nat" where
  "httpStatusForDecodeError e = (if is_max_bytes e then 413 else 400)"

definition decodeJSONBody :: "decoder \<Rightarrow> request \<Rightarrow> AppDefinition result" where
  "decodeJSONBody decode r =
     (case decode maxRequestBodyBytes (hr_Body r) of
        Inl e \<Rightarrow> Inl (Wrap ''invalid JSON body'' e)
      | Inr (app, rest) \<Rightarrow>
          (case rest of
             EndOfInput \<Rightarrow> Inr app
           | AnotherValue \<Rightarrow> Inl (Plain ''request body must contain exactly one JSON object'')
           | TrailingError e \<Rightarrow> Inl (Wrap ''invalid trailing JSON'' e)))"

section \<open>Inline secret data\<close>

definition map_secrets :: "(SecretMount \<Rightarrow> SecretMount) \<Rightarrow> AppDefinition \<Rightarrow> AppDefinition" where
  "map_secrets f a = a\<lparr>ad_spec := (ad_spec a)\<lparr>spec_Secrets := map f (spec_Secrets (ad_spec a))\<rparr>\<rparr>"

definition sanitizeAppDefinition :: "AppDefinition \<Rightarrow> AppDefinition" where
  "sanitizeAppDefinition = map_secrets (\<lambda>sec. sec\<lparr>sec_Data := None\<rparr>)"

definition sanitizeAppDefinitionList :: "AppDefinition list \<Rightarrow> AppDefinition list" where
  "sanitizeAppDefinitionList = map (map_secrets (\<lambda>sec. sec\<lparr>sec_Data := None\<rparr>))"

definition rejectInlineSecretData :: "AppDefinition \<Rightarrow> error option" where
  "rejectInlineSecretData app =
     map_option (\<lambda>sec. Plain (''secrets['' @ sec_Name sec
        @ ''].data cannot be submitted through the API; use secretRef or externalSecrets''))
       (find (\<lambda>sec. sec_Data sec \<noteq> None) (spec_Secrets (ad_spec app)))"

definition requireSecretSources :: "AppDefinition \<Rightarrow> error option" where
  "requireSecretSources app =
     map_option (\<lambda>sec. Plain (''secrets['' @ sec_Name sec
        @ ''] must set secretRef; use externalSecrets for externally managed values''))
       (find (\<lambda>sec. sec_SecretRef sec = '''' \<and> sec_Data sec = None) (spec_Secrets (ad_spec app)))"

text \<open>\<open>existingData\<close>: the last inline entry of a name wins.\<close>

fun existing_data :: "(string \<times> gomap) list \<Rightarrow> SecretMount list \<Rightarrow> (string \<times> gomap) list" where
  "existing_data m [] = m"
| "existing_data m (sec # secs) =
     existing_data (case sec_Data sec of
        Some d \<Rightarrow> if sec_SecretRef sec = '''' then map_put (sec_Name sec) d m else m
      | None \<Rightarrow> m) secs"

definition preserveInlineSecretData :: "AppDefinition \<Rightarrow> AppDefinition \<Rightarrow> AppDefinition" where
  "preserveInlineSecretData existing update =
     (let old = existing_data [] (spec_Secrets (ad_spec existing))
      in map_secrets (\<lambda>sec.
           if sec_SecretRef sec = '''' \<and> sec_Data sec = None
           then sec\<lparr>sec_Data := map_of old (sec_Name sec)\<rparr> else sec) update)"

section \<open>Reading\<close>

definition readiness :: "'w server \<Rightarrow> 'w handler" where
  "readiness S r = do {
     res \<leftarrow> ask (ap_list (sv_client S) None (Some 1)) (\<lambda>_. [CList None (Some 1)]);
     case res of
       Inl e \<Rightarrow> writeError 503 e
     | Inr _ \<Rightarrow> State_Monad.return \<lparr>rsp_Status = 200, rsp_Header = [], rsp_Body = NoBody\<rparr> }"

definition listAppDefinitions :: "'w server \<Rightarrow> 'w handler" where
  "listAppDefinitions S r = do {
     res \<leftarrow> ask (ap_list (sv_client S) None None) (\<lambda>_. [CList None None]);
     case res of
       Inl e \<Rightarrow> writeError 500 e
     | Inr apps \<Rightarrow> writeJSON 200 (ListBody (sanitizeAppDefinitionList apps)) }"

definition listAppDefinitionsInNamespace :: "'w server \<Rightarrow> 'w handler" where
  "listAppDefinitionsInNamespace S r =
     (let ns = map_get (hr_params r) ''namespace''
      in do {
        res \<leftarrow> ask (ap_list (sv_client S) (Some ns) None) (\<lambda>_. [CList (Some ns) None]);
        case res of
          Inl e \<Rightarrow> writeError 500 e
        | Inr apps \<Rightarrow> writeJSON 200 (ListBody (sanitizeAppDefinitionList apps)) })"

text \<open>\<open>s.client.Get(...)\<close>, the error answered with its status.\<close>

definition getting :: "'w server \<Rightarrow> string \<Rightarrow> string \<Rightarrow> (AppDefinition \<Rightarrow> ('w hst, response) state) \<Rightarrow> ('w hst, response) state" where
  "getting S ns name k = do {
     res \<leftarrow> ask (ap_get (sv_client S) ns name) (\<lambda>_. [CGet ns name]);
     case res of
       Inl e \<Rightarrow> writeError (httpStatusFor e) e
     | Inr app \<Rightarrow> k app }"

definition getAppDefinition :: "'w server \<Rightarrow> 'w handler" where
  "getAppDefinition S r =
     getting S (map_get (hr_params r) ''namespace'') (map_get (hr_params r) ''name'')
       (\<lambda>app. writeJSON 200 (AppBody (sanitizeAppDefinition app)))"

section \<open>Logs\<close>

definition podSelectorLabels :: "string \<Rightarrow> gomap" where
  "podSelectorLabels name = [(''app.kubernetes.io/name'', name)]"

text \<open>The copy loop: it ends with the first read that comes with an error.\<close>

fun copy_stream :: "log_stream \<Rightarrow> string" where
  "copy_stream [] = ''''"
| "copy_stream ((chunk, err) # rest) = (if err then chunk else chunk @ copy_stream rest)"

definition tailLines :: "request \<Rightarrow> int option" where
  "tailLines r =
     (let raw = map_get (hr_Query r) ''tailLines''
      in if raw = '''' then Some defaultLogTailLines
         else (case parse_int64 raw of None \<Rightarrow> None | Some tail \<Rightarrow> if tail < 0 then None else Some tail))"

definition log_options_of :: "request \<Rightarrow> int \<Rightarrow> log_options" where
  "log_options_of r tail =
     \<lparr>lo_Container = map_get (hr_Query r) ''container'',
      lo_Follow = (map_get (hr_Query r) ''follow'' = ''true''),
      lo_Previous = (map_get (hr_Query r) ''previous'' = ''true''),
      lo_TailLines = tail\<rparr>"

definition streamLogs :: "'w log_client \<Rightarrow> string \<Rightarrow> string \<Rightarrow> request \<Rightarrow> ('w hst, response) state" where
  "streamLogs logs ns podName r =
     (case tailLines r of
        None \<Rightarrow> writeError 400 (Plain ''tailLines must be a non-negative integer'')
      | Some tail \<Rightarrow>
          let opts = log_options_of r tail
          in do {
            res \<leftarrow> ask (logs ns podName opts) (\<lambda>_. [CLogs ns podName opts]);
            case res of
              Inl e \<Rightarrow> writeError (httpStatusFor e) e
            | Inr stream \<Rightarrow> State_Monad.return
                \<lparr>rsp_Status = 200,
                 rsp_Header = [(''Content-Type'', ''text/plain; charset=utf-8''), (''X-Content-Type-Options'', ''nosniff'')],
                 rsp_Body = TextBody (copy_stream stream)\<rparr> })"

text \<open>The pod asked for, if it is one of the application's; by default the first of them.\<close>

definition chosenPod :: "request \<Rightarrow> string list \<Rightarrow> string option" where
  "chosenPod r pods =
     (let podName = map_get (hr_Query r) ''pod''
      in if podName = '''' then Some (hd pods)
         else if podName \<in> set pods then Some podName else None)"

definition podLogs :: "'w server \<Rightarrow> 'w log_client \<Rightarrow> request \<Rightarrow> string \<Rightarrow> string \<Rightarrow> ('w hst, response) state" where
  "podLogs S logs r ns name = do {
     res \<leftarrow> ask (ap_pods (sv_client S) ns (podSelectorLabels name)) (\<lambda>res.
              [CPods ns (podSelectorLabels name) (case res of Inr pods \<Rightarrow> pods | Inl _ \<Rightarrow> [])]);
     case res of
       Inl e \<Rightarrow> writeError 500 e
     | Inr pods \<Rightarrow>
         if pods = [] then writeError 404 (Plain ''no pods found for this app'')
         else (case chosenPod r pods of
                 None \<Rightarrow> writeError 404 (Plain (''pod '' @ quote (sv_printable S) (map_get (hr_Query r) ''pod'')
                           @ '' does not belong to app '' @ quote (sv_printable S) name))
               | Some podName \<Rightarrow> streamLogs logs ns podName r) }"

definition getAppDefinitionLogs :: "'w server \<Rightarrow> 'w handler" where
  "getAppDefinitionLogs S r =
     (let ns = map_get (hr_params r) ''namespace''; name = map_get (hr_params r) ''name''
      in case sv_logs S of
           None \<Rightarrow> writeError 503 (Plain ''log streaming is not configured'')
         | Some logs \<Rightarrow> getting S ns name (\<lambda>_. podLogs S logs r ns name))"

section \<open>Writing\<close>

text \<open>A check that answers 422 with its error.\<close>

definition checked :: "error option \<Rightarrow> ('w hst, response) state \<Rightarrow> ('w hst, response) state" where
  "checked err k = (case err of Some e \<Rightarrow> writeError 422 e | None \<Rightarrow> k)"

definition reset_for_create :: "string \<Rightarrow> AppDefinition \<Rightarrow> AppDefinition" where
  "reset_for_create ns app = app\<lparr>ad_meta := (ad_meta app)
     \<lparr>m_resourceVersion := '''', m_uid := '''', m_generation := 0, m_managedFields := [],
      m_creationTimestamp := None, m_deletionTimestamp := None, m_deletionGracePeriodSeconds := None,
      m_finalizers := [], m_namespace := ns\<rparr>, ad_status := empty_status\<rparr>"

definition createAppDefinition :: "'w server \<Rightarrow> 'w handler" where
  "createAppDefinition S r =
     (case decodeJSONBody (sv_decode S) r of
        Inl e \<Rightarrow> writeError (httpStatusForDecodeError e) e
      | Inr app \<Rightarrow>
          checked (rejectInlineSecretData app)
          (checked (requireSecretSources app)
          (let app = reset_for_create (map_get (hr_params r) ''namespace'') app
           in do {
             res \<leftarrow> ask (ap_create (sv_client S) app) (\<lambda>_. [CCreate app]);
             case res of
               Inl e \<Rightarrow> writeError (httpStatusFor e) e
             | Inr app \<Rightarrow> writeJSON 201 (AppBody (sanitizeAppDefinition app)) })))"

text \<open>The checks of the metadata of an update, in their order.\<close>

definition update_refused :: "(nat \<Rightarrow> bool) \<Rightarrow> string \<Rightarrow> string \<Rightarrow> AppDefinition \<Rightarrow> AppDefinition \<Rightarrow> (nat \<times> error) option" where
  "update_refused printable ns name existing update =
     (if ad_name update \<noteq> '''' \<and> ad_name update \<noteq> name then
        Some (400, Plain (''metadata.name must match URL name '' @ quote printable name))
      else if ad_namespace update \<noteq> '''' \<and> ad_namespace update \<noteq> ns then
        Some (400, Plain (''metadata.namespace must match URL namespace '' @ quote printable ns))
      else if m_resourceVersion (ad_meta update) = '''' then
        Some (428, Plain ''metadata.resourceVersion is required for updates'')
      else if m_resourceVersion (ad_meta update) \<noteq> m_resourceVersion (ad_meta existing) then
        Some (409, Plain ''resource was modified; refresh and retry'')
      else None)"

definition updateAppDefinition :: "'w server \<Rightarrow> 'w handler" where
  "updateAppDefinition S r =
     (let ns = map_get (hr_params r) ''namespace''; name = map_get (hr_params r) ''name''
      in getting S ns name (\<lambda>existing.
        case decodeJSONBody (sv_decode S) r of
          Inl e \<Rightarrow> writeError (httpStatusForDecodeError e) e
        | Inr update \<Rightarrow>
            (case update_refused (sv_printable S) ns name existing update of
               Some (status, e) \<Rightarrow> writeError status e
             | None \<Rightarrow>
                 checked (rejectInlineSecretData update)
                 (let update = preserveInlineSecretData existing update
                  in checked (requireSecretSources update)
                     (let app = existing\<lparr>ad_spec := ad_spec update\<rparr>
                      in do {
                        res \<leftarrow> ask (ap_update (sv_client S) app) (\<lambda>_. [CUpdate app]);
                        case res of
                          Inl e \<Rightarrow> writeError (httpStatusFor e) e
                        | Inr app \<Rightarrow> writeJSON 200 (AppBody (sanitizeAppDefinition app)) })))))"

definition deleteAppDefinition :: "'w server \<Rightarrow> 'w handler" where
  "deleteAppDefinition S r =
     getting S (map_get (hr_params r) ''namespace'') (map_get (hr_params r) ''name'') (\<lambda>app. do {
       res \<leftarrow> ask (ap_delete (sv_client S) app) (\<lambda>_. [CDelete app]);
       case res of
         Inl e \<Rightarrow> writeError (httpStatusFor e) e
       | Inr _ \<Rightarrow> State_Monad.return \<lparr>rsp_Status = 204, rsp_Header = [], rsp_Body = NoBody\<rparr> })"


section \<open>What a handler answers and which calls it makes\<close>

text \<open>
  \<open>serves P Q m\<close>: whatever the state, \<open>m\<close> answers with a response in \<open>Q\<close>, the calls it makes
  are all in \<open>P\<close>, and it leaves the request counter alone.
\<close>

definition serves :: "(call \<Rightarrow> bool) \<Rightarrow> (response \<Rightarrow> bool) \<Rightarrow> ('w hst, response) state \<Rightarrow> bool" where
  "serves P Q m \<longleftrightarrow>
     (\<forall>s. Q (fst (run_state m s)) \<and> hs_requests (snd (run_state m s)) = hs_requests s \<and>
          (\<exists>cs. hs_calls (snd (run_state m s)) = hs_calls s @ cs \<and> list_all P cs))"

lemma serves_return [intro]: "Q rsp \<Longrightarrow> serves P Q (State_Monad.return rsp)"
  by (auto simp: serves_def intro: exI [where x = "[]"])

text \<open>The rest of a handler after a call need only be fit for the results the call can have.\<close>

lemma serves_ask_result:
  fixes m :: "('w, 'a) state" and k :: "'a \<Rightarrow> ('w hst, response) state"
  assumes "\<And>a. list_all P (trace a)" and "\<And>a w w'. run_state m w = (a, w') \<Longrightarrow> serves P Q (k a)"
  shows "serves P Q (ask m trace \<bind> k)"
  unfolding serves_def
proof
  fix s :: "'w hst"
  define a where "a = fst (run_state m (hs_world s))"
  define s' where "s' = s\<lparr>hs_world := snd (run_state m (hs_world s)), hs_calls := hs_calls s @ trace a\<rparr>"
  have run: "run_state (ask m trace \<bind> k) s = run_state (k a) s'" by (simp add: a_def s'_def)
  have "run_state m (hs_world s) = (a, snd (run_state m (hs_world s)))" by (simp add: a_def)
  from assms(2) [OF this] obtain cs where k: "Q (fst (run_state (k a) s'))"
    "hs_requests (snd (run_state (k a) s')) = hs_requests s'"
    "hs_calls (snd (run_state (k a) s')) = hs_calls s' @ cs" "list_all P cs"
    unfolding serves_def by blast
  then have "hs_calls (snd (run_state (k a) s')) = hs_calls s @ trace a @ cs" "list_all P (trace a @ cs)"
    using assms(1) [of a] by (simp_all add: s'_def)
  then show "Q (fst (run_state (ask m trace \<bind> k) s))
      \<and> hs_requests (snd (run_state (ask m trace \<bind> k) s)) = hs_requests s
      \<and> (\<exists>cs. hs_calls (snd (run_state (ask m trace \<bind> k) s)) = hs_calls s @ cs \<and> list_all P cs)"
    unfolding run using k by (auto simp: s'_def)
qed

lemma serves_ask [intro]:
  assumes "\<And>a. list_all P (trace a)" and "\<And>a. serves P Q (k a)"
  shows "serves P Q (ask m trace \<bind> k)"
  by (rule serves_ask_result) (use assms in auto)

lemma serves_D:
  assumes "serves P Q m"
  shows "Q (fst (run_state m s))" and "hs_requests (snd (run_state m s)) = hs_requests s"
    and "\<exists>cs. hs_calls (snd (run_state m s)) = hs_calls s @ cs \<and> list_all P cs"
  using assms by (simp_all add: serves_def)

lemma serves_mono: "serves P Q m \<Longrightarrow> (\<And>c. P c \<Longrightarrow> P' c) \<Longrightarrow> serves P' Q m"
  by (fastforce simp: serves_def list_all_iff)

text \<open>The body of a response shows no inline secret data; an internal error is not spelled out.\<close>

definition no_inline_data :: "AppDefinition \<Rightarrow> bool" where
  "no_inline_data app \<longleftrightarrow> (\<forall>sec \<in> set (spec_Secrets (ad_spec app)). sec_Data sec = None)"

definition hides_inline_data :: "response \<Rightarrow> bool" where
  "hides_inline_data rsp \<longleftrightarrow>
     (case rsp_Body rsp of
        AppBody app \<Rightarrow> no_inline_data app
      | ListBody apps \<Rightarrow> list_all no_inline_data apps
      | _ \<Rightarrow> True)"

definition hides_internal_errors :: "response \<Rightarrow> bool" where
  "hides_internal_errors rsp \<longleftrightarrow>
     (case rsp_Body rsp of
        ErrorBody m \<Rightarrow> rsp_Status rsp \<in> {400, 409, 413, 422, 428, 429} \<or> m = status_text (rsp_Status rsp)
      | _ \<Rightarrow> True)"

lemma no_inline_data_sanitize [simp]: "no_inline_data (sanitizeAppDefinition app)"
  by (simp add: no_inline_data_def sanitizeAppDefinition_def map_secrets_def)

lemma no_inline_data_sanitize_list [simp]: "list_all no_inline_data (sanitizeAppDefinitionList apps)"
  by (simp add: no_inline_data_def sanitizeAppDefinitionList_def map_secrets_def list_all_iff)

lemma response_shapes [simp]:
  "hides_inline_data \<lparr>rsp_Status = n, rsp_Header = h, rsp_Body = AppBody (sanitizeAppDefinition app)\<rparr>"
  "hides_inline_data \<lparr>rsp_Status = n, rsp_Header = h, rsp_Body = ListBody (sanitizeAppDefinitionList apps)\<rparr>"
  "hides_inline_data \<lparr>rsp_Status = n, rsp_Header = h, rsp_Body = ErrorBody m\<rparr>"
  "hides_inline_data \<lparr>rsp_Status = n, rsp_Header = h, rsp_Body = TextBody m\<rparr>"
  "hides_inline_data \<lparr>rsp_Status = n, rsp_Header = h, rsp_Body = NoBody\<rparr>"
  "hides_inline_data \<lparr>rsp_Status = n, rsp_Header = h, rsp_Body = MetricsBody\<rparr>"
  "hides_internal_errors \<lparr>rsp_Status = n, rsp_Header = h, rsp_Body = AppBody app\<rparr>"
  "hides_internal_errors \<lparr>rsp_Status = n, rsp_Header = h, rsp_Body = ListBody apps\<rparr>"
  "hides_internal_errors \<lparr>rsp_Status = n, rsp_Header = h,
     rsp_Body = ErrorBody (if n \<in> set shown_statuses then m else status_text n)\<rparr>"
  "hides_internal_errors \<lparr>rsp_Status = n, rsp_Header = h, rsp_Body = TextBody m\<rparr>"
  "hides_internal_errors \<lparr>rsp_Status = n, rsp_Header = h, rsp_Body = NoBody\<rparr>"
  "hides_internal_errors \<lparr>rsp_Status = n, rsp_Header = h, rsp_Body = MetricsBody\<rparr>"
  by (simp_all add: hides_inline_data_def hides_internal_errors_def shown_statuses_def)

lemma hides_header [simp]:
  "hides_inline_data (rsp\<lparr>rsp_Header := h\<rparr>) = hides_inline_data rsp"
  "hides_internal_errors (rsp\<lparr>rsp_Header := h\<rparr>) = hides_internal_errors rsp"
  by (simp_all add: hides_inline_data_def hides_internal_errors_def split: body.split)

abbreviation discreet :: "response \<Rightarrow> bool" where
  "discreet rsp \<equiv> hides_inline_data rsp \<and> hides_internal_errors rsp"

lemma discreet_writeError [intro]: "serves P discreet (writeError n e)"
  unfolding writeError_def writeJSON_def by (rule serves_return) (simp del: if_split)

lemma discreet_writeJSON [intro]:
  "serves P discreet (writeJSON n (AppBody (sanitizeAppDefinition app)))"
  "serves P discreet (writeJSON n (ListBody (sanitizeAppDefinitionList apps)))"
  unfolding writeJSON_def by (rule serves_return, simp)+

lemma discreet_getting [intro]:
  "P (CGet ns name) \<Longrightarrow> (\<And>app. serves P discreet (k app)) \<Longrightarrow> serves P discreet (getting S ns name k)"
  unfolding getting_def by (intro serves_ask) (auto split: sum.split)

text \<open>A read by key, documented: the object returned has the namespace and the name asked for.\<close>

definition keyed_api :: "'w api_client \<Rightarrow> bool" where
  "keyed_api C \<longleftrightarrow> (\<forall>ns name w app w'. run_state (ap_get C ns name) w = (Inr app, w') \<longrightarrow>
     ad_namespace app = ns \<and> ad_name app = name)"

lemma discreet_getting_keyed:
  assumes "keyed_api (sv_client S)" and "P (CGet ns name)"
    and "\<And>app. ad_namespace app = ns \<Longrightarrow> ad_name app = name \<Longrightarrow> serves P discreet (k app)"
  shows "serves P discreet (getting S ns name k)"
  unfolding getting_def
proof (rule serves_ask_result)
  fix a w w' assume "run_state (ap_get (sv_client S) ns name) w = (a, w')"
  then show "serves P discreet (case a of Inl e \<Rightarrow> writeError (httpStatusFor e) e | Inr app \<Rightarrow> k app)"
    using assms(1,3) unfolding keyed_api_def by (cases a) (simp_all add: discreet_writeError, blast)
qed (simp add: assms(2))

lemma discreet_checked [intro]: "(err = None \<Longrightarrow> serves P discreet k) \<Longrightarrow> serves P discreet (checked err k)"
  by (auto simp: checked_def split: option.split)

lemmas discreet_rules = serves_ask discreet_writeError discreet_writeJSON discreet_getting discreet_checked

section \<open>What the writing handlers send to the cluster\<close>

definition calls_made :: "'w hst \<Rightarrow> 'w hst \<Rightarrow> call list" where
  "calls_made s s' = drop (length (hs_calls s)) (hs_calls s')"

lemma calls_made_append: "hs_calls s' = hs_calls s @ cs \<Longrightarrow> calls_made s s' = cs"
  by (simp add: calls_made_def)

lemma run_writeError: "run_state (writeError n e) s = (fst (run_state (writeError n e) s), s)"
  by (simp add: writeError_def writeJSON_def)

lemma rejectInlineSecretData_None: "rejectInlineSecretData app = None \<longleftrightarrow> no_inline_data app"
  by (auto simp: rejectInlineSecretData_def no_inline_data_def find_None_iff)

lemma requireSecretSources_None:
  "requireSecretSources app = None \<longleftrightarrow>
     (\<forall>sec \<in> set (spec_Secrets (ad_spec app)). sec_SecretRef sec \<noteq> '''' \<or> sec_Data sec \<noteq> None)"
  by (auto simp: requireSecretSources_def find_None_iff)

definition create_accepted :: "AppDefinition \<Rightarrow> bool" where
  "create_accepted app \<longleftrightarrow> rejectInlineSecretData app = None \<and> requireSecretSources app = None"

lemma run_create:
  "run_state (createAppDefinition S r) s =
     (case decodeJSONBody (sv_decode S) r of
        Inl e \<Rightarrow> run_state (writeError (httpStatusForDecodeError e) e) s
      | Inr req \<Rightarrow>
          (case rejectInlineSecretData req of
             Some e \<Rightarrow> run_state (writeError 422 e) s
           | None \<Rightarrow>
               (case requireSecretSources req of
                  Some e \<Rightarrow> run_state (writeError 422 e) s
                | None \<Rightarrow>
                    (let app = reset_for_create (map_get (hr_params r) ''namespace'') req;
                         out = run_state (ap_create (sv_client S) app) (hs_world s)
                     in run_state
                          (case fst out of
                             Inl e \<Rightarrow> writeError (httpStatusFor e) e
                           | Inr app \<Rightarrow> writeJSON 201 (AppBody (sanitizeAppDefinition app)))
                          (s\<lparr>hs_world := snd out, hs_calls := hs_calls s @ [CCreate app]\<rparr>)))))"
  by (simp add: createAppDefinition_def checked_def Let_def split: sum.split option.split)

lemma run_answer_calls [simp]:
  "hs_calls (snd (run_state (writeError n e) s)) = hs_calls s"
  "hs_calls (snd (run_state (writeJSON n b) s)) = hs_calls s"
  "hs_calls (snd (run_state (case x of Inl e \<Rightarrow> writeError (f e) e | Inr a \<Rightarrow> writeJSON n (g a)) s)) = hs_calls s"
  by (simp_all add: writeError_def writeJSON_def split: sum.split)

lemma reset_for_create_simps [simp]:
  "ad_spec (reset_for_create ns app) = ad_spec app"
  "ad_status (reset_for_create ns app) = empty_status"
  "m_namespace (ad_meta (reset_for_create ns app)) = ns"
  by (simp_all add: reset_for_create_def)

lemma create_calls:
  assumes "decodeJSONBody (sv_decode S) r = Inr req"
    and "rejectInlineSecretData req = None" and "requireSecretSources req = None"
  shows "calls_made s (snd (run_state (createAppDefinition S r) s))
    = [CCreate (reset_for_create (map_get (hr_params r) ''namespace'') req)]"
  using assms by (simp add: run_create Let_def calls_made_def)

text \<open>
  C23. What reaches the cluster through POST: the handler makes at most the one call Create, and only
  for a body that decodes; the object it creates is the one of the body, in the namespace of the URL
  and under the name of the body, with every field the server owns reset (resource version, uid,
  generation, creation and deletion timestamps, finalizers, managed fields, status), and each of its
  secrets refers to an existing Secret and carries no inline data.
\<close>

theorem create_resets_server_fields:
  assumes "CCreate app \<in> set (calls_made s (snd (run_state (createAppDefinition S r) s)))"
  shows "calls_made s (snd (run_state (createAppDefinition S r) s)) = [CCreate app]
    \<and> (\<exists>req. decodeJSONBody (sv_decode S) r = Inr req \<and> ad_spec app = ad_spec req \<and> ad_name app = ad_name req)
    \<and> ad_namespace app = map_get (hr_params r) ''namespace''
    \<and> m_resourceVersion (ad_meta app) = '''' \<and> m_uid (ad_meta app) = '''' \<and> m_generation (ad_meta app) = 0
    \<and> m_creationTimestamp (ad_meta app) = None \<and> m_deletionTimestamp (ad_meta app) = None
    \<and> m_finalizers (ad_meta app) = [] \<and> m_managedFields (ad_meta app) = [] \<and> ad_status app = empty_status
    \<and> (\<forall>sec \<in> set (spec_Secrets (ad_spec app)). sec_Data sec = None \<and> sec_SecretRef sec \<noteq> '''')"
proof (cases "decodeJSONBody (sv_decode S) r")
  case (Inl e)
  then show ?thesis using assms by (simp add: run_create calls_made_def)
next
  case (Inr req)
  let ?app = "reset_for_create (map_get (hr_params r) ''namespace'') req"
  have ok: "rejectInlineSecretData req = None" "requireSecretSources req = None"
    using assms Inr by (auto simp: run_create calls_made_def split: option.splits)
  have calls: "calls_made s (snd (run_state (createAppDefinition S r) s)) = [CCreate ?app]"
    by (rule create_calls [OF Inr ok])
  with assms have "app = ?app" by (simp add: calls)
  moreover have "\<forall>sec \<in> set (spec_Secrets (ad_spec req)). sec_Data sec = None \<and> sec_SecretRef sec \<noteq> ''''"
    using ok by (auto simp: rejectInlineSecretData_None requireSecretSources_None no_inline_data_def)
  ultimately show ?thesis using calls Inr by (simp add: reset_for_create_def)
qed


lemma map_secrets_ad_spec:
  "spec_Secrets (ad_spec (map_secrets f a)) = map f (spec_Secrets (ad_spec a))"
  "ad_meta (map_secrets f a) = ad_meta a" "ad_status (map_secrets f a) = ad_status a"
  by (simp_all add: map_secrets_def)

lemma map_secrets_compose: "map_secrets f (map_secrets g a) = map_secrets (f \<circ> g) a"
  by (simp add: map_secrets_def)

lemma map_secrets_id: "(\<And>sec. sec \<in> set (spec_Secrets (ad_spec a)) \<Longrightarrow> f sec = sec) \<Longrightarrow> map_secrets f a = a"
  by (simp add: map_secrets_def map_idI)

lemma existing_data_source:
  "map_of (existing_data m secs) n = Some d \<Longrightarrow>
     map_of m n = Some d \<or> (\<exists>old \<in> set secs. sec_Name old = n \<and> sec_SecretRef old = '''' \<and> sec_Data old = Some d)"
  by (induction m secs rule: existing_data.induct) (fastforce split: option.splits if_splits)+

text \<open>The preserved update, without its inline data, is the update.\<close>

lemma sanitize_preserved:
  "no_inline_data update \<Longrightarrow> sanitizeAppDefinition (preserveInlineSecretData existing update) = update"
  unfolding sanitizeAppDefinition_def preserveInlineSecretData_def Let_def map_secrets_compose
  by (rule map_secrets_id) (simp add: no_inline_data_def)

lemma preserved_secret:
  assumes "no_inline_data update" and "sec \<in> set (spec_Secrets (ad_spec (preserveInlineSecretData existing update)))"
    and "sec_Data sec = Some d"
  shows "sec_SecretRef sec = '''' \<and>
    (\<exists>old \<in> set (spec_Secrets (ad_spec existing)).
        sec_Name old = sec_Name sec \<and> sec_SecretRef old = '''' \<and> sec_Data old = Some d)"
  using assms existing_data_source [of "[]" "spec_Secrets (ad_spec existing)" "sec_Name sec" d]
  by (auto simp: preserveInlineSecretData_def Let_def map_secrets_ad_spec no_inline_data_def split: if_splits)

lemma run_getting:
  "run_state (getting S ns name k) s =
     (let out = run_state (ap_get (sv_client S) ns name) (hs_world s)
      in run_state (case fst out of Inl e \<Rightarrow> writeError (httpStatusFor e) e | Inr app \<Rightarrow> k app)
           (s\<lparr>hs_world := snd out, hs_calls := hs_calls s @ [CGet ns name]\<rparr>))"
  by (simp add: getting_def Let_def)

text \<open>The body of the PUT handler behind its Get, one case per answer.\<close>

definition update_verdict :: "'w server \<Rightarrow> request \<Rightarrow> AppDefinition \<Rightarrow> (nat \<times> error) + AppDefinition" where
  "update_verdict S r existing =
     (case decodeJSONBody (sv_decode S) r of
        Inl e \<Rightarrow> Inl (httpStatusForDecodeError e, e)
      | Inr update \<Rightarrow>
          (case update_refused (sv_printable S) (map_get (hr_params r) ''namespace'') (map_get (hr_params r) ''name'')
                  existing update of
             Some refusal \<Rightarrow> Inl refusal
           | None \<Rightarrow>
               (case rejectInlineSecretData update of
                  Some e \<Rightarrow> Inl (422, e)
                | None \<Rightarrow>
                    (case requireSecretSources (preserveInlineSecretData existing update) of
                       Some e \<Rightarrow> Inl (422, e)
                     | None \<Rightarrow> Inr (existing\<lparr>ad_spec := ad_spec (preserveInlineSecretData existing update)\<rparr>)))))"

lemma update_by_verdict:
  "updateAppDefinition S r =
     getting S (map_get (hr_params r) ''namespace'') (map_get (hr_params r) ''name'') (\<lambda>existing.
       case update_verdict S r existing of
         Inl (status, e) \<Rightarrow> writeError status e
       | Inr app \<Rightarrow> ask (ap_update (sv_client S) app) (\<lambda>_. [CUpdate app]) \<bind> (\<lambda>res.
           case res of
             Inl e \<Rightarrow> writeError (httpStatusFor e) e
           | Inr app \<Rightarrow> writeJSON 200 (AppBody (sanitizeAppDefinition app))))"
  unfolding updateAppDefinition_def Let_def
  by (rule arg_cong [where f = "getting S _ _"])
    (auto simp: update_verdict_def checked_def fun_eq_iff split: sum.split option.split)

lemma update_refused_None:
  "update_refused tbl ns name existing update = None \<longleftrightarrow>
     (ad_name update = '''' \<or> ad_name update = name) \<and> (ad_namespace update = '''' \<or> ad_namespace update = ns)
     \<and> m_resourceVersion (ad_meta update) \<noteq> ''''
     \<and> m_resourceVersion (ad_meta update) = m_resourceVersion (ad_meta existing)"
  by (auto simp: update_refused_def)

lemma update_verdict_accepts:
  assumes "update_verdict S r existing = Inr app"
  obtains update where "decodeJSONBody (sv_decode S) r = Inr update" and "no_inline_data update"
    and "m_resourceVersion (ad_meta update) \<noteq> ''''"
    and "m_resourceVersion (ad_meta update) = m_resourceVersion (ad_meta existing)"
    and "requireSecretSources (preserveInlineSecretData existing update) = None"
    and "app = existing\<lparr>ad_spec := ad_spec (preserveInlineSecretData existing update)\<rparr>"
  using assms by (auto simp: update_verdict_def update_refused_None rejectInlineSecretData_None
      split: sum.splits option.splits)

lemma run_update:
  assumes "run_state (ap_get (sv_client S) (map_get (hr_params r) ''namespace'') (map_get (hr_params r) ''name'')) (hs_world s)
             = (Inr existing, w)"
  shows "calls_made s (snd (run_state (updateAppDefinition S r) s)) =
     CGet (map_get (hr_params r) ''namespace'') (map_get (hr_params r) ''name'')
       # (case update_verdict S r existing of Inl _ \<Rightarrow> [] | Inr app \<Rightarrow> [CUpdate app])"
  using assms by (simp add: update_by_verdict run_getting calls_made_def split: sum.split prod.split)

text \<open>
  C22. What reaches the cluster through PUT: when the handler updates an object, the object it sends
  has the metadata and status of the one it has just read, unchanged; the body carried that object's
  resource version; the spec is the body's, and the body had no inline secret data. Every inline
  value in the object sent is one the stored object already had under the same secret name, for a
  secret that refers to no other Secret; and each secret has a source.
\<close>

theorem update_replaces_spec_only:
  assumes "run_state (ap_get (sv_client S) (map_get (hr_params r) ''namespace'') (map_get (hr_params r) ''name'')) (hs_world s)
             = (Inr existing, w)"
    and "CUpdate app \<in> set (calls_made s (snd (run_state (updateAppDefinition S r) s)))"
  shows "ad_meta app = ad_meta existing \<and> ad_status app = ad_status existing
    \<and> (\<exists>update. decodeJSONBody (sv_decode S) r = Inr update \<and> no_inline_data update
         \<and> m_resourceVersion (ad_meta update) \<noteq> ''''
         \<and> m_resourceVersion (ad_meta update) = m_resourceVersion (ad_meta existing)
         \<and> ad_spec (sanitizeAppDefinition app) = ad_spec update)
    \<and> (\<forall>sec \<in> set (spec_Secrets (ad_spec app)).
         (sec_SecretRef sec \<noteq> '''' \<and> sec_Data sec = None)
         \<or> (sec_SecretRef sec = '''' \<and> sec_Data sec \<noteq> None
            \<and> (\<exists>old \<in> set (spec_Secrets (ad_spec existing)).
                 sec_Name old = sec_Name sec \<and> sec_SecretRef old = '''' \<and> sec_Data old = sec_Data sec)))"
proof -
  have "update_verdict S r existing = Inr app"
    using assms(2) unfolding run_update [OF assms(1)] by (auto split: sum.splits)
  then obtain update where u: "decodeJSONBody (sv_decode S) r = Inr update" "no_inline_data update"
    "m_resourceVersion (ad_meta update) \<noteq> ''''"
    "m_resourceVersion (ad_meta update) = m_resourceVersion (ad_meta existing)"
    and sources: "requireSecretSources (preserveInlineSecretData existing update) = None"
    and app: "app = existing\<lparr>ad_spec := ad_spec (preserveInlineSecretData existing update)\<rparr>"
    by (rule update_verdict_accepts)
  have "ad_spec (sanitizeAppDefinition app) = ad_spec update"
    using sanitize_preserved [OF u(2), of existing]
    by (simp add: app sanitizeAppDefinition_def map_secrets_def) (metis AppDefinition.select_convs(2) AppDefinition.surjective AppDefinition.update_convs(2))
  moreover have "sec_SecretRef sec \<noteq> '''' \<and> sec_Data sec = None
      \<or> sec_SecretRef sec = '''' \<and> sec_Data sec \<noteq> None
        \<and> (\<exists>old \<in> set (spec_Secrets (ad_spec existing)).
             sec_Name old = sec_Name sec \<and> sec_SecretRef old = '''' \<and> sec_Data old = sec_Data sec)"
    if "sec \<in> set (spec_Secrets (ad_spec app))" for sec
    using that sources preserved_secret [OF u(2), of sec existing]
    by (cases "sec_Data sec") (auto simp: app requireSecretSources_None)
  ultimately show ?thesis using u app by auto
qed


section \<open>Logs of the application's pods only\<close>

lemma tailLines_nonneg: "tailLines r = Some n \<Longrightarrow> 0 \<le> n"
  by (auto simp: tailLines_def Let_def defaultLogTailLines_def split: if_splits option.splits)

lemma tailLines_int64: "tailLines r = Some n \<Longrightarrow> n < 2 ^ 63"
  by (auto simp: tailLines_def Let_def defaultLogTailLines_def dest: parse_int64_range split: if_splits option.splits)

lemma chosenPod_listed: "pods \<noteq> [] \<Longrightarrow> chosenPod r pods = Some p \<Longrightarrow> p \<in> set pods"
  by (auto simp: chosenPod_def Let_def split: if_splits)

lemma run_streamLogs_calls:
  "hs_calls (snd (run_state (streamLogs logs ns pod r) s)) = hs_calls s
     @ (case tailLines r of None \<Rightarrow> [] | Some n \<Rightarrow> [CLogs ns pod (log_options_of r n)])"
  by (simp add: streamLogs_def Let_def split: option.split sum.split)

definition log_target :: "'w server \<Rightarrow> request \<Rightarrow> string list \<Rightarrow> call list" where
  "log_target S r pods =
     (if pods = [] then []
      else (case (chosenPod r pods, tailLines r) of
              (Some pod, Some n) \<Rightarrow> [CLogs (map_get (hr_params r) ''namespace'') pod (log_options_of r n)]
            | _ \<Rightarrow> []))"

text \<open>The pods the client lists for the application of the URL.\<close>

definition listed_pods :: "'w server \<Rightarrow> request \<Rightarrow> 'w \<Rightarrow> string list" where
  "listed_pods S r w =
     (case fst (run_state (ap_pods (sv_client S) (map_get (hr_params r) ''namespace'')
                  (podSelectorLabels (map_get (hr_params r) ''name''))) w) of
        Inr pods \<Rightarrow> pods | Inl _ \<Rightarrow> [])"

definition log_calls :: "'w server \<Rightarrow> request \<Rightarrow> string list \<Rightarrow> call list" where
  "log_calls S r pods =
     CPods (map_get (hr_params r) ''namespace'') (podSelectorLabels (map_get (hr_params r) ''name'')) pods
       # log_target S r pods"

lemma podLogs_calls:
  "hs_calls (snd (run_state (podLogs S logs r (map_get (hr_params r) ''namespace'')
       (map_get (hr_params r) ''name'')) s)) = hs_calls s @ log_calls S r (listed_pods S r (hs_world s))"
  by (cases "fst (run_state (ap_pods (sv_client S) (map_get (hr_params r) ''namespace'')
                        (podSelectorLabels (map_get (hr_params r) ''name''))) (hs_world s))")
    (simp_all add: podLogs_def log_calls_def listed_pods_def log_target_def run_streamLogs_calls split: option.split)

lemma logs_calls:
  "calls_made s (snd (run_state (getAppDefinitionLogs S r) s)) =
     (case sv_logs S of
        None \<Rightarrow> []
      | Some _ \<Rightarrow>
          CGet (map_get (hr_params r) ''namespace'') (map_get (hr_params r) ''name'')
          # (case run_state (ap_get (sv_client S) (map_get (hr_params r) ''namespace'')
                    (map_get (hr_params r) ''name'')) (hs_world s) of
               (Inl _, _) \<Rightarrow> []
             | (Inr _, w) \<Rightarrow> log_calls S r (listed_pods S r w)))"
proof (cases "sv_logs S")
  case (Some logs)
  then have "getAppDefinitionLogs S r = getting S (map_get (hr_params r) ''namespace'') (map_get (hr_params r) ''name'')
      (\<lambda>_. podLogs S logs r (map_get (hr_params r) ''namespace'') (map_get (hr_params r) ''name''))"
    by (simp add: getAppDefinitionLogs_def Let_def)
  then show ?thesis using Some
    by (simp add: run_getting calls_made_def podLogs_calls Let_def split: prod.split sum.split)
qed (simp add: getAppDefinitionLogs_def calls_made_def Let_def)

lemma logs_calls_cases:
  obtains "calls_made s (snd (run_state (getAppDefinitionLogs S r) s)) = []"
  | "calls_made s (snd (run_state (getAppDefinitionLogs S r) s))
       = [CGet (map_get (hr_params r) ''namespace'') (map_get (hr_params r) ''name'')]"
  | pods where "calls_made s (snd (run_state (getAppDefinitionLogs S r) s)) =
       CGet (map_get (hr_params r) ''namespace'') (map_get (hr_params r) ''name'') # log_calls S r pods"
proof (cases "sv_logs S")
  case None
  then show thesis using that(1) by (simp add: logs_calls)
next
  case (Some logs)
  obtain res w where got: "run_state (ap_get (sv_client S) (map_get (hr_params r) ''namespace'')
      (map_get (hr_params r) ''name'')) (hs_world s) = (res, w)" by fastforce
  then show thesis using Some that(2) that(3) [of "listed_pods S r w"]
    by (cases res) (simp_all add: logs_calls)
qed

text \<open>
  C32. The log endpoint streams logs only of a pod the application owns: whenever it opens a log
  stream, it has before read the AppDefinition named in the URL and listed the pods of its namespace
  that carry the controller's selector label for that name, the pod is one of those listed, the
  stream is in the namespace of the URL, and the number of lines asked for is a non-negative int64.
\<close>

theorem logs_of_own_pods:
  assumes "CLogs ns pod opts \<in> set (calls_made s (snd (run_state (getAppDefinitionLogs S r) s)))"
  shows "ns = map_get (hr_params r) ''namespace'' \<and> 0 \<le> lo_TailLines opts \<and> lo_TailLines opts < 2 ^ 63
    \<and> (\<exists>pods. pod \<in> set pods
        \<and> calls_made s (snd (run_state (getAppDefinitionLogs S r) s))
            = [CGet ns (map_get (hr_params r) ''name''),
               CPods ns [(''app.kubernetes.io/name'', map_get (hr_params r) ''name'')] pods,
               CLogs ns pod opts])"
proof -
  obtain pods where
    calls: "calls_made s (snd (run_state (getAppDefinitionLogs S r) s)) =
        CGet (map_get (hr_params r) ''namespace'') (map_get (hr_params r) ''name'') # log_calls S r pods"
    and in_log: "CLogs ns pod opts \<in> set (log_calls S r pods)"
    by (rule logs_calls_cases [of s S r]) (use assms in auto)
  from in_log have made: "CLogs ns pod opts \<in> set (log_target S r pods)" by (simp add: log_calls_def)
  from made obtain n where n: "tailLines r = Some n" "pods \<noteq> []" "chosenPod r pods = Some pod"
    "ns = map_get (hr_params r) ''namespace''" "opts = log_options_of r n"
    by (cases "tailLines r"; cases "chosenPod r pods") (auto simp: log_target_def split: if_splits)
  then show ?thesis
    using calls chosenPod_listed [of pods r pod] tailLines_nonneg [of r n] tailLines_int64 [of r n]
    by (auto simp: log_calls_def log_target_def podSelectorLabels_def log_options_of_def)
qed

section \<open>What the sanitised object still shows\<close>

text \<open>
  Sanitising removes the inline values from the spec and nothing else: the annotations are
  returned as stored, and with them the copy of the whole manifest that a client-side
  \<open>kubectl apply\<close> keeps under \<open>kubectl.kubernetes.io/last-applied-configuration\<close>.
\<close>

theorem sanitize_keeps_annotations:
  "m_annotations (ad_meta (sanitizeAppDefinition app)) = m_annotations (ad_meta app)"
  by (simp add: sanitizeAppDefinition_def map_secrets_def)

section \<open>A concrete server\<close>

text \<open>
  A cluster with the one application \<open>app\<close> and the one pod \<open>pod\<close>, a decoder that reads \<open>body\<close> from
  every request, and everybody admitted.
\<close>

definition sample_api :: "AppDefinition \<Rightarrow> string \<Rightarrow> unit api_client" where
  "sample_api app pod =
     \<lparr>ap_get = (\<lambda>ns name. if ns = ad_namespace app \<and> name = ad_name app then ret app
                 else fail (StatusError NotFound ''not found'')),
      ap_list = (\<lambda>_ _. ret [app]), ap_create = ret, ap_update = ret, ap_delete = (\<lambda>_. ret ()),
      ap_pods = (\<lambda>_ _. ret [pod])\<rparr>"

definition sample_user :: user where
  "sample_user = \<lparr>us_Name = ''jane'', us_UID = ''u1'', us_Groups = [], us_Extra = []\<rparr>"

definition sample_server :: "AppDefinition \<Rightarrow> AppDefinition \<Rightarrow> unit server" where
  "sample_server app body =
     \<lparr>sv_client = sample_api app ''web-0'',
      sv_logs = Some (\<lambda>_ _ _. ret [(''hello'', True)]),
      sv_reviewer = Some \<lparr>rv_authenticate = (\<lambda>tok. ret (if tok = ''t'' then Some sample_user else None)),
                          rv_authorize = (\<lambda>u attrs. ret (at_Verb attrs \<noteq> ''delete'', ''''))\<rparr>,
      sv_allowedOrigins = [''https://ui.example''], sv_allow = State_Monad.return True,
      sv_decode = (\<lambda>_ _. Inr (body, EndOfInput)), sv_printable = (\<lambda>_. True)\<rparr>"

definition sample_request :: "string \<Rightarrow> string \<Rightarrow> request" where
  "sample_request method path =
     \<lparr>hr_Method = method, hr_Path = path, hr_Header = [(''Authorization'', ''Bearer t'')], hr_Query = [],
      hr_Body = '''', hr_params = [(''namespace'', ''prod''), (''name'', ''web'')], hr_user = None\<rparr>"

definition start :: "'w \<Rightarrow> 'w hst" where
  "start w = \<lparr>hs_world = w, hs_calls = [], hs_pattern = '''', hs_requests = (\<lambda>_. 0)\<rparr>"

definition secret_mount :: "string \<Rightarrow> string \<Rightarrow> gomap option \<Rightarrow> SecretMount" where
  "secret_mount name ref dat =
     \<lparr>sec_Name = name, sec_MountPath = '''', sec_AsEnvVars = True, sec_Data = dat, sec_SecretRef = ref\<rparr>"

definition stored_app :: "gomap option \<Rightarrow> AppDefinition" where
  "stored_app dat = (zero_app ''web'' ''prod'')
     \<lparr>ad_meta := (object_meta ''web'' ''prod'')\<lparr>m_resourceVersion := ''7''\<rparr>,
      ad_spec := zero_spec\<lparr>spec_Secrets := [secret_mount ''db'' '''' dat]\<rparr>\<rparr>"

definition reference_app :: AppDefinition where
  "reference_app = (zero_app ''web'' ''prod'')\<lparr>ad_spec := zero_spec\<lparr>spec_Secrets := [secret_mount ''db'' ''shared'' None]\<rparr>\<rparr>"

lemmas samples = sample_api_def sample_server_def sample_request_def start_def secret_mount_def
  stored_app_def reference_app_def

lemma create_resets_server_fields_witness:
  "ad_namespace (reset_for_create ''prod'' reference_app) = ''prod''
   \<and> calls_made (start ()) (snd (run_state (createAppDefinition (sample_server reference_app reference_app)
        (sample_request ''POST'' '''')) (start ()))) = [CCreate (reset_for_create ''prod'' reference_app)]"
proof -
  let ?S = "sample_server reference_app reference_app" and ?r = "sample_request ''POST'' ''''"
  have d: "decodeJSONBody (sv_decode ?S) ?r = Inr reference_app"
    by (simp add: decodeJSONBody_def sample_server_def)
  have ok: "rejectInlineSecretData reference_app = None" "requireSecretSources reference_app = None"
    by (simp_all add: rejectInlineSecretData_def requireSecretSources_def reference_app_def secret_mount_def)
  have ns: "map_get (hr_params ?r) ''namespace'' = ''prod''" by (simp add: sample_request_def map_get_def)
  have made: "CCreate (reset_for_create ''prod'' reference_app)
      \<in> set (calls_made (start ()) (snd (run_state (createAppDefinition ?S ?r) (start ()))))"
    unfolding create_calls [OF d ok] ns by simp
  show ?thesis using create_resets_server_fields [OF made] by simp
qed

lemma update_replaces_spec_only_witness:
  "CUpdate (stored_app (Some [(''k'', ''v'')])) \<in> set (calls_made (start ()) (snd (run_state
      (updateAppDefinition (sample_server (stored_app (Some [(''k'', ''v'')])) (stored_app None)) (sample_request ''PUT'' ''''))
      (start ()))))
   \<and> (\<exists>update. decodeJSONBody (sv_decode (sample_server (stored_app (Some [(''k'', ''v'')])) (stored_app None)))
        (sample_request ''PUT'' '''') = Inr update \<and> no_inline_data update)"
proof -
  let ?S = "sample_server (stored_app (Some [(''k'', ''v'')])) (stored_app None)"
  let ?r = "sample_request ''PUT'' ''''"
  have got: "run_state (ap_get (sv_client ?S) (map_get (hr_params ?r) ''namespace'') (map_get (hr_params ?r) ''name''))
      (hs_world (start ())) = (Inr (stored_app (Some [(''k'', ''v'')])), ())"
    by (simp add: samples map_get_def)
  have "update_verdict ?S ?r (stored_app (Some [(''k'', ''v'')])) = Inr (stored_app (Some [(''k'', ''v'')]))"
    by (simp add: update_verdict_def update_refused_def decodeJSONBody_def rejectInlineSecretData_def
        requireSecretSources_def preserveInlineSecretData_def map_secrets_def samples map_get_def)
  then have made: "CUpdate (stored_app (Some [(''k'', ''v'')]))
      \<in> set (calls_made (start ()) (snd (run_state (updateAppDefinition ?S ?r) (start ()))))"
    unfolding run_update [OF got] by simp
  show ?thesis using update_replaces_spec_only [OF got made] made by blast
qed

lemma logs_of_own_pods_witness:
  "\<exists>pods. ''web-0'' \<in> set pods
     \<and> calls_made (start ()) (snd (run_state (getAppDefinitionLogs (sample_server reference_app reference_app)
          (sample_request ''GET'' '''')) (start ())))
       = [CGet ''prod'' ''web'', CPods ''prod'' [(''app.kubernetes.io/name'', ''web'')] pods,
          CLogs ''prod'' ''web-0'' (log_options_of (sample_request ''GET'' '''') 500)]"
proof -
  let ?S = "sample_server reference_app reference_app" and ?r = "sample_request ''GET'' ''''"
  have par: "map_get (hr_params ?r) ''namespace'' = ''prod''" "map_get (hr_params ?r) ''name'' = ''web''"
    by (simp_all add: sample_request_def map_get_def)
  have "log_target ?S ?r [''web-0''] = [CLogs ''prod'' ''web-0'' (log_options_of ?r 500)]"
    unfolding log_target_def par
    by (simp add: chosenPod_def tailLines_def defaultLogTailLines_def sample_request_def map_get_def)
  then have made: "CLogs ''prod'' ''web-0'' (log_options_of ?r 500)
      \<in> set (calls_made (start ()) (snd (run_state (getAppDefinitionLogs ?S ?r) (start ()))))"
    unfolding logs_calls par
    by (simp add: log_calls_def listed_pods_def sample_server_def sample_api_def reference_app_def)
  show ?thesis using logs_of_own_pods [OF made] unfolding par by blast
qed

end
