(* ===== verification/Server.thy ===== *)
theory Server
  imports Handlers
begin

text \<open>
  \<open>internal/apiserver/server.go\<close> and \<open>internal/apiserver/metrics.go\<close>: the options and the construction of
  the server, its middlewares, the route table, and the path of a request through them; and the
  reading of the allowed origins in \<open>cmd/apiserver/main.go\<close>. The matching of a path against the route
  patterns is chi's and a parameter; which gates stand before which handler is the table's.
\<close>

section \<open>Options\<close>

definition WithAccessReviewer :: "'w reviewer \<Rightarrow> 'w server \<Rightarrow> 'w server" where
  "WithAccessReviewer rv S = S\<lparr>sv_reviewer := Some rv\<rparr>"

definition WithClientset :: "'w log_client \<Rightarrow> 'w server \<Rightarrow> 'w server" where
  "WithClientset logs S = S\<lparr>sv_logs := Some logs\<rparr>"

definition WithAllowedOrigins :: "string list \<Rightarrow> 'w server \<Rightarrow> 'w server" where
  "WithAllowedOrigins origins S =
     S\<lparr>sv_allowedOrigins := sv_allowedOrigins S @ filter (\<lambda>origin. origin \<noteq> '''') origins\<rparr>"

text \<open>\<open>New\<close>; the limiter, the decoder and the table of printable runes are the library's.\<close>

definition New :: "'w api_client \<Rightarrow> ('w, bool) state \<Rightarrow> decoder \<Rightarrow> (nat \<Rightarrow> bool) \<Rightarrow> ('w server \<Rightarrow> 'w server) list \<Rightarrow> 'w server" where
  "New c limiter decode printable options =
     fold (\<lambda>option' S. option' S) options
       \<lparr>sv_client = c, sv_logs = None, sv_reviewer = None, sv_allowedOrigins = [], sv_allow = limiter,
        sv_decode = decode, sv_printable = printable\<rparr>"

text \<open>The \<open>--cors-allowed-origins\<close> flag of \<open>cmd/apiserver\<close>.\<close>

definition parse_origins :: "string \<Rightarrow> string list" where
  "parse_origins corsAllowedOrigins =
     filter (\<lambda>trimmed. trimmed \<noteq> '''') (map trim_space (split_on CHR '','' corsAllowedOrigins))"

definition apiserver_main :: "'w api_client \<Rightarrow> 'w auth_client \<Rightarrow> 'w log_client \<Rightarrow> ('w, bool) state \<Rightarrow> decoder \<Rightarrow> (nat \<Rightarrow> bool) \<Rightarrow> string \<Rightarrow> 'w server" where
  "apiserver_main k8sClient authClient clientset limiter decode printable corsAllowedOrigins =
     New k8sClient limiter decode printable
       [WithAccessReviewer (KubernetesAccessReviewer authClient),
        WithClientset clientset,
        WithAllowedOrigins (parse_origins corsAllowedOrigins)]"

section \<open>Middlewares\<close>

definition cors_allowed :: "'w server \<Rightarrow> request \<Rightarrow> bool" where
  "cors_allowed S r \<longleftrightarrow>
     map_get (hr_Header r) ''Origin'' \<noteq> '''' \<and> map_get (hr_Header r) ''Origin'' \<in> set (sv_allowedOrigins S)"

definition cors_headers :: "'w server \<Rightarrow> request \<Rightarrow> gomap" where
  "cors_headers S r =
     (if cors_allowed S r
      then [(''Access-Control-Allow-Origin'', map_get (hr_Header r) ''Origin''), (''Vary'', ''Origin'')] else [])
     @ [(''Access-Control-Allow-Methods'', ''GET, POST, PUT, DELETE, OPTIONS''),
        (''Access-Control-Allow-Headers'', ''Content-Type, Authorization'')]"

text \<open>\<open>http.Error\<close>\<close>

definition http_error :: "string \<Rightarrow> nat \<Rightarrow> response" where
  "http_error m status =
     \<lparr>rsp_Status = status,
      rsp_Header = [(''Content-Type'', ''text/plain; charset=utf-8''), (''X-Content-Type-Options'', ''nosniff'')],
      rsp_Body = TextBody (m @ [CHR 0x0A])\<rparr>"

definition corsMiddleware :: "'w server \<Rightarrow> 'w handler \<Rightarrow> 'w handler" where
  "corsMiddleware S next' r = do {
     rsp \<leftarrow> (if hr_Method r = ''OPTIONS'' then
               (if map_get (hr_Header r) ''Origin'' \<noteq> '''' \<and> map_get (hr_Header r) ''Origin'' \<notin> set (sv_allowedOrigins S)
                then State_Monad.return (http_error ''origin is not allowed'' 403)
                else State_Monad.return \<lparr>rsp_Status = 204, rsp_Header = [], rsp_Body = NoBody\<rparr>)
             else next' r);
     State_Monad.return (rsp\<lparr>rsp_Header := map_merge (cors_headers S r) (rsp_Header rsp)\<rparr>) }"

definition rateLimitAPI :: "'w server \<Rightarrow> 'w handler \<Rightarrow> 'w handler" where
  "rateLimitAPI S next' r = do {
     allowed \<leftarrow> ask (sv_allow S) (\<lambda>_. []);
     if \<not> allowed then do {
       rsp \<leftarrow> writeError 429 (Plain ''API rate limit exceeded'');
       State_Monad.return (rsp\<lparr>rsp_Header := map_put ''Retry-After'' ''1'' (rsp_Header rsp)\<rparr>) }
     else next' r }"

definition limit_pass :: "'w server \<Rightarrow> request \<Rightarrow> 'w hst \<Rightarrow> (response \<times> 'w hst) + (request \<times> 'w hst)" where
  "limit_pass S r s =
     (case run_state (sv_allow S) (hs_world s) of
        (True, w) \<Rightarrow> Inr (r, s\<lparr>hs_world := w\<rparr>)
      | (False, w) \<Rightarrow> Inl (run_state (rateLimitAPI S (\<lambda>_. writeJSON 200 NoBody) r) s))"

interpretation limit: gate "rateLimitAPI S" "limit_pass S" for S
  by unfold_locales (auto simp: rateLimitAPI_def limit_pass_def split: bool.splits prod.splits)

definition metricsMiddleware :: "'w handler \<Rightarrow> 'w handler" where
  "metricsMiddleware next' r = do {
     rsp \<leftarrow> next' r;
     State (\<lambda>s.
       let route = (if hs_pattern s = '''' then ''unmatched'' else hs_pattern s);
           key = (hr_Method r, route, rsp_Status rsp)
       in (rsp, s\<lparr>hs_requests := (hs_requests s)(key := hs_requests s key + 1)\<rparr>)) }"

section \<open>Routes\<close>

record 'w route =
  rt_Method :: string
  rt_Pattern :: string
  rt_Verb :: string
  rt_Subresource :: string
  rt_Namespaced :: bool
  rt_Named :: bool
  rt_Handler :: "'w server \<Rightarrow> 'w handler"

definition api_routes :: "'w route list" where
  "api_routes =
     [\<lparr>rt_Method = ''GET'', rt_Pattern = ''/api/v1/appdefinitions'',
       rt_Verb = ''list'', rt_Subresource = '''', rt_Namespaced = False, rt_Named = False,
       rt_Handler = listAppDefinitions\<rparr>,
      \<lparr>rt_Method = ''GET'', rt_Pattern = ''/api/v1/namespaces/{namespace}/appdefinitions'',
       rt_Verb = ''list'', rt_Subresource = '''', rt_Namespaced = True, rt_Named = False,
       rt_Handler = listAppDefinitionsInNamespace\<rparr>,
      \<lparr>rt_Method = ''POST'', rt_Pattern = ''/api/v1/namespaces/{namespace}/appdefinitions'',
       rt_Verb = ''create'', rt_Subresource = '''', rt_Namespaced = True, rt_Named = False,
       rt_Handler = createAppDefinition\<rparr>,
      \<lparr>rt_Method = ''GET'', rt_Pattern = ''/api/v1/namespaces/{namespace}/appdefinitions/{name}'',
       rt_Verb = ''get'', rt_Subresource = '''', rt_Namespaced = True, rt_Named = True,
       rt_Handler = getAppDefinition\<rparr>,
      \<lparr>rt_Method = ''PUT'', rt_Pattern = ''/api/v1/namespaces/{namespace}/appdefinitions/{name}'',
       rt_Verb = ''update'', rt_Subresource = '''', rt_Namespaced = True, rt_Named = True,
       rt_Handler = updateAppDefinition\<rparr>,
      \<lparr>rt_Method = ''DELETE'', rt_Pattern = ''/api/v1/namespaces/{namespace}/appdefinitions/{name}'',
       rt_Verb = ''delete'', rt_Subresource = '''', rt_Namespaced = True, rt_Named = True,
       rt_Handler = deleteAppDefinition\<rparr>,
      \<lparr>rt_Method = ''GET'', rt_Pattern = ''/api/v1/namespaces/{namespace}/appdefinitions/{name}/logs'',
       rt_Verb = ''get'', rt_Subresource = ''logs'', rt_Namespaced = True, rt_Named = True,
       rt_Handler = getAppDefinitionLogs\<rparr>]"

text \<open>
  What chi makes of a method and a path: a pattern of the table with the parameters of the URL, or
  an answer of its own (404, 405) with the pattern it reports for it. \<open>/api/v1\<close> is a router mounted
  in the root router.
\<close>

datatype chi_match =
    Matched string gomap
  | Missed nat gomap string string

record chi =
  chi_root :: "string \<Rightarrow> string \<Rightarrow> chi_match"
  chi_api :: "string \<Rightarrow> string \<Rightarrow> chi_match"

definition set_pattern :: "string \<Rightarrow> ('w hst, unit) state" where
  "set_pattern p = State (\<lambda>s. ((), s\<lparr>hs_pattern := p\<rparr>))"

definition miss :: "nat \<Rightarrow> gomap \<Rightarrow> string \<Rightarrow> string \<Rightarrow> ('w hst, response) state" where
  "miss status hdr txt pattern = do {
     _ \<leftarrow> set_pattern pattern;
     State_Monad.return \<lparr>rsp_Status = status, rsp_Header = hdr, rsp_Body = TextBody txt\<rparr> }"

definition find_route :: "'w route list \<Rightarrow> string \<Rightarrow> string \<Rightarrow> 'w route option" where
  "find_route rts method pattern = find (\<lambda>rt. rt_Method rt = method \<and> rt_Pattern rt = pattern) rts"

definition guarded :: "'w server \<Rightarrow> 'w route \<Rightarrow> 'w handler" where
  "guarded S rt =
     (if rt_Subresource rt = ''''
      then requireAccess (sv_reviewer S) (rt_Verb rt) (rt_Namespaced rt) (rt_Named rt) (rt_Handler rt S)
      else requireAccessSubresource (sv_reviewer S) (rt_Verb rt) (rt_Subresource rt) (rt_Handler rt S))"

definition apiRouter :: "'w server \<Rightarrow> chi \<Rightarrow> 'w handler" where
  "apiRouter S C r =
     (case chi_api C (hr_Method r) (hr_Path r) of
        Missed status hdr txt pattern \<Rightarrow> miss status hdr txt pattern
      | Matched pattern params \<Rightarrow>
          (case find_route api_routes (hr_Method r) pattern of
             None \<Rightarrow> miss 404 [] ''404 page not found'' pattern
           | Some rt \<Rightarrow> do {
               _ \<leftarrow> set_pattern pattern;
               guarded S rt (r\<lparr>hr_params := params\<rparr>) }))"

definition apiMount :: "'w server \<Rightarrow> chi \<Rightarrow> 'w handler" where
  "apiMount S C = rateLimitAPI S (authenticate (sv_reviewer S) (apiRouter S C))"

definition rootHandler :: "'w server \<Rightarrow> chi \<Rightarrow> string \<Rightarrow> 'w handler" where
  "rootHandler S C pattern r =
     (if pattern = ''/api/v1/*'' then apiMount S C r
      else if pattern = ''/healthz'' \<and> hr_Method r = ''GET'' then
        State_Monad.return \<lparr>rsp_Status = 200, rsp_Header = [], rsp_Body = NoBody\<rparr>
      else if pattern = ''/readyz'' \<and> hr_Method r = ''GET'' then readiness S r
      else if pattern = ''/metrics'' then
        State_Monad.return \<lparr>rsp_Status = 200, rsp_Header = [], rsp_Body = MetricsBody\<rparr>
      else miss 404 [] ''404 page not found'' pattern)"

definition rootRouter :: "'w server \<Rightarrow> chi \<Rightarrow> 'w handler" where
  "rootRouter S C r =
     (case chi_root C (hr_Method r) (hr_Path r) of
        Missed status hdr txt pattern \<Rightarrow> miss status hdr txt pattern
      | Matched pattern params \<Rightarrow> do { _ \<leftarrow> set_pattern pattern; rootHandler S C pattern r })"

definition serveHTTP :: "'w server \<Rightarrow> chi \<Rightarrow> 'w handler" where
  "serveHTTP S C r = do {
     _ \<leftarrow> set_pattern '''';
     metricsMiddleware (corsMiddleware S (rootRouter S C)) (r\<lparr>hr_user := None\<rparr>) }"


section \<open>What each route may do\<close>

text \<open>The calls that the attributes of an access review speak about.\<close>

fun covers :: "attributes \<Rightarrow> call \<Rightarrow> bool" where
  "covers a (CAuthenticate _ _) = False"
| "covers a (CAuthorize _ _ _) = False"
| "covers a (CGet ns name) =
     (at_Verb a \<in> {''get'', ''update'', ''delete''} \<and> at_Namespace a = ns \<and> at_Name a = name)"
| "covers a (CList ns _) = (at_Verb a = ''list'' \<and> at_Namespace a = (case ns of None \<Rightarrow> '''' | Some n \<Rightarrow> n))"
| "covers a (CCreate app) = (at_Verb a = ''create'' \<and> at_Namespace a = ad_namespace app)"
| "covers a (CUpdate app) = (at_Verb a = ''update'' \<and> at_Namespace a = ad_namespace app \<and> at_Name a = ad_name app)"
| "covers a (CDelete app) = (at_Verb a = ''delete'' \<and> at_Namespace a = ad_namespace app \<and> at_Name a = ad_name app)"
| "covers a (CPods ns sel _) =
     (at_Verb a = ''get'' \<and> at_Subresource a = ''logs'' \<and> at_Namespace a = ns \<and> sel = podSelectorLabels (at_Name a))"
| "covers a (CLogs ns _ _) = (at_Verb a = ''get'' \<and> at_Subresource a = ''logs'' \<and> at_Namespace a = ns)"

definition route_attributes :: "'w route \<Rightarrow> request \<Rightarrow> attributes" where
  "route_attributes rt = access_attributes (rt_Verb rt) (rt_Subresource rt) (rt_Namespaced rt) (rt_Named rt)"

lemmas handler_defs = listAppDefinitions_def listAppDefinitionsInNamespace_def getAppDefinition_def
  deleteAppDefinition_def createAppDefinition_def updateAppDefinition_def getAppDefinitionLogs_def
  podLogs_def streamLogs_def

lemma discreet_routes:
  assumes "rt \<in> set api_routes"
  shows "serves (\<lambda>_. True) discreet (rt_Handler rt S r)"
proof -
  have "serves (\<lambda>_. True) discreet (listAppDefinitions S r)"
    "serves (\<lambda>_. True) discreet (listAppDefinitionsInNamespace S r)"
    "serves (\<lambda>_. True) discreet (getAppDefinition S r)" "serves (\<lambda>_. True) discreet (deleteAppDefinition S r)"
    "serves (\<lambda>_. True) discreet (createAppDefinition S r)" "serves (\<lambda>_. True) discreet (updateAppDefinition S r)"
    "serves (\<lambda>_. True) discreet (getAppDefinitionLogs S r)"
    unfolding handler_defs Let_def
    by (auto intro!: discreet_rules serves_return simp: list_all_iff split: sum.split option.split prod.split)
  then show ?thesis using assms by (auto simp: api_routes_def)
qed

lemma serves_routes:
  assumes "rt \<in> set api_routes" and "keyed_api (sv_client S)"
  shows "serves (covers (route_attributes rt r)) discreet (rt_Handler rt S r)"
proof -
  note keyed = discreet_getting_keyed [OF assms(2)]
  have "serves (covers (access_attributes ''list'' '''' False False r)) discreet (listAppDefinitions S r)"
    "serves (covers (access_attributes ''list'' '''' True False r)) discreet (listAppDefinitionsInNamespace S r)"
    "serves (covers (access_attributes ''get'' '''' True True r)) discreet (getAppDefinition S r)"
    unfolding handler_defs Let_def
    by (auto intro!: discreet_rules serves_return simp: access_attributes_def split: sum.split)
  moreover have "serves (covers (access_attributes ''delete'' '''' True True r)) discreet (deleteAppDefinition S r)"
    unfolding handler_defs Let_def
    by (auto intro!: keyed serves_ask discreet_writeError serves_return simp: access_attributes_def split: sum.split)
  moreover have "serves (covers (access_attributes ''create'' '''' True False r)) discreet (createAppDefinition S r)"
    unfolding handler_defs Let_def
    by (auto intro!: discreet_rules simp: access_attributes_def split: sum.split)
  moreover have "serves (covers (access_attributes ''update'' '''' True True r)) discreet (updateAppDefinition S r)"
    unfolding handler_defs Let_def
    by (auto intro!: keyed serves_ask discreet_writeError discreet_writeJSON discreet_checked
        simp: access_attributes_def split: sum.split option.split prod.split)
  moreover have "serves (covers (access_attributes ''get'' ''logs'' True True r)) discreet (getAppDefinitionLogs S r)"
    unfolding handler_defs Let_def
    by (auto intro!: discreet_rules serves_return simp: access_attributes_def split: sum.split option.split)
  ultimately show ?thesis using assms(1) by (auto simp: api_routes_def route_attributes_def)
qed

lemma find_route_Some:
  "find_route rts m p = Some rt \<Longrightarrow> rt \<in> set rts \<and> rt_Method rt = m \<and> rt_Pattern rt = p"
  by (auto simp: find_route_def find_Some_iff)

lemma guarded_gate:
  "rt \<in> set api_routes \<Longrightarrow>
     guarded S rt = requireAccessFor (sv_reviewer S) (rt_Verb rt) (rt_Subresource rt) (rt_Namespaced rt) (rt_Named rt)
                      (rt_Handler rt S)"
  by (auto simp: guarded_def api_routes_def requireAccess_def requireAccessSubresource_def)

text \<open>The whole server is discreet and leaves the counter to its middleware.\<close>

lemma serves_set_pattern [intro]:
  fixes m :: "('w hst, response) state"
  assumes "serves P Q m"
  shows "serves P Q (set_pattern p \<bind> (\<lambda>_. m))"
  unfolding serves_def
proof
  fix s :: "'w hst"
  show "Q (fst (run_state (set_pattern p \<bind> (\<lambda>_. m)) s))
      \<and> hs_requests (snd (run_state (set_pattern p \<bind> (\<lambda>_. m)) s)) = hs_requests s
      \<and> (\<exists>cs. hs_calls (snd (run_state (set_pattern p \<bind> (\<lambda>_. m)) s)) = hs_calls s @ cs \<and> list_all P cs)"
    using serves_D [OF assms, of "s\<lparr>hs_pattern := p\<rparr>"] by (simp add: set_pattern_def)
qed

lemma serves_header [intro]:
  fixes m :: "('w hst, response) state"
  assumes "serves P discreet m"
  shows "serves P discreet (m \<bind> (\<lambda>rsp. State_Monad.return (rsp\<lparr>rsp_Header := h rsp\<rparr>)))"
  using assms by (auto simp: serves_def split: prod.splits) (metis fst_conv snd_conv)+

lemma discreet_miss [intro]: "serves P discreet (miss n h t p)"
  unfolding miss_def by (intro serves_set_pattern serves_return) simp


lemma discreet_access [intro]:
  assumes "\<And>r. serves P discreet (h r)"
  shows "serves (\<lambda>_. True) discreet (requireAccessFor rv verb sub nsd nmd h r)"
  unfolding requireAccessFor_def Let_def
  by (auto intro!: discreet_rules serves_return serves_mono [OF assms] simp: list_all_iff
      split: option.split sum.split prod.split)

lemma discreet_authenticate [intro]:
  assumes "\<And>r. serves P discreet (h r)"
  shows "serves (\<lambda>_. True) discreet (authenticate rv h r)"
  unfolding authenticate_def Let_def
  by (auto intro!: discreet_rules serves_mono [OF assms] simp: list_all_iff split: option.split sum.split)

lemma discreet_limit [intro]:
  assumes "\<And>r. serves P discreet (h r)"
  shows "serves (\<lambda>_. True) discreet (rateLimitAPI S h r)"
  unfolding rateLimitAPI_def
  by (auto intro!: discreet_rules serves_header serves_mono [OF assms] simp: list_all_iff)

lemma discreet_guarded:
  assumes "rt \<in> set api_routes"
  shows "serves (\<lambda>_. True) discreet (guarded S rt r)"
proof -
  show ?thesis unfolding guarded_gate [OF assms] by (rule discreet_access, rule discreet_routes [OF assms])
qed

lemma discreet_router: "serves (\<lambda>_. True) discreet (apiRouter S C r)"
  unfolding apiRouter_def
  by (auto intro!: serves_set_pattern discreet_miss discreet_guarded dest: find_route_Some
      split: chi_match.split option.split)

lemma discreet_api: "serves (\<lambda>_. True) discreet (apiMount S C r)"
  unfolding apiMount_def by (rule discreet_limit, rule discreet_authenticate, rule discreet_router)

lemma discreet_readiness [intro]: "serves (\<lambda>_. True) discreet (readiness S r)"
  unfolding readiness_def by (auto intro!: discreet_rules serves_return split: sum.split)

lemma discreet_root: "serves (\<lambda>_. True) discreet (rootRouter S C r)"
  unfolding rootRouter_def rootHandler_def
  by (auto intro!: serves_set_pattern discreet_api discreet_miss discreet_readiness serves_return
      split: chi_match.split)

lemma discreet_cors:
  assumes "\<And>r. serves P discreet (h r)"
  shows "serves P discreet (corsMiddleware S h r)"
  unfolding corsMiddleware_def
  by (intro serves_header) (auto intro!: serves_return assms simp: http_error_def)

lemma discreet_front: "serves (\<lambda>_. True) discreet (corsMiddleware S (rootRouter S C) r)"
  by (rule discreet_cors) (rule discreet_root)

lemmas front = serves_D(1) [OF discreet_front, THEN conjunct1] serves_D(1) [OF discreet_front, THEN conjunct2]
  serves_D(2) [OF discreet_front]

lemma run_serveHTTP:
  fixes S :: "'w server" and C :: chi
  defines "inner \<equiv> \<lambda>r s. run_state (corsMiddleware S (rootRouter S C) (r\<lparr>hr_user := None\<rparr>)) (s\<lparr>hs_pattern := ''''\<rparr>)"
  shows "run_state (serveHTTP S C r) s =
    (let rsp = fst (inner r s); s1 = snd (inner r s);
         key = (hr_Method r, if hs_pattern s1 = '''' then ''unmatched'' else hs_pattern s1, rsp_Status rsp)
     in (rsp, s1\<lparr>hs_requests := (hs_requests s1)(key := hs_requests s1 key + 1)\<rparr>))"
  by (simp add: serveHTTP_def metricsMiddleware_def set_pattern_def inner_def Let_def split: prod.split)

text \<open>
  C24. Inline secret values never leave the server through the spec of an object: whatever the request,
  the state of the cluster and the answers of the client, an AppDefinition in the body of a response,
  alone or in a list, has no inline data in any of its secrets.
\<close>

theorem responses_hide_inline_data: "hides_inline_data (fst (run_state (serveHTTP S C r) s))"
  by (simp add: run_serveHTTP Let_def front)

text \<open>
  C37. Errors of the cluster are not spelled out, whatever the request and the answers of the client: an
  error body is the standard text of its status,
  unless the status is one of 400, 409, 413, 422, 428 and 429, the ones about the caller's own request.
\<close>

theorem responses_hide_internal_errors: "hides_internal_errors (fst (run_state (serveHTTP S C r) s))"
  by (simp add: run_serveHTTP Let_def front)

text \<open>
  Every request is counted once, under its method, the pattern of the route that served it (or
  \<open>unmatched\<close> where none did) and the status of its answer, and no other counter moves.
\<close>

theorem request_counted_once:
  "\<exists>route. route \<noteq> ''''
     \<and> hs_requests (snd (run_state (serveHTTP S C r) s)) =
         (\<lambda>key. hs_requests s key
            + (if key = (hr_Method r, route, rsp_Status (fst (run_state (serveHTTP S C r) s))) then 1 else 0))"
proof -
  let ?p = "hs_pattern (snd (run_state (corsMiddleware S (rootRouter S C) (r\<lparr>hr_user := None\<rparr>)) (s\<lparr>hs_pattern := ''''\<rparr>)))"
  show ?thesis
    by (rule exI [where x = "if ?p = '''' then ''unmatched'' else ?p"])
      (simp add: run_serveHTTP Let_def front fun_eq_iff)
qed


section \<open>Authentication and authorization before every call\<close>

fun is_review :: "call \<Rightarrow> bool" where
  "is_review (CAuthenticate _ _) = True"
| "is_review (CAuthorize _ _ _) = True"
| "is_review _ = False"

text \<open>The calls of a guarded handler: reviews only, or an approval and then covered calls.\<close>

definition approved_calls :: "user option \<Rightarrow> attributes \<Rightarrow> call list \<Rightarrow> bool" where
  "approved_calls u attrs cs \<longleftrightarrow>
     list_all is_review cs
     \<or> (\<exists>v rest. u = Some v \<and> cs = CAuthorize v attrs True # rest \<and> list_all (covers attrs) rest)"

lemma calls_made_self [simp]: "calls_made s s = []"
  by (simp add: calls_made_def)

lemma access_refusal_calls:
  assumes "access_pass rv verb sub nsd nmd r s = Inl out"
  shows "list_all is_review (calls_made s (snd out))"
  using assms
  by (auto simp: access_pass_def requireAccessFor_def calls_made_def Let_def split: option.splits sum.splits prod.splits if_splits)

lemma access_passed_calls:
  assumes "access_pass rv verb sub nsd nmd r s = Inr (r', s')"
  shows "r' = r \<and> (\<exists>u. hr_user r = Some u
      \<and> hs_calls s' = hs_calls s @ [CAuthorize u (access_attributes verb sub nsd nmd r) True])"
  using assms by (auto simp: access_pass_def Let_def split: option.splits sum.splits prod.splits if_splits)

lemma guarded_calls:
  assumes "rt \<in> set api_routes" and "keyed_api (sv_client S)"
  shows "approved_calls (hr_user r) (route_attributes rt r) (calls_made s (snd (run_state (guarded S rt r) s)))"
  unfolding guarded_gate [OF assms(1)]
proof (rule access.decide_by [where Q = "\<lambda>out. approved_calls (hr_user r) (route_attributes rt r) (calls_made s (snd out))"])
  fix out assume "access_pass (sv_reviewer S) (rt_Verb rt) (rt_Subresource rt) (rt_Namespaced rt) (rt_Named rt) r s = Inl out"
  from access_refusal_calls [OF this]
  show "approved_calls (hr_user r) (route_attributes rt r) (calls_made s (snd out))" by (simp add: approved_calls_def)
next
  fix r' s' assume "access_pass (sv_reviewer S) (rt_Verb rt) (rt_Subresource rt) (rt_Namespaced rt) (rt_Named rt) r s = Inr (r', s')"
  from access_passed_calls [OF this] obtain u where u: "r' = r" "hr_user r = Some u"
    "hs_calls s' = hs_calls s @ [CAuthorize u (route_attributes rt r) True]" by (auto simp: route_attributes_def)
  obtain cs where "hs_calls (snd (run_state (rt_Handler rt S r) s')) = hs_calls s' @ cs" "list_all (covers (route_attributes rt r)) cs"
    using serves_D(3) [OF serves_routes [OF assms]] by blast
  then show "approved_calls (hr_user r) (route_attributes rt r) (calls_made s (snd (run_state (rt_Handler rt S r') s')))"
    using u by (simp add: approved_calls_def calls_made_def)
qed

lemma auth_refusal_calls:
  assumes "auth_pass rv r s = Inl out"
  shows "list_all is_review (calls_made s (snd out))"
  using assms
  by (auto simp: auth_pass_def authenticate_def calls_made_def split: option.splits sum.splits prod.splits if_splits)

lemma auth_passed_calls:
  assumes "auth_pass rv r s = Inr (r', s')"
  shows "bearer_token r \<noteq> '''' \<and> (\<exists>u. r' = r\<lparr>hr_user := Some u\<rparr>
      \<and> hs_calls s' = hs_calls s @ [CAuthenticate (bearer_token r) (Some u)])"
  using assms by (auto simp: auth_pass_def split: option.splits sum.splits prod.splits if_splits)

lemma limit_refusal_calls: "limit_pass S r s = Inl out \<Longrightarrow> calls_made s (snd out) = []"
  by (auto simp: limit_pass_def rateLimitAPI_def calls_made_def writeError_def writeJSON_def split: prod.splits bool.splits)

lemma limit_passed_calls: "limit_pass S r s = Inr (r', s') \<Longrightarrow> r' = r \<and> hs_calls s' = hs_calls s"
  by (auto simp: limit_pass_def split: prod.splits bool.splits)

text \<open>The calls of a request whose reviews approve the route and the URL parameters chi found for it.\<close>

definition authorised :: "'w server \<Rightarrow> chi \<Rightarrow> request \<Rightarrow> call list \<Rightarrow> bool" where
  "authorised (S :: 'w server) C r cs \<longleftrightarrow>
     (\<exists>u rt params rest. (rt :: 'w route) \<in> set api_routes \<and> rt_Method rt = hr_Method r
        \<and> chi_api C (hr_Method r) (hr_Path r) = Matched (rt_Pattern rt) params
        \<and> bearer_token r \<noteq> ''''
        \<and> cs = CAuthenticate (bearer_token r) (Some u)
               # CAuthorize u (route_attributes rt (r\<lparr>hr_params := params\<rparr>)) True # rest
        \<and> list_all (covers (route_attributes rt (r\<lparr>hr_params := params\<rparr>))) rest)"


lemma calls_made_set_pattern [simp]: "calls_made (s\<lparr>hs_pattern := p\<rparr>) s' = calls_made s s'"
  by (simp add: calls_made_def)

lemma run_set_pattern [simp]: "run_state (set_pattern p) s = ((), s\<lparr>hs_pattern := p\<rparr>)"
  by (simp add: set_pattern_def)

lemma miss_calls [simp]: "calls_made s (snd (run_state (miss n h t p) s)) = []"
  by (simp add: miss_def calls_made_def)

lemma router_calls:
  fixes S :: "'w server"
  assumes "keyed_api (sv_client S)"
  shows "list_all is_review (calls_made s (snd (run_state (apiRouter S C r) s)))
   \<or> (\<exists>(rt :: 'w route) params. rt \<in> set api_routes \<and> rt_Method rt = hr_Method r
        \<and> chi_api C (hr_Method r) (hr_Path r) = Matched (rt_Pattern rt) params
        \<and> approved_calls (hr_user r) (route_attributes rt (r\<lparr>hr_params := params\<rparr>))
            (calls_made s (snd (run_state (apiRouter S C r) s))))"
proof (cases "chi_api C (hr_Method r) (hr_Path r)")
  case (Matched pattern params)
  show ?thesis
  proof (cases "find_route api_routes (hr_Method r) pattern :: 'w route option")
    case (Some rt)
    note rt = find_route_Some [OF Some]
    let ?s = "s\<lparr>hs_pattern := pattern\<rparr>"
    have "approved_calls (hr_user (r\<lparr>hr_params := params\<rparr>)) (route_attributes rt (r\<lparr>hr_params := params\<rparr>))
        (calls_made ?s (snd (run_state (guarded S rt (r\<lparr>hr_params := params\<rparr>)) ?s)))"
      by (rule guarded_calls) (simp_all add: rt assms)
    then show ?thesis using Matched Some rt by (auto simp: apiRouter_def intro!: disjI2 exI [where x = rt])
  qed (simp add: apiRouter_def Matched)
qed (simp add: apiRouter_def)

lemma calls_made_trans: "hs_calls s' = hs_calls s @ cs \<Longrightarrow> hs_calls s'' = hs_calls s' @ cs' \<Longrightarrow> calls_made s s'' = cs @ calls_made s' s''"
  by (simp add: calls_made_def)

lemma serves_calls_made: "serves P Q m \<Longrightarrow> hs_calls (snd (run_state m s)) = hs_calls s @ calls_made s (snd (run_state m s))"
  using serves_D(3) [of P Q m s] by (auto simp: calls_made_def)

lemma authenticate_calls:
  fixes S :: "'w server"
  assumes "keyed_api (sv_client S)"
  shows "list_all is_review (calls_made s (snd (run_state (authenticate (sv_reviewer S) (apiRouter S C) r) s)))
     \<or> authorised S C r (calls_made s (snd (run_state (authenticate (sv_reviewer S) (apiRouter S C) r) s)))"
proof (rule auth.decide_by [where Q = "\<lambda>out. list_all is_review (calls_made s (snd out)) \<or> authorised S C r (calls_made s (snd out))"])
  fix out assume "auth_pass (sv_reviewer S) r s = Inl out"
  from auth_refusal_calls [OF this]
  show "list_all is_review (calls_made s (snd out)) \<or> authorised S C r (calls_made s (snd out))" by simp
next
  fix r' s' assume "auth_pass (sv_reviewer S) r s = Inr (r', s')"
  from auth_passed_calls [OF this] obtain u where u: "bearer_token r \<noteq> ''''" "r' = r\<lparr>hr_user := Some u\<rparr>"
    "hs_calls s' = hs_calls s @ [CAuthenticate (bearer_token r) (Some u)]" by auto
  let ?s2 = "snd (run_state (apiRouter S C r') s')"
  have calls: "calls_made s ?s2 = CAuthenticate (bearer_token r) (Some u) # calls_made s' ?s2"
    using calls_made_trans [OF u(3) serves_calls_made [OF discreet_router]] by simp
  have attrs: "route_attributes rt (r'\<lparr>hr_params := params\<rparr>) = route_attributes rt (r\<lparr>hr_params := params\<rparr>)"
    for rt :: "'w route" and params by (simp add: u(2) route_attributes_def access_attributes_def)
  show "list_all is_review (calls_made s (snd (run_state (apiRouter S C r') s')))
      \<or> authorised S C r (calls_made s (snd (run_state (apiRouter S C r') s')))"
    using router_calls [OF assms, of s' C r'] unfolding calls attrs
    by (auto simp: approved_calls_def authorised_def u(1,2))
qed

lemma mount_calls:
  assumes "keyed_api (sv_client S)"
  shows "list_all is_review (calls_made s (snd (run_state (apiMount S C r) s)))
     \<or> authorised S C r (calls_made s (snd (run_state (apiMount S C r) s)))"
  unfolding apiMount_def
proof (rule limit.decide_by [where Q = "\<lambda>out. list_all is_review (calls_made s (snd out)) \<or> authorised S C r (calls_made s (snd out))"])
  fix out assume "limit_pass S r s = Inl out"
  from limit_refusal_calls [OF this]
  show "list_all is_review (calls_made s (snd out)) \<or> authorised S C r (calls_made s (snd out))" by simp
next
  fix r' s' assume "limit_pass S r s = Inr (r', s')"
  from limit_passed_calls [OF this] authenticate_calls [OF assms, of s' C r]
  show "list_all is_review (calls_made s (snd (run_state (authenticate (sv_reviewer S) (apiRouter S C) r') s')))
      \<or> authorised S C r (calls_made s (snd (run_state (authenticate (sv_reviewer S) (apiRouter S C) r') s')))"
    by (simp add: calls_made_def)
qed


lemma cors_calls:
  "calls_made s (snd (run_state (corsMiddleware S h r) s)) =
     (if hr_Method r = ''OPTIONS'' then [] else calls_made s (snd (run_state (h r) s)))"
  by (simp add: corsMiddleware_def calls_made_def split: prod.split)

lemma readiness_calls: "calls_made s (snd (run_state (readiness S r) s)) = [CList None (Some 1)]"
  by (simp add: readiness_def calls_made_def writeError_def writeJSON_def split: sum.split)

lemma root_handler_calls:
  assumes "keyed_api (sv_client S)"
  shows "list_all is_review (calls_made s (snd (run_state (rootHandler S C pattern r) s)))
     \<or> authorised S C r (calls_made s (snd (run_state (rootHandler S C pattern r) s)))
     \<or> pattern = ''/readyz'' \<and> calls_made s (snd (run_state (rootHandler S C pattern r) s)) = [CList None (Some 1)]"
proof (cases "pattern = ''/api/v1/*''")
  case True
  then show ?thesis using mount_calls [OF assms, of s C r] by (simp add: rootHandler_def)
next
  case False
  then have "calls_made s (snd (run_state (rootHandler S C pattern r) s)) =
      (if pattern = ''/readyz'' \<and> hr_Method r = ''GET'' then [CList None (Some 1)] else [])"
    by (auto simp: rootHandler_def readiness_calls)
  then show ?thesis by simp
qed

lemma root_calls:
  assumes "keyed_api (sv_client S)"
  shows "list_all is_review (calls_made s (snd (run_state (rootRouter S C r) s)))
     \<or> authorised S C r (calls_made s (snd (run_state (rootRouter S C r) s)))
     \<or> (\<exists>params. chi_root C (hr_Method r) (hr_Path r) = Matched ''/readyz'' params
          \<and> calls_made s (snd (run_state (rootRouter S C r) s)) = [CList None (Some 1)])"
proof (cases "chi_root C (hr_Method r) (hr_Path r)")
  case (Matched pattern params)
  have "calls_made s (snd (run_state (rootRouter S C r) s)) =
      calls_made (s\<lparr>hs_pattern := pattern\<rparr>) (snd (run_state (rootHandler S C pattern r) (s\<lparr>hs_pattern := pattern\<rparr>)))"
    by (simp add: rootRouter_def Matched)
  with root_handler_calls [OF assms, of "s\<lparr>hs_pattern := pattern\<rparr>" C pattern r] Matched show ?thesis by metis
qed (simp add: rootRouter_def)

lemma serveHTTP_calls:
  "calls_made s (snd (run_state (serveHTTP S C r) s)) =
     (if hr_Method r = ''OPTIONS'' then []
      else calls_made s (snd (run_state (rootRouter S C (r\<lparr>hr_user := None\<rparr>)) (s\<lparr>hs_pattern := ''''\<rparr>))))"
  using cors_calls [of "s\<lparr>hs_pattern := ''''\<rparr>" S "rootRouter S C" "r\<lparr>hr_user := None\<rparr>"]
  by (simp add: run_serveHTTP Let_def calls_made_def)

lemma authorised_user: "authorised S C (r\<lparr>hr_user := u\<rparr>) cs = authorised S C r cs"
  by (simp add: authorised_def bearer_token_def route_attributes_def access_attributes_def)


section \<open>Refusals\<close>

text \<open>
  C36. The front door: an \<open>/api/v1\<close> request over the rate limit is answered 429 with a \<open>Retry-After\<close> of one
  second; otherwise, without an access reviewer it is answered 503 and without a bearer token 401; none
  of them makes any call. With a token, an error of the token review is 503, an unknown token 401, and
  the review is the only call.
\<close>

theorem api_refusals:
  assumes "run_state (sv_allow S) (hs_world s) = (allowed, w)"
  shows "(\<not> allowed \<longrightarrow> run_state (apiMount S C r) s =
           (\<lparr>rsp_Status = 429, rsp_Header = [(''Content-Type'', ''application/json''), (''Retry-After'', ''1'')],
             rsp_Body = ErrorBody ''API rate limit exceeded''\<rparr>, s\<lparr>hs_world := w\<rparr>))
    \<and> (allowed \<and> sv_reviewer S = None \<longrightarrow>
         rsp_Status (fst (run_state (apiMount S C r) s)) = 503 \<and> calls_made s (snd (run_state (apiMount S C r) s)) = [])
    \<and> (\<forall>rv. allowed \<and> sv_reviewer S = Some rv \<and>
           (\<not> has_prefix (map_get (hr_Header r) ''Authorization'') ''Bearer '' \<or> bearer_token r = '''') \<longrightarrow>
         rsp_Status (fst (run_state (apiMount S C r) s)) = 401 \<and> calls_made s (snd (run_state (apiMount S C r) s)) = [])
    \<and> (\<forall>rv w' e. allowed \<and> sv_reviewer S = Some rv
           \<and> has_prefix (map_get (hr_Header r) ''Authorization'') ''Bearer '' \<and> bearer_token r \<noteq> ''''
           \<and> run_state (rv_authenticate rv (bearer_token r)) w = (Inl e, w') \<longrightarrow>
         rsp_Status (fst (run_state (apiMount S C r) s)) = 503
         \<and> calls_made s (snd (run_state (apiMount S C r) s)) = [CAuthenticate (bearer_token r) None])
    \<and> (\<forall>rv w'. allowed \<and> sv_reviewer S = Some rv
           \<and> has_prefix (map_get (hr_Header r) ''Authorization'') ''Bearer '' \<and> bearer_token r \<noteq> ''''
           \<and> run_state (rv_authenticate rv (bearer_token r)) w = (Inr None, w') \<longrightarrow>
         rsp_Status (fst (run_state (apiMount S C r) s)) = 401
         \<and> calls_made s (snd (run_state (apiMount S C r) s)) = [CAuthenticate (bearer_token r) None])"
  using assms
  by (auto simp: apiMount_def rateLimitAPI_def authenticate_def writeError_def writeJSON_def
      shown_statuses_def calls_made_def bearer_def)

text \<open>
  C38. Cross-origin access: around a handler that does not set the header itself, a response carries
  \<open>Access-Control-Allow-Origin\<close> exactly when the request names an origin on the server's list, with that
  origin as its value. A preflight is answered by the middleware alone, 403 for an origin that is not on
  the list and 204 otherwise, with no call to the cluster.
\<close>

theorem cors_only_for_listed_origins:
  assumes "\<And>s. map_of (rsp_Header (fst (run_state (h r) s))) ''Access-Control-Allow-Origin'' = None"
  shows "map_of (rsp_Header (fst (run_state (corsMiddleware S h r) s))) ''Access-Control-Allow-Origin''
       = (if map_get (hr_Header r) ''Origin'' \<noteq> '''' \<and> map_get (hr_Header r) ''Origin'' \<in> set (sv_allowedOrigins S)
          then Some (map_get (hr_Header r) ''Origin'') else None)
    \<and> (hr_Method r = ''OPTIONS'' \<longrightarrow>
        rsp_Status (fst (run_state (serveHTTP S C r) s))
          = (if map_get (hr_Header r) ''Origin'' \<noteq> '''' \<and> map_get (hr_Header r) ''Origin'' \<notin> set (sv_allowedOrigins S)
             then 403 else 204)
        \<and> calls_made s (snd (run_state (serveHTTP S C r) s)) = [])"
proof (rule conjI)
  let ?rsp = "fst (run_state (if hr_Method r = ''OPTIONS'' then
               (if map_get (hr_Header r) ''Origin'' \<noteq> '''' \<and> map_get (hr_Header r) ''Origin'' \<notin> set (sv_allowedOrigins S)
                then State_Monad.return (http_error ''origin is not allowed'' 403)
                else State_Monad.return \<lparr>rsp_Status = 204, rsp_Header = [], rsp_Body = NoBody\<rparr>)
             else h r) s)"
  have "map_of (rsp_Header ?rsp) ''Access-Control-Allow-Origin'' = None"
    using assms by (simp add: http_error_def)
  then have none: "map_of (rev (rsp_Header ?rsp)) ''Access-Control-Allow-Origin'' = None"
    by (simp add: map_of_eq_None_iff)
  have "rsp_Header (fst (run_state (corsMiddleware S h r) s)) = map_merge (cors_headers S r) (rsp_Header ?rsp)"
    by (simp add: corsMiddleware_def split: prod.split)
  then show "map_of (rsp_Header (fst (run_state (corsMiddleware S h r) s))) ''Access-Control-Allow-Origin''
       = (if map_get (hr_Header r) ''Origin'' \<noteq> '''' \<and> map_get (hr_Header r) ''Origin'' \<in> set (sv_allowedOrigins S)
          then Some (map_get (hr_Header r) ''Origin'') else None)"
    using none by (simp add: map_of_map_merge map_add_def cors_headers_def cors_allowed_def)
  show "hr_Method r = ''OPTIONS'' \<longrightarrow>
        rsp_Status (fst (run_state (serveHTTP S C r) s))
          = (if map_get (hr_Header r) ''Origin'' \<noteq> '''' \<and> map_get (hr_Header r) ''Origin'' \<notin> set (sv_allowedOrigins S)
             then 403 else 204)
        \<and> calls_made s (snd (run_state (serveHTTP S C r) s)) = []"
    by (simp add: run_serveHTTP Let_def corsMiddleware_def http_error_def calls_made_def)
qed


section \<open>Instances\<close>

definition sample_chi :: chi where
  "sample_chi =
     \<lparr>chi_root = (\<lambda>_ _. Matched ''/api/v1/*'' []),
      chi_api = (\<lambda>_ _. Matched ''/api/v1/namespaces/{namespace}/appdefinitions/{name}''
                   [(''namespace'', ''prod''), (''name'', ''web'')])\<rparr>"

lemma sample_bearer:
  "bearer_token (sample_request m p) = ''t''" "has_prefix (map_get (hr_Header (sample_request m p)) ''Authorization'') bearer"
  by (simp_all add: sample_request_def map_get_def bearer_def bearer_token_def has_prefix_def trim_prefix_def
      trim_space_def trim_def is_space_def)

lemma unit_world [simp]: "(s :: unit hst)\<lparr>hs_world := ()\<rparr> = s"
  by simp

lemma sample_auth:
  "run_state (authenticate (sv_reviewer (sample_server a b)) h (sample_request m p)) s =
     run_state (h ((sample_request m p)\<lparr>hr_user := Some sample_user\<rparr>))
       (s\<lparr>hs_calls := hs_calls s @ [CAuthenticate ''t'' (Some sample_user)]\<rparr>)"
  by (simp add: authenticate_def sample_bearer sample_server_def)

lemma sample_get_calls:
  "calls_made (start ()) (snd (run_state (serveHTTP (sample_server reference_app reference_app) sample_chi
     (sample_request ''GET'' '''')) (start ())))
   = [CAuthenticate ''t'' (Some sample_user),
      CAuthorize sample_user \<lparr>at_Verb = ''get'', at_Namespace = ''prod'', at_Name = ''web'', at_Subresource = ''''\<rparr> True,
      CGet ''prod'' ''web'']"
proof -
  have r: "(sample_request ''GET'' '''')\<lparr>hr_user := None\<rparr> = sample_request ''GET'' ''''"
    "hr_Method (sample_request ''GET'' '''') = ''GET''" by (simp_all add: sample_request_def)
  have "run_state (rootRouter (sample_server reference_app reference_app) sample_chi (sample_request ''GET'' '''')) s =
      run_state (apiMount (sample_server reference_app reference_app) sample_chi (sample_request ''GET'' ''''))
        (s\<lparr>hs_pattern := ''/api/v1/*''\<rparr>)" for s
    by (simp add: rootRouter_def sample_chi_def rootHandler_def)
  moreover have "run_state (apiMount (sample_server reference_app reference_app) sample_chi (sample_request ''GET'' '''')) s =
      run_state (apiRouter (sample_server reference_app reference_app) sample_chi
          ((sample_request ''GET'' '''')\<lparr>hr_user := Some sample_user\<rparr>))
        (s\<lparr>hs_calls := hs_calls s @ [CAuthenticate ''t'' (Some sample_user)]\<rparr>)" for s :: "unit hst"
  proof -
    have "run_state (sv_allow (sample_server reference_app reference_app)) w = (True, w)" for w
      by (simp add: sample_server_def)
    then show ?thesis by (simp add: apiMount_def rateLimitAPI_def sample_auth)
  qed
  moreover have "hs_calls (snd (run_state (apiRouter (sample_server reference_app reference_app) sample_chi
          ((sample_request ''GET'' '''')\<lparr>hr_user := Some sample_user\<rparr>)) s)) =
      hs_calls s @ [CAuthorize sample_user
        \<lparr>at_Verb = ''get'', at_Namespace = ''prod'', at_Name = ''web'', at_Subresource = ''''\<rparr> True, CGet ''prod'' ''web'']"
    for s :: "unit hst"
    by (simp add: apiRouter_def sample_chi_def sample_request_def find_route_def api_routes_def guarded_def
        requireAccess_def requireAccessFor_def access_attributes_def map_get_def getAppDefinition_def getting_def
        sample_server_def sample_api_def reference_app_def writeJSON_def)
  ultimately show ?thesis unfolding serveHTTP_calls r by (simp add: calls_made_def start_def)
qed


lemma api_refusals_witness:
  "rsp_Status (fst (run_state (apiMount ((sample_server reference_app reference_app)\<lparr>sv_allow := State_Monad.return False\<rparr>)
      sample_chi (sample_request ''GET'' '''')) (start ()))) = 429"
proof -
  let ?S = "(sample_server reference_app reference_app)\<lparr>sv_allow := State_Monad.return False\<rparr>"
  have allow: "run_state (sv_allow ?S) (hs_world (start ())) = (False, ())" by simp
  show ?thesis using api_refusals [OF allow, of sample_chi "sample_request ''GET'' ''''"] by simp
qed

lemma cors_only_for_listed_origins_witness:
  "map_of (rsp_Header (fst (run_state (corsMiddleware (sample_server reference_app reference_app)
      (\<lambda>_. State_Monad.return \<lparr>rsp_Status = 200, rsp_Header = [], rsp_Body = NoBody\<rparr>)
      ((sample_request ''GET'' '''')\<lparr>hr_Header := [(''Origin'', ''https://evil.example'')]\<rparr>)) (start ()))))
    ''Access-Control-Allow-Origin'' = None"
proof -
  let ?h = "\<lambda>_. State_Monad.return \<lparr>rsp_Status = 200, rsp_Header = [], rsp_Body = NoBody\<rparr> :: (unit hst, response) state"
    and ?r = "(sample_request ''GET'' '''')\<lparr>hr_Header := [(''Origin'', ''https://evil.example'')]\<rparr>"
  have "map_of (rsp_Header (fst (run_state (?h ?r) s))) ''Access-Control-Allow-Origin'' = None" for s :: "unit hst"
    by simp
  from cors_only_for_listed_origins [where h = ?h and r = ?r and S = "sample_server reference_app reference_app", OF this]
  show ?thesis by (simp add: map_get_def sample_server_def)
qed

section \<open>Options\<close>

lemma fold_options_origins:
  "sv_allowedOrigins (WithAllowedOrigins os S) = sv_allowedOrigins S @ filter (\<lambda>origin. origin \<noteq> '''') os"
  by (simp add: WithAllowedOrigins_def)

text \<open>
  The server that \<open>cmd/apiserver\<close> builds: it always has an access reviewer and a log client, and its
  allowed origins are the pieces of the flag between commas, without the space around them; the empty
  origin is never one of them, so an empty flag allows no origin at all.
\<close>

theorem apiserver_main_server:
  assumes "S = apiserver_main k8sClient authClient clientset limiter decode printable flag"
  shows "sv_reviewer S = Some (KubernetesAccessReviewer authClient) \<and> sv_logs S = Some clientset
    \<and> sv_client S = k8sClient
    \<and> set (sv_allowedOrigins S) = {trim_space piece | piece. piece \<in> set (split_on CHR '','' flag)} - {''''}
    \<and> (flag = '''' \<longrightarrow> sv_allowedOrigins S = [])"
  unfolding assms
  by (auto simp: apiserver_main_def New_def WithAccessReviewer_def WithClientset_def WithAllowedOrigins_def
      parse_origins_def trim_space_def)

lemma apiserver_main_server_witness:
  "sv_allowedOrigins (apiserver_main (sample_api reference_app ''web-0'')
     \<lparr>ac_tokenReview = (\<lambda>_. fail (Plain ''down'')), ac_subjectAccessReview = (\<lambda>_. fail (Plain ''down''))\<rparr>
     (\<lambda>_ _ _. ret []) (State_Monad.return True) (\<lambda>_ _. Inl (Plain ''no'')) (\<lambda>_. True) '''') = []"
  using apiserver_main_server [OF refl] by blast

end
