(* ===== verification/Serving.thy ===== *)
theory Serving
  imports Server CommandLine
begin

text \<open>
  \<open>cmd/apiserver/main.go\<close> and \<open>Server.Run\<close>: from the flags to a server that listens, and the end of
  the process. \<open>Run\<close> has two goroutines, one in \<open>ListenAndServe\<close> and one that waits for the signal
  and shuts the server down; with the requests in flight they are the step relation \<open>serve\<close>.
\<close>

section \<open>The command\<close>

record apiserver_flags =
  af_addr :: string
  af_corsAllowedOrigins :: string

definition apiserver_flag_table :: "(string \<times> apiserver_flags flag) list" where
  "apiserver_flag_table =
     [(''bind-address'', string_flag af_addr_update),
      (''cors-allowed-origins'', string_flag af_corsAllowedOrigins_update)]"

definition default_apiserver_flags :: apiserver_flags where
  "default_apiserver_flags = \<lparr>af_addr = '':8080'', af_corsAllowedOrigins = ''''\<rparr>"

definition parse_apiserver_flags :: "(string \<Rightarrow> unit flag option) \<Rightarrow> string list \<Rightarrow> flag_error + apiserver_flags" where
  "parse_apiserver_flags libs args = parse_flags (flag_lookup apiserver_flag_table libs) args default_apiserver_flags"

text \<open>
  The libraries' constructors: the cluster's configuration, or an exit, and the two clients made from it.
\<close>

record ('w, 'c) constructors =
  co_getConfig :: "'c result"
  co_newClient :: "'c \<Rightarrow> 'w api_client result"
  co_newForConfig :: "'c \<Rightarrow> ('w auth_client \<times> 'w log_client) result"

text \<open>
  What the process comes to before it listens: an exit status, or the address and the server it runs.
\<close>

definition apiserver_start ::
  "('w, 'c) constructors \<Rightarrow> ('w, bool) state \<Rightarrow> decoder \<Rightarrow> (nat \<Rightarrow> bool) \<Rightarrow> (string \<Rightarrow> unit flag option) \<Rightarrow> string list
     \<Rightarrow> nat + string \<times> 'w server" where
  "apiserver_start C limiter decode printable libs args =
     (case parse_apiserver_flags libs args of
        Inl e \<Rightarrow> Inl (parse_exit e)
      | Inr f \<Rightarrow>
     (case co_getConfig C of
        Inl _ \<Rightarrow> Inl 1
      | Inr cfg \<Rightarrow>
     (case co_newClient C cfg of
        Inl _ \<Rightarrow> Inl 1
      | Inr k8sClient \<Rightarrow>
     (case co_newForConfig C cfg of
        Inl _ \<Rightarrow> Inl 1
      | Inr (authClient, clientset) \<Rightarrow>
          Inr (af_addr f, apiserver_main k8sClient authClient clientset limiter decode printable (af_corsAllowedOrigins f))))))"

section \<open>Listening and shutting down\<close>

datatype shutdown = WaitingForSignal | ShuttingDown | ShutDown

text \<open>
  The process: whether the first signal has come and whether a second one has; whether connections
  are accepted; the connections by what they are doing (accepted and still without a request, with a
  request in flight, idle between two requests); the goroutine that shuts down, what \<open>Run\<close> has
  returned, the exit status.
\<close>

record serving =
  sg_signalled :: bool
  sg_forced :: bool
  sg_listening :: bool
  sg_fresh :: nat
  sg_inflight :: nat
  sg_idle :: nat
  sg_shutdown :: shutdown
  sg_returned :: "error option option"
  sg_exit :: "nat option"

definition serving_start :: serving where
  "serving_start =
     \<lparr>sg_signalled = False, sg_forced = False, sg_listening = True, sg_fresh = 0, sg_inflight = 0, sg_idle = 0,
      sg_shutdown = WaitingForSignal, sg_returned = None, sg_exit = None\<rparr>"

text \<open>
  The steps. The handler of \<open>ctrl.SetupSignalHandler\<close> cancels the context at the first signal and
  exits with status 1 at the second, as documented. \<open>ListenAndServe\<close> returns when it cannot listen or
  accept, and, with \<open>ErrServerClosed\<close>, as soon as \<open>Shutdown\<close> has been called, as documented; \<open>Run\<close>
  returns with it. A connection outlives the listener: it brings its first request, and is kept for
  more unless the server is shutting down; the client, a timeout or \<open>Shutdown\<close> may close it while it has
  no request. \<open>Shutdown\<close> closes the listener and returns when only idle connections are left, which it
  closes, or after ten seconds. The exit of the process ends all.
\<close>

inductive serve :: "serving \<Rightarrow> serving \<Rightarrow> bool" where
  Signal: "sg_exit s = None \<Longrightarrow> \<not> sg_signalled s \<Longrightarrow> serve s (s\<lparr>sg_signalled := True\<rparr>)"
| SecondSignal: "sg_exit s = None \<Longrightarrow> sg_signalled s \<Longrightarrow> serve s (s\<lparr>sg_forced := True, sg_exit := Some 1\<rparr>)"
| Accept: "sg_exit s = None \<Longrightarrow> sg_listening s \<Longrightarrow> serve s (s\<lparr>sg_fresh := Suc (sg_fresh s)\<rparr>)"
| FirstRequest: "sg_exit s = None \<Longrightarrow> sg_fresh s = Suc n \<Longrightarrow>
    serve s (s\<lparr>sg_fresh := n, sg_inflight := Suc (sg_inflight s)\<rparr>)"
| NextRequest: "sg_exit s = None \<Longrightarrow> sg_idle s = Suc n \<Longrightarrow>
    serve s (s\<lparr>sg_idle := n, sg_inflight := Suc (sg_inflight s)\<rparr>)"
| RespondKeep: "sg_exit s = None \<Longrightarrow> sg_inflight s = Suc n \<Longrightarrow> sg_shutdown s = WaitingForSignal \<Longrightarrow>
    serve s (s\<lparr>sg_inflight := n, sg_idle := Suc (sg_idle s)\<rparr>)"
| RespondClose: "sg_exit s = None \<Longrightarrow> sg_inflight s = Suc n \<Longrightarrow> serve s (s\<lparr>sg_inflight := n\<rparr>)"
| CloseFresh: "sg_exit s = None \<Longrightarrow> sg_fresh s = Suc n \<Longrightarrow> serve s (s\<lparr>sg_fresh := n\<rparr>)"
| CloseIdle: "sg_exit s = None \<Longrightarrow> sg_idle s = Suc n \<Longrightarrow> serve s (s\<lparr>sg_idle := n\<rparr>)"
| ListenFails: "sg_exit s = None \<Longrightarrow> sg_listening s \<Longrightarrow> sg_returned s = None \<Longrightarrow>
    serve s (s\<lparr>sg_listening := False, sg_returned := Some (Some e)\<rparr>)"
| CallShutdown: "sg_exit s = None \<Longrightarrow> sg_signalled s \<Longrightarrow> sg_shutdown s = WaitingForSignal \<Longrightarrow>
    serve s (s\<lparr>sg_listening := False, sg_shutdown := ShuttingDown\<rparr>)"
| ServerClosed: "sg_exit s = None \<Longrightarrow> sg_shutdown s \<noteq> WaitingForSignal \<Longrightarrow> sg_returned s = None \<Longrightarrow>
    serve s (s\<lparr>sg_returned := Some None\<rparr>)"
| ShutdownDrained: "sg_exit s = None \<Longrightarrow> sg_shutdown s = ShuttingDown \<Longrightarrow> sg_inflight s = 0 \<Longrightarrow> sg_fresh s = 0 \<Longrightarrow>
    serve s (s\<lparr>sg_shutdown := ShutDown, sg_idle := 0\<rparr>)"
| ShutdownTimeout: "sg_exit s = None \<Longrightarrow> sg_shutdown s = ShuttingDown \<Longrightarrow>
    serve s (s\<lparr>sg_shutdown := ShutDown\<rparr>)"
| MainReturns: "sg_exit s = None \<Longrightarrow> sg_returned s = Some r \<Longrightarrow>
    serve s (s\<lparr>sg_exit := Some (if r = None then 0 else 1)\<rparr>)"

inductive_cases serveE: "serve s s'"

lemma serve_stops: "sg_exit s = Some code \<Longrightarrow> \<not> serve s s'"
  by (auto elim: serveE)

inductive served :: "serving \<Rightarrow> serving \<Rightarrow> bool" where
  refl: "served s s"
| step: "served s t \<Longrightarrow> serve t u \<Longrightarrow> served s u"

lemma served_one: "serve s t \<Longrightarrow> served s t"
  by (rule served.step [OF served.refl])

text \<open>The invariant of the process.\<close>

definition serving_ok :: "serving \<Rightarrow> bool" where
  "serving_ok s \<longleftrightarrow>
     (sg_shutdown s \<noteq> WaitingForSignal \<longrightarrow> sg_signalled s \<and> \<not> sg_listening s)
     \<and> (sg_returned s \<noteq> None \<longrightarrow> \<not> sg_listening s)
     \<and> (sg_returned s = Some None \<longrightarrow> sg_shutdown s \<noteq> WaitingForSignal)
     \<and> (sg_forced s \<longrightarrow> sg_signalled s)
     \<and> (\<forall>code. sg_exit s = Some code \<longrightarrow>
          (sg_forced s \<and> code = 1) \<or> (\<exists>r. sg_returned s = Some r \<and> code = (if r = None then 0 else 1)))"

lemma serving_ok_start: "serving_ok serving_start"
  by (simp add: serving_ok_def serving_start_def)

lemma serving_ok_step: "serve s t \<Longrightarrow> serving_ok s \<Longrightarrow> serving_ok t"
  by (erule serveE) (auto simp: serving_ok_def)

lemma serving_ok_served: "served s t \<Longrightarrow> serving_ok s \<Longrightarrow> serving_ok t"
  by (induction rule: served.induct) (auto intro: serving_ok_step)

text \<open>A run that accepts \<open>n\<close> requests, is told to stop, and exits with all of them in flight.\<close>

definition dropped :: "nat \<Rightarrow> serving" where
  "dropped n = \<lparr>sg_signalled = True, sg_forced = False, sg_listening = False, sg_fresh = 0, sg_inflight = n, sg_idle = 0,
     sg_shutdown = ShuttingDown, sg_returned = Some None, sg_exit = Some 0\<rparr>"

lemma accepted: "served serving_start (serving_start\<lparr>sg_inflight := n\<rparr>)"
proof (induction n)
  case 0
  show ?case using served.refl [of serving_start] by (simp add: serving_start_def)
next
  case (Suc n)
  have "serve (serving_start\<lparr>sg_inflight := n\<rparr>) (serving_start\<lparr>sg_inflight := n, sg_fresh := 1\<rparr>)"
    using Accept [of "serving_start\<lparr>sg_inflight := n\<rparr>"] by (simp add: serving_start_def)
  with Suc have "served serving_start (serving_start\<lparr>sg_inflight := n, sg_fresh := 1\<rparr>)" by (rule served.step)
  moreover have "serve (serving_start\<lparr>sg_inflight := n, sg_fresh := 1\<rparr>) (serving_start\<lparr>sg_inflight := Suc n\<rparr>)"
    using FirstRequest [of "serving_start\<lparr>sg_inflight := n, sg_fresh := 1\<rparr>" 0] by (simp add: serving_start_def)
  ultimately show ?case by (rule served.step)
qed

lemma dropped_served: "served serving_start (dropped n)"
proof -
  let ?s1 = "serving_start\<lparr>sg_inflight := n, sg_signalled := True\<rparr>"
  let ?s2 = "?s1\<lparr>sg_listening := False, sg_shutdown := ShuttingDown\<rparr>"
  let ?s3 = "?s2\<lparr>sg_returned := Some None\<rparr>"
  have "serve (serving_start\<lparr>sg_inflight := n\<rparr>) ?s1"
    using Signal [of "serving_start\<lparr>sg_inflight := n\<rparr>"] by (simp add: serving_start_def)
  with accepted have "served serving_start ?s1" by (rule served.step)
  moreover have "serve ?s1 ?s2" by (rule CallShutdown) (simp_all add: serving_start_def)
  ultimately have "served serving_start ?s2" by (rule served.step)
  moreover have "serve ?s2 ?s3" by (rule ServerClosed) (simp_all add: serving_start_def)
  ultimately have "served serving_start ?s3" by (rule served.step)
  moreover have "serve ?s3 (?s3\<lparr>sg_exit := Some (if None = (None :: error option) then 0 else 1)\<rparr>)"
    by (rule MainReturns) (simp_all add: serving_start_def)
  ultimately have "served serving_start (?s3\<lparr>sg_exit := Some (if None = (None :: error option) then 0 else 1)\<rparr>)"
    by (rule served.step)
  then show ?thesis by (simp add: dropped_def serving_start_def)
qed

section \<open>Properties\<close>

text \<open>
  C13. How the process ends. In every reachable state: it has exited with status 0 only after the signal
  came, \<open>Shutdown\<close> was called and \<open>Run\<close> returned no error; with status 1 only if \<open>Run\<close> returned the error of
  a failed listener, or a second signal came; and with no other status. Once \<open>Shutdown\<close> has been called
  or \<open>Run\<close> has returned, no connection is accepted any more, so that requests can come only on the
  connections there are; and once \<open>Shutdown\<close> has been called none is kept for another request, so that
  each can bring at most one more.
\<close>

theorem run_outcome:
  assumes "served serving_start s"
  shows "(sg_exit s = Some 0 \<longrightarrow> sg_signalled s \<and> sg_shutdown s \<noteq> WaitingForSignal \<and> sg_returned s = Some None)
    \<and> (sg_exit s = Some 1 \<longrightarrow> (\<exists>e. sg_returned s = Some (Some e)) \<or> (sg_forced s \<and> sg_signalled s))
    \<and> sg_exit s \<in> {None, Some 0, Some 1}
    \<and> (sg_shutdown s \<noteq> WaitingForSignal \<or> sg_returned s \<noteq> None \<longrightarrow>
        (\<forall>t. serve s t \<longrightarrow> sg_fresh t + sg_inflight t + sg_idle t \<le> sg_fresh s + sg_inflight s + sg_idle s))
    \<and> (sg_shutdown s \<noteq> WaitingForSignal \<longrightarrow>
        (\<forall>t. serve s t \<longrightarrow> sg_fresh t + sg_idle t \<le> sg_fresh s + sg_idle s))"
proof -
  have ok: "serving_ok s" by (rule serving_ok_served [OF assms serving_ok_start])
  have "sg_fresh t + sg_inflight t + sg_idle t \<le> sg_fresh s + sg_inflight s + sg_idle s"
    if "\<not> sg_listening s" "serve s t" for t
    using that(2) by (cases rule: serve.cases) (use that(1) in auto)
  moreover have "sg_fresh t + sg_idle t \<le> sg_fresh s + sg_idle s"
    if "\<not> sg_listening s" "sg_shutdown s \<noteq> WaitingForSignal" "serve s t" for t
    using that(3) by (cases rule: serve.cases) (use that(1,2) in auto)
  ultimately show ?thesis using ok by (auto simp: serving_ok_def split: if_splits)
qed

text \<open>A step that is there however many requests are in flight, and touches none.\<close>

definition unwaiting :: "serving \<Rightarrow> serving \<Rightarrow> bool" where
  "unwaiting s t \<longleftrightarrow> sg_inflight t = sg_inflight s
     \<and> (\<forall>n. serve (s\<lparr>sg_inflight := n\<rparr>) (t\<lparr>sg_inflight := n\<rparr>))"

lemma unwaiting_serve: "unwaiting s t \<Longrightarrow> serve s t"
  unfolding unwaiting_def by (metis serving.surjective serving.update_convs(5))

lemma unwaiting_shutdown:
  assumes "sg_exit s = None" and "sg_signalled s" and "sg_shutdown s = WaitingForSignal"
  shows "unwaiting s (s\<lparr>sg_listening := False, sg_shutdown := ShuttingDown\<rparr>)"
  using CallShutdown [of "s\<lparr>sg_inflight := n\<rparr>" for n] assms by (cases s) (simp add: unwaiting_def)

lemma unwaiting_return:
  assumes "sg_exit s = None" and "sg_shutdown s \<noteq> WaitingForSignal" and "sg_returned s = None"
  shows "unwaiting s (s\<lparr>sg_returned := Some None\<rparr>)"
  using ServerClosed [of "s\<lparr>sg_inflight := n\<rparr>" for n] assms by (cases s) (simp add: unwaiting_def)

lemma unwaiting_exit:
  assumes "sg_exit s = None" and "sg_returned s = Some r"
  shows "unwaiting s (s\<lparr>sg_exit := Some (if r = None then 0 else 1)\<rparr>)"
  using MainReturns [of "s\<lparr>sg_inflight := n\<rparr>" r for n] assms by (cases s) (simp add: unwaiting_def)

text \<open>
  C15. After the signal the process can always come to its end without a second signal, from wherever it
  is, in at most three steps: \<open>Shutdown\<close> is called, \<open>Run\<close> returns, \<open>main\<close> returns. None of these steps
  waits for a request: each is there whatever the number of requests in flight, and leaves it as it is.
\<close>

theorem shutdown_exits:
  assumes "served serving_start s" and "sg_signalled s" and "sg_exit s = None"
  shows "\<exists>k t. k \<le> 3 \<and> (unwaiting ^^ k) s t \<and> sg_exit t \<noteq> None \<and> sg_forced t = sg_forced s"
proof -
  define t where "t = (if sg_shutdown s = WaitingForSignal then s\<lparr>sg_listening := False, sg_shutdown := ShuttingDown\<rparr> else s)"
  define i :: nat where "i = (if sg_shutdown s = WaitingForSignal then 1 else 0)"
  have t: "(unwaiting ^^ i) s t" "sg_exit t = None" "sg_shutdown t \<noteq> WaitingForSignal" "sg_forced t = sg_forced s"
    using unwaiting_shutdown [of s] assms(2,3) by (auto simp: t_def i_def)
  define u where "u = (if sg_returned t = None then t\<lparr>sg_returned := Some None\<rparr> else t)"
  define j :: nat where "j = (if sg_returned t = None then 1 else 0)"
  have u: "(unwaiting ^^ j) t u" "sg_exit u = None" "sg_returned u \<noteq> None" "sg_forced u = sg_forced t"
    using unwaiting_return [of t] t(2,3) by (auto simp: u_def j_def)
  then obtain r where r: "sg_returned u = Some r" by blast
  define v where "v = u\<lparr>sg_exit := Some (if r = None then 0 else 1)\<rparr>"
  have "unwaiting u v" unfolding v_def by (rule unwaiting_exit [OF u(2) r])
  with relpowp_trans [OF t(1) u(1)] have "(unwaiting ^^ Suc (i + j)) s v" by (rule relpowp_Suc_I)
  moreover have "Suc (i + j) \<le> 3" by (simp add: i_def j_def)
  moreover have "sg_exit v \<noteq> None" "sg_forced v = sg_forced s" using t(4) u(4) by (simp_all add: v_def)
  ultimately show ?thesis by blast
qed

text \<open>
  C14. The shutdown is not graceful: for any number of requests there is a run in which they are all in
  flight when the process exits with status 0. \<open>Run\<close> returns when \<open>ListenAndServe\<close> does, which is as soon as
  \<open>Shutdown\<close> is called, and nothing waits for \<open>Shutdown\<close> to return.
\<close>

theorem shutdown_drops_requests:
  "\<exists>s. served serving_start s \<and> sg_exit s = Some 0 \<and> sg_inflight s = n \<and> sg_shutdown s = ShuttingDown"
  using dropped_served [of n] by (intro exI [of _ "dropped n"]) (simp add: dropped_def)

text \<open>
  What the command serves: with the flags read and both clients made, it listens on the given
  address with a server that reviews every request against the cluster, can stream logs, and allows exactly
  the listed origins; otherwise it exits, with status 1 when a client cannot be made and before anything
  listens. Without flags that is port 8080 and no origin.
\<close>

theorem apiserver_starts:
  "(case apiserver_start C limiter decode printable libs args of
      Inr (addr, S) \<Rightarrow>
        (\<exists>f cfg k a l. parse_apiserver_flags libs args = Inr f \<and> co_getConfig C = Inr cfg \<and> co_newClient C cfg = Inr k
           \<and> co_newForConfig C cfg = Inr (a, l) \<and> addr = af_addr f
           \<and> sv_client S = k \<and> sv_reviewer S = Some (KubernetesAccessReviewer a) \<and> sv_logs S = Some l
           \<and> sv_allowedOrigins S = parse_origins (af_corsAllowedOrigins f))
    | Inl code \<Rightarrow> code \<in> {0, 1, 2} \<and> (code = 1 \<longleftrightarrow> (\<exists>f. parse_apiserver_flags libs args = Inr f)))
   \<and> parse_apiserver_flags libs [] = Inr default_apiserver_flags
   \<and> parse_origins (af_corsAllowedOrigins default_apiserver_flags) = []"
proof (intro conjI)
  show "parse_apiserver_flags libs [] = Inr default_apiserver_flags" by (simp add: parse_apiserver_flags_def)
  show "parse_origins (af_corsAllowedOrigins default_apiserver_flags) = []"
    by (simp add: default_apiserver_flags_def parse_origins_def trim_space_def chunks.simps trim_def)
  show "case apiserver_start C limiter decode printable libs args of
      Inr (addr, S) \<Rightarrow>
        (\<exists>f cfg k a l. parse_apiserver_flags libs args = Inr f \<and> co_getConfig C = Inr cfg \<and> co_newClient C cfg = Inr k
           \<and> co_newForConfig C cfg = Inr (a, l) \<and> addr = af_addr f
           \<and> sv_client S = k \<and> sv_reviewer S = Some (KubernetesAccessReviewer a) \<and> sv_logs S = Some l
           \<and> sv_allowedOrigins S = parse_origins (af_corsAllowedOrigins f))
    | Inl code \<Rightarrow> code \<in> {0, 1, 2} \<and> (code = 1 \<longleftrightarrow> (\<exists>f. parse_apiserver_flags libs args = Inr f))"
    by (auto simp: apiserver_start_def parse_exit_def apiserver_main_def New_def WithAccessReviewer_def WithClientset_def
        WithAllowedOrigins_def parse_origins_def split: sum.split flag_error.split)
qed

section \<open>Concrete instances\<close>

lemma run_outcome_witness:
  "served serving_start (dropped 2) \<and> sg_signalled (dropped 2) \<and> sg_returned (dropped 2) = Some None"
  using run_outcome [OF dropped_served [of 2]] dropped_served [of 2] by (simp add: dropped_def)

lemma shutdown_exits_witness:
  "\<exists>k t. k \<le> 3 \<and> (unwaiting ^^ k) (serving_start\<lparr>sg_inflight := 2, sg_signalled := True\<rparr>) t
     \<and> sg_exit t \<noteq> None \<and> \<not> sg_forced t"
proof -
  have "serve (serving_start\<lparr>sg_inflight := 2\<rparr>) (serving_start\<lparr>sg_inflight := 2, sg_signalled := True\<rparr>)"
    using Signal [of "serving_start\<lparr>sg_inflight := 2\<rparr>"] by (simp add: serving_start_def)
  with accepted have "served serving_start (serving_start\<lparr>sg_inflight := 2, sg_signalled := True\<rparr>)"
    by (rule served.step)
  from shutdown_exits [OF this] show ?thesis by (simp add: serving_start_def)
qed

end
