(* ===== verification/Spec2Isabelle.thy ===== *)
theory Spec2Isabelle
  imports ControlLoop Converge DeepCopy Manager Serving
begin

text \<open>
  A model of app-operator, a Kubernetes operator in Go, and of the HTTP API server of the same
  repository, with the properties that make them correct.

  The program. An \<open>AppDefinition\<close> (\<open>api/v1/appdefinition_types.go\<close>) declares a whole application.
  The controller (\<open>internal/controller\<close>) is called with the name of one of them, reads it, brings its
  child objects up to date in twelve steps (ConfigMaps, Secrets, SecretStore, ExternalSecrets, the
  nudging of failed external secrets, Deployment, Service, disk, Traefik middlewares, Ingresses,
  autoscaler, ServiceMonitor), then writes the status and says when it wants to be called again. The API
  server (\<open>internal/apiserver\<close>) offers AppDefinitions over HTTP behind the cluster's own authentication
  and authorization.

  The theories, in the order of their imports.
  \<^item> \<open>Prelude\<close>, \<open>Programs\<close>, \<open>GoStrings\<close>, \<open>KubeTypes\<close>: Go maps as lists of entries in the order of one
    \<open>range\<close>; programs over a state with \<open>if err != nil\<close>, early return and bounded retry, and the locale
    \<open>effect_relation\<close> for what they leave alone; the parts of \<open>strings\<close>, \<open>strconv\<close> and \<open>fmt\<close> that the
    code uses, over bytes and decoded runes; the Kubernetes types, as far as the operator reads or
    writes their fields, the rest of an object in one field that is carried along; errors as values.
  \<^item> \<open>AppDefTypes\<close>: \<open>api/v1\<close>, one record per struct. \<open>GoMemory\<close> and \<open>DeepCopy\<close>: Go values in a heap, and
    the generated deep copies (\<open>zz_generated.deepcopy.go\<close>), each struct with the type it has in memory.
  \<^item> \<open>Client\<close>: the API server as the controller sees it, a record of operations \<open>k8s\<close> over an
    arbitrary world, every requested write kept in a trace; \<open>metrics.go\<close>; pruning. \<open>MemCluster\<close> is one
    such world, a cluster in memory, on which the witnesses run.
  \<^item> \<open>Names\<close> (\<open>helpers.go\<close>), \<open>Owned\<close> (ConfigMaps, Secrets, and the locales \<open>child_kind\<close>,
    \<open>typed_child_kind\<close> and \<open>optional_child_kind\<close> of every list of children), \<open>Hashing\<close>,
    \<open>PodTemplate\<close> and \<open>Workload\<close> (\<open>reconcile_deployment.go\<close>), \<open>Network\<close> (Service, ServiceMonitor),
    \<open>Scaling\<close> (autoscaler, disk), \<open>Optional\<close> and \<open>Middleware\<close> and \<open>Ingresses\<close> (Traefik),
    \<open>ExternalSecrets\<close> (the three files of the External Secrets integration), \<open>Status\<close>, \<open>Controller\<close>
    (\<open>appdefinition_controller.go\<close>). \<open>Converge\<close> is the refinement: the objects of a kind as a map from
    namespace and name, the locale \<open>converging_kind\<close> that brings such a map to what the spec declares, and
    its instances for ConfigMaps, Secrets and Ingresses.
    \<open>ControlLoop\<close> puts many reconciles and the changes of others one after the other, with a record of what each
    request read and wrote.
  \<^item> \<open>CommandLine\<close>, \<open>Manager\<close>: the package \<open>flag\<close>, paths and slices; \<open>SetupWithManager\<close> and \<open>cmd/main.go\<close>,
    the steps of the start with their exits.
  \<^item> \<open>Access\<close>, \<open>Handlers\<close>, \<open>Server\<close>, \<open>Serving\<close>: \<open>internal/apiserver\<close> and \<open>cmd/apiserver\<close>; listening and
    shutting down (\<open>Server.Run\<close>) is a step relation of two goroutines, the connections with their requests,
    and the signals, of which a second one ends the process. The locale \<open>gate\<close> is the contract of a middleware that answers or passes on.

  How the model corresponds to the code. A function that only computes is a function of the same
  name. The function a reconciler gives to \<open>CreateOrUpdate\<close> is a definition \<open>mutateX\<close> from the object
  read to the object to write, or to an error. A function that calls the API server is a program
  over \<open>st\<close>: the world, the trace of the writes requested so far, and the metrics. A nil dereference or
  another panic is an error value of its own that every caller passes on without running what it
  would skip. The calls of an HTTP request are traced in the same way with the answers of the access
  reviews.

  What is a parameter. The API server's and the cache's answers, the RESTMapper, the clock, SHA-256, RFC 3339,
  quantities, \<open>SetControllerReference\<close>, \<open>IsControlledBy\<close> and \<open>SetStatusCondition\<close> are fields of \<open>k8s\<close>; chi's path
  matching, the rate limiter, JSON decoding and the printable runes beyond ASCII are parameters of
  the server; the manager of controller-runtime, the flags the libraries add and the capacity \<open>append\<close>
  gives a new array are parameters of the command. The laws the properties assume of them are documented behaviour: \<open>retry_law\<close> (the
  retried function runs at least once, again only after a conflict, and its last result counts),
  \<open>keyed\<close> and \<open>keyed_api\<close> (a read by key returns an object of that key), \<open>rest_mapping_law\<close> (a mapping has the kind asked
  for), \<open>condition_laws\<close>, \<open>controller_reference_law\<close>, \<open>ownership_law\<close> (what \<open>SetControllerReference\<close> sets,
  \<open>IsControlledBy\<close> sees) and \<open>stores\<close> (the objects of a kind, as long as nobody else writes to them and
  no admission plugin changes the fields the operator sets). Each has an instance in \<open>MemCluster\<close>.

  What the lemmas show. The frame rules (collection \<open>hoare\<close>) bound what each step may write; the
  contracts of the children follow inside the locales and are instantiated per kind. The properties
  are numbered C1 to C40 in the theories that hold their definitions: which writes and deletions a
  reconcile may request, by the application it has read, in what order, and what an error leaves undone; what the Deployment, Service, disk, autoscaler, Ingress
  and middleware edits produce on every branch; that reconciling a list of children brings the cluster
  to what the spec declares, touches nothing else and has nothing to do the second time; that the configuration hash depends on the
  configuration only and the hashed text loses nothing; that the status reports the Deployment it has read; when external secrets are nudged;
  that no HTTP request reaches the cluster without an approved access review for exactly that verb and
  object, and that no response shows inline secret data; in what order the manager starts, what it
  watches and how its two servers are secured; how the API server ends; that a deep copy shares no
  memory with its original.

  Bounds. Retries are \<open>attempts\<close> with a bound given by \<open>retry_law\<close>, so every program of the model
  returns; all other loops are structural recursions over the lists of the spec.

  Not modelled: the sharing of memory outside \<open>GoMemory\<close> (elsewhere a value is immutable), the middlewares that chi itself provides (request logging, panic recovery, the request timeout), logging,
  the registration of schemes and metrics, and the tests.
\<close>

end
